(* ===== verification/Prelude.thy ===== *)
theory Prelude
  imports Complex_Main "HOL-Library.Word" "HOL-Library.Char_ord"
    "HOL-Library.List_Lexorder" "HOL-Library.Sublist"
begin

text \<open>
  Shared vocabulary of the development: the machine integers and strings of the Rust
  sources, results as sums, the parts of the standard library the node uses (\<open>to_be_bytes\<close>,
  \<open>str::trim\<close>, \<open>str::contains\<close>, decimal formatting, \<open>HashMap\<close>), and the lemma collections
  the component theories fill and use.

  A Rust \<open>String\<close> is a sequence of UTF-8 bytes. It is modelled by a HOL \<open>string\<close>, a list of
  8-bit characters, so that \<open>len\<close> and \<open>as_bytes\<close> count and read what the source counts and
  reads, and so that \<open>Ord\<close> on strings is the byte-wise lexicographic order.
\<close>

named_theorems wire_simps \<open>lengths and decodings of the pieces of signed payloads\<close>
named_theorems hm_simps \<open>lookups in hash maps after an operation\<close>
named_theorems table_simps \<open>what a table holds after an operation\<close>

section \<open>Types\<close>

type_synonym u8 = "8 word"
type_synonym u16 = "16 word"
type_synonym u32 = "32 word"
type_synonym u64 = "64 word"
type_synonym usize = "64 word"

text \<open>An \<open>i64\<close> is its bit pattern; \<open>sint\<close> reads its value.\<close>

type_synonym i64 = "64 word"

type_synonym bytes = "u8 list"

text \<open>
  An \<open>anyhow::Error\<close> is modelled by its full rendering \<open>format!("{err:#}")\<close>, the context
  chain joined with \<open>": "\<close>. The node inspects errors only through this text.
\<close>

type_synonym err = string

section \<open>Results\<close>

fun and_then :: "'e + 'a \<Rightarrow> ('a \<Rightarrow> 'e + 'b) \<Rightarrow> 'e + 'b" where
  "and_then (Inl e) f = Inl e"
| "and_then (Inr x) f = f x"

fun map_err :: "('e \<Rightarrow> 'f) \<Rightarrow> 'e + 'a \<Rightarrow> 'f + 'a" where
  "map_err f (Inl e) = Inl (f e)"
| "map_err f (Inr x) = Inr x"

text \<open>\<open>anyhow\<close> context: the outer message, a colon and the cause.\<close>

definition with_context :: "string \<Rightarrow> err + 'a \<Rightarrow> err + 'a" where
  "with_context msg = map_err (\<lambda>e. msg @ '': '' @ e)"

fun is_ok :: "'e + 'a \<Rightarrow> bool" where
  "is_ok (Inl e) = False"
| "is_ok (Inr x) = True"

lemma and_then_cong [fundef_cong]:
  "r = r' \<Longrightarrow> (\<And>x. r' = Inr x \<Longrightarrow> f x = g x) \<Longrightarrow> and_then r f = and_then r' g"
  by (cases r') auto

lemma and_then_eq_Inr: "and_then r f = Inr y \<longleftrightarrow> (\<exists>x. r = Inr x \<and> f x = Inr y)"
  by (cases r) auto

lemma map_err_eq_Inr [simp]: "map_err f r = Inr y \<longleftrightarrow> r = Inr y"
  by (cases r) auto

lemma with_context_eq_Inr [simp]: "with_context m r = Inr y \<longleftrightarrow> r = Inr y"
  by (simp add: with_context_def)

section \<open>Saturating arithmetic\<close>

definition sat_sub :: "'a::len word \<Rightarrow> 'a word \<Rightarrow> 'a word" where
  "sat_sub a b = (if b \<le> a then a - b else 0)"

definition sat_mul :: "'a::len word \<Rightarrow> 'a word \<Rightarrow> 'a word" where
  "sat_mul a b = (if unat a * unat b < 2 ^ LENGTH('a) then a * b else - 1)"

definition sat_add :: "'a::len word \<Rightarrow> 'a word \<Rightarrow> 'a word" where
  "sat_add a b = (if unat a + unat b < 2 ^ LENGTH('a) then a + b else - 1)"

lemma unat_sat_sub: "unat (sat_sub a b) = unat a - unat b"
  by (auto simp: sat_sub_def unat_sub word_le_nat_alt)

lemma unat_minus_one_word [simp]: "unat (- 1 :: 'a::len word) = 2 ^ LENGTH('a) - 1"
  by (simp add: unsigned_minus_1_eq_mask mask_eq_exp_minus_1)

lemma unat_sat_mul:
  fixes a b :: "'a::len word"
  shows "unat (sat_mul a b) = min (2 ^ LENGTH('a) - 1) (unat a * unat b)"
  by (auto simp: sat_mul_def unat_word_ariths)

lemma unat_sat_add:
  fixes a b :: "'a::len word"
  shows "unat (sat_add a b) = min (2 ^ LENGTH('a) - 1) (unat a + unat b)"
  by (auto simp: sat_add_def unat_word_ariths)

section \<open>Big-endian bytes\<close>

text \<open>\<open>be_bytes n w\<close> is \<open>to_be_bytes\<close> of an \<open>n\<close>-byte integer: most significant byte first.\<close>

definition be_bytes :: "nat \<Rightarrow> 'a::len word \<Rightarrow> bytes" where
  "be_bytes n w = map (\<lambda>i. ucast (drop_bit (8 * (n - 1 - i)) w)) [0..<n]"

definition be32 :: "u32 \<Rightarrow> bytes" where "be32 w = be_bytes 4 w"
definition be64 :: "u64 \<Rightarrow> bytes" where "be64 w = be_bytes 8 w"

text \<open>\<open>x.len() as u32\<close>: the length, truncated to 32 bits.\<close>

definition len_u32 :: "'a list \<Rightarrow> u32" where
  "len_u32 xs = word_of_nat (length xs)"

definition as_bytes :: "string \<Rightarrow> bytes" where
  "as_bytes = map of_char"

lemma length_be32 [simp, wire_simps]: "length (be32 w) = 4"
  by (simp add: be32_def be_bytes_def)

lemma length_be64 [simp, wire_simps]: "length (be64 w) = 8"
  by (simp add: be64_def be_bytes_def)

lemma length_as_bytes [simp, wire_simps]: "length (as_bytes s) = length s"
  by (simp add: as_bytes_def)


lemma length_be_bytes [simp]: "length (be_bytes n w) = n"
  by (simp add: be_bytes_def)

lemma nth_be_bytes [simp]:
  "i < n \<Longrightarrow> be_bytes n w ! i = ucast (drop_bit (8 * (n - 1 - i)) w)"
  by (simp add: be_bytes_def)

lemma be_bytes_bit:
  fixes w :: "'a::len word"
  assumes "k < 8 * n"
  shows "bit w k = bit (be_bytes n w ! (n - 1 - k div 8)) (k mod 8)"
proof -
  have "n - 1 - k div 8 < n" "n - 1 - (n - 1 - k div 8) = k div 8"
    using assms by (auto simp: div_less_iff_less_mult)
  moreover have "k mod 8 + 8 * (k div 8) = k" "8 * (k div 8) + k mod 8 = k" by simp_all
  ultimately show ?thesis
    using bit_imp_le_length [of w k]
    by (auto simp: bit_ucast_iff bit_drop_bit_eq)
qed

lemma be_bytes_inject:
  fixes v w :: "'a::len word"
  assumes "LENGTH('a) \<le> 8 * n" and "be_bytes n v = be_bytes n w"
  shows "v = w"
proof (rule bit_word_eqI)
  fix k assume "k < LENGTH('a)"
  with assms(1) have "k < 8 * n" by simp
  with assms(2) show "bit v k = bit w k"
    by (simp add: be_bytes_bit [of k n v] be_bytes_bit [of k n w])
qed

lemma of_char_u8_inject: "(of_char c :: u8) = of_char d \<Longrightarrow> c = d"
proof -
  assume eq: "(of_char c :: u8) = of_char d"
  have "unat (of_char x :: u8) = of_char x" for x :: char
  proof -
    have "(of_char x :: nat) < 256" by (metis of_char_mod_256 mod_less_divisor zero_less_numeral)
    then have "(of_char x :: nat) mod 2 ^ LENGTH(8) = of_char x" by simp
    then show ?thesis
      by (metis of_nat_of_char unat_of_nat)
  qed
  with eq have "(of_char c :: nat) = of_char d" by metis
  then show "c = d" by simp
qed

lemma as_bytes_append [simp]: "as_bytes (s @ t) = as_bytes s @ as_bytes t"
  by (simp add: as_bytes_def)

lemma as_bytes_inject [simp]: "as_bytes s = as_bytes t \<longleftrightarrow> s = t"
  unfolding as_bytes_def
  by (rule inj_map_eq_map) (auto intro: injI of_char_u8_inject)

subsection \<open>Fixed-width fields\<close>

text \<open>
  The interface the signed payloads rely on: a field encoder whose output has one width and
  determines the value. Payloads that put such fields behind or before other bytes can then be
  taken apart.
\<close>

locale fixed_width =
  fixes enc :: "'a \<Rightarrow> bytes" and width :: nat
  assumes enc_length: "length (enc x) = width"
    and enc_inject: "enc x = enc y \<Longrightarrow> x = y"
begin

lemma enc_eq: "enc x = enc y \<longleftrightarrow> x = y"
  using enc_inject by auto

lemma prefix_inject: "enc x @ r = enc y @ s \<longleftrightarrow> x = y \<and> r = s"
  using enc_inject by (auto simp: append_eq_append_conv enc_length)

lemma suffix_inject: "r @ enc x = s @ enc y \<longleftrightarrow> r = s \<and> x = y"
  using enc_inject by (auto simp: append_eq_append_conv enc_length)

lemma concat_inject:
  "length xs = length ys \<Longrightarrow> concat (map enc xs) = concat (map enc ys) \<longleftrightarrow> xs = ys"
  by (induction xs ys rule: list_induct2) (auto simp: prefix_inject)

lemma concat_prefix_inject:
  "length xs = length ys \<Longrightarrow>
     concat (map enc xs) @ r = concat (map enc ys) @ s \<longleftrightarrow> xs = ys \<and> r = s"
  by (induction xs ys rule: list_induct2) (auto simp: prefix_inject)

end

interpretation be32: fixed_width be32 4
  by unfold_locales (auto simp: be32_def dest: be_bytes_inject [rotated])

interpretation be64: fixed_width be64 8
  by unfold_locales (auto simp: be64_def dest: be_bytes_inject [rotated])

lemmas be_inject [simp] =
  be32.enc_eq be64.enc_eq be32.prefix_inject be32.suffix_inject be64.prefix_inject be64.suffix_inject

text \<open>A block preceded by its 32-bit length, as the payload serialisers write variable parts.\<close>

definition len_block :: "bytes \<Rightarrow> bytes" where
  "len_block bs = be32 (len_u32 bs) @ bs"

lemma len_block_inject:
  assumes "length x < 2 ^ 32" "length y < 2 ^ 32"
  shows "len_block x @ r = len_block y @ s \<longleftrightarrow> x = y \<and> r = s"
proof
  assume "len_block x @ r = len_block y @ s"
  then have "len_u32 x = len_u32 y" and xy: "x @ r = y @ s"
    by (simp_all add: len_block_def)
  have "unat (len_u32 z) = length z" if "length z < 2 ^ 32" for z :: bytes
    using that by (simp add: len_u32_def unat_of_nat)
  with assms \<open>len_u32 x = len_u32 y\<close> have "length x = length y" by metis
  with xy show "x = y \<and> r = s" by simp
qed simp


section \<open>Strings\<close>

fun strip_prefix :: "string \<Rightarrow> string \<Rightarrow> string option" where
  "strip_prefix [] s = Some s"
| "strip_prefix (p # ps) [] = None"
| "strip_prefix (p # ps) (c # s) = (if p = c then strip_prefix ps s else None)"

definition strip_suffix :: "string \<Rightarrow> string \<Rightarrow> string option" where
  "strip_suffix p s = map_option rev (strip_prefix (rev p) (rev s))"

definition starts_with :: "string \<Rightarrow> string \<Rightarrow> bool" where
  "starts_with p s \<longleftrightarrow> strip_prefix p s \<noteq> None"

fun str_contains :: "string \<Rightarrow> string \<Rightarrow> bool" where
  "str_contains p [] = (p = [])"
| "str_contains p (c # s) = (starts_with p (c # s) \<or> str_contains p s)"

lemma strip_prefix_Some: "strip_prefix p s = Some r \<longleftrightarrow> s = p @ r"
  by (induction p s rule: strip_prefix.induct) auto

lemma strip_suffix_Some: "strip_suffix p s = Some r \<longleftrightarrow> s = r @ p"
proof -
  have "strip_suffix p s = Some r \<longleftrightarrow> strip_prefix (rev p) (rev s) = Some (rev r)"
    by (auto simp: strip_suffix_def)
  then show ?thesis by (simp add: strip_prefix_Some) (metis rev_append rev_rev_ident)
qed

lemma starts_with_iff: "starts_with p s \<longleftrightarrow> (\<exists>r. s = p @ r)"
  unfolding starts_with_def by (metis not_None_eq strip_prefix_Some)

lemma str_contains_iff: "str_contains p s \<longleftrightarrow> sublist p s"
proof (induction s)
  case (Cons c s)
  then show ?case
    by (auto simp: starts_with_iff sublist_Cons_right prefix_def)
qed auto

lemma str_contains_append: "str_contains p s \<Longrightarrow> str_contains p (a @ s @ b)"
  unfolding str_contains_iff sublist_def by (metis append_assoc)

text \<open>\<open>str::split\<close> on one character: always at least one part.\<close>

fun split_char :: "char \<Rightarrow> string \<Rightarrow> string list" where
  "split_char d [] = [[]]"
| "split_char d (c # s) =
     (if c = d then [] # split_char d s
      else case split_char d s of [] \<Rightarrow> [[c]] | p # ps \<Rightarrow> (c # p) # ps)"

lemma split_char_nonempty [simp]: "split_char d s \<noteq> []"
  by (induction s) (auto split: list.splits)

lemma split_char_no_sep: "d \<notin> set s \<Longrightarrow> split_char d s = [s]"
  by (induction s) auto

lemma split_char_append:
  "d \<notin> set s \<Longrightarrow> split_char d (s @ d # t) = s # split_char d t"
  by (induction s) auto

text \<open>
  \<open>str::trim\<close> removes Unicode white space at both ends. The white-space characters in UTF-8:
  the one-byte ones, U+0085 and U+00A0, U+1680, U+2000 to U+200A, U+2028, U+2029, U+202F,
  U+205F and U+3000.
\<close>

definition white_space :: "string list" where
  "white_space =
     [[CHR 0x09], [CHR 0x0A], [CHR 0x0B], [CHR 0x0C], [CHR 0x0D], [CHR 0x20],
      [CHR 0xC2, CHR 0x85], [CHR 0xC2, CHR 0xA0], [CHR 0xE1, CHR 0x9A, CHR 0x80],
      [CHR 0xE2, CHR 0x80, CHR 0x80], [CHR 0xE2, CHR 0x80, CHR 0x81],
      [CHR 0xE2, CHR 0x80, CHR 0x82], [CHR 0xE2, CHR 0x80, CHR 0x83],
      [CHR 0xE2, CHR 0x80, CHR 0x84], [CHR 0xE2, CHR 0x80, CHR 0x85],
      [CHR 0xE2, CHR 0x80, CHR 0x86], [CHR 0xE2, CHR 0x80, CHR 0x87],
      [CHR 0xE2, CHR 0x80, CHR 0x88], [CHR 0xE2, CHR 0x80, CHR 0x89],
      [CHR 0xE2, CHR 0x80, CHR 0x8A], [CHR 0xE2, CHR 0x80, CHR 0xA8],
      [CHR 0xE2, CHR 0x80, CHR 0xA9], [CHR 0xE2, CHR 0x80, CHR 0xAF],
      [CHR 0xE2, CHR 0x81, CHR 0x9F], [CHR 0xE3, CHR 0x80, CHR 0x80]]"

fun strip_any :: "string list \<Rightarrow> string \<Rightarrow> string option" where
  "strip_any [] s = None"
| "strip_any (w # ws) s =
     (case strip_prefix w s of Some r \<Rightarrow> Some r | None \<Rightarrow> strip_any ws s)"

text \<open>The recursion is bounded by the length: every white-space character is non-empty.\<close>

fun trim_start_with :: "string list \<Rightarrow> nat \<Rightarrow> string \<Rightarrow> string" where
  "trim_start_with ws 0 s = s"
| "trim_start_with ws (Suc n) s =
     (case strip_any ws s of Some r \<Rightarrow> trim_start_with ws n r | None \<Rightarrow> s)"

definition trim_start :: "string \<Rightarrow> string" where
  "trim_start s = trim_start_with white_space (length s) s"

definition trim_end :: "string \<Rightarrow> string" where
  "trim_end s = rev (trim_start_with (map rev white_space) (length s) (rev s))"

definition trim :: "string \<Rightarrow> string" where
  "trim s = trim_end (trim_start s)"

lemma trim_id:
  assumes "strip_any white_space s = None" "strip_any (map rev white_space) (rev s) = None"
  shows "trim s = s"
proof -
  have "trim_start_with ws n t = t" if "strip_any ws t = None" for ws n t
    using that by (cases n) auto
  with assms show ?thesis by (simp add: trim_def trim_start_def trim_end_def)
qed

definition to_ascii_lowercase :: "string \<Rightarrow> string" where
  "to_ascii_lowercase = map (\<lambda>c. let n = (of_char c :: nat) in
     if 65 \<le> n \<and> n \<le> 90 then char_of (n + 32) else c)"

definition eq_ignore_ascii_case :: "string \<Rightarrow> string \<Rightarrow> bool" where
  "eq_ignore_ascii_case s t \<longleftrightarrow> to_ascii_lowercase s = to_ascii_lowercase t"

subsection \<open>Decimal numbers\<close>

definition digit_char :: "nat \<Rightarrow> char" where
  "digit_char d = char_of (48 + d)"

definition is_ascii_digit :: "char \<Rightarrow> bool" where
  "is_ascii_digit c \<longleftrightarrow> (let n = (of_char c :: nat) in 48 \<le> n \<and> n \<le> 57)"

definition digit_val :: "char \<Rightarrow> nat" where
  "digit_val c = of_char c - 48"

fun show_nat :: "nat \<Rightarrow> string" where
  "show_nat n = (if n < 10 then [digit_char n] else show_nat (n div 10) @ [digit_char (n mod 10)])"

declare show_nat.simps [simp del]

definition show_int :: "int \<Rightarrow> string" where
  "show_int i = (if i < 0 then CHR ''-'' # show_nat (nat (- i)) else show_nat (nat i))"

text \<open>The value of a digit string.\<close>

definition dec_val :: "string \<Rightarrow> nat" where
  "dec_val s = foldl (\<lambda>a c. 10 * a + digit_val c) 0 s"

lemma dec_val_Nil [simp]: "dec_val [] = 0"
  by (simp add: dec_val_def)

lemma dec_val_snoc [simp]: "dec_val (s @ [c]) = 10 * dec_val s + digit_val c"
  by (simp add: dec_val_def)

lemma dec_val_append: "dec_val (s @ t) = dec_val s * 10 ^ length t + dec_val t"
  by (induction t rule: rev_induct) (simp_all flip: append_assoc add: algebra_simps)

lemma digit_char_lt: "d < 10 \<Longrightarrow> is_ascii_digit (digit_char d) \<and> digit_val (digit_char d) = d"
  by (simp add: is_ascii_digit_def digit_char_def digit_val_def)

lemma is_digit_val: "is_ascii_digit c \<Longrightarrow> digit_val c < 10"
  by (auto simp: is_ascii_digit_def digit_val_def Let_def)

lemma dec_val_zeros [simp]: "dec_val (replicate n (CHR ''0'')) = 0"
  by (induction n) (simp_all add: replicate_append_same [symmetric] digit_val_def)

lemma dec_val_bound: "list_all is_ascii_digit s \<Longrightarrow> dec_val s < 10 ^ length s"
proof (induction s rule: rev_induct)
  case (snoc c s)
  then have "dec_val s < 10 ^ length s" "digit_val c < 10" by (auto dest: is_digit_val)
  then show ?case by simp
qed simp

lemma show_nat_digits: "list_all is_ascii_digit (show_nat n) \<and> show_nat n \<noteq> []"
proof (induction n rule: show_nat.induct)
  case (1 n)
  then show ?case
    by (cases "n < 10") (auto simp: show_nat.simps [of n] digit_char_lt)
qed

lemma dec_val_show_nat [simp]: "dec_val (show_nat n) = n"
proof (induction n rule: show_nat.induct)
  case (1 n)
  then show ?case
    by (cases "n < 10")
      (simp_all add: show_nat.simps [of n] digit_char_lt dec_val_snoc [of "[]", simplified])
qed

section \<open>Hash maps\<close>

text \<open>
  A \<open>HashMap\<close> is an association list with distinct keys, its order standing for the iteration
  order of the map, which Rust leaves open. Statements are made about every such list, so they
  hold for every iteration order.
\<close>

type_synonym ('k, 'v) hash_map = "('k \<times> 'v) list"

definition hm_get :: "('k, 'v) hash_map \<Rightarrow> 'k \<Rightarrow> 'v option" where
  "hm_get m k = map_of m k"

definition hm_remove :: "'k \<Rightarrow> ('k, 'v) hash_map \<Rightarrow> ('k, 'v) hash_map" where
  "hm_remove k m = filter (\<lambda>(k', _). k' \<noteq> k) m"

definition hm_insert :: "'k \<Rightarrow> 'v \<Rightarrow> ('k, 'v) hash_map \<Rightarrow> ('k, 'v) hash_map" where
  "hm_insert k v m = (k, v) # hm_remove k m"

definition hm_retain :: "('k \<Rightarrow> 'v \<Rightarrow> bool) \<Rightarrow> ('k, 'v) hash_map \<Rightarrow> ('k, 'v) hash_map" where
  "hm_retain P m = filter (\<lambda>(k, v). P k v) m"

definition hm_values :: "('k, 'v) hash_map \<Rightarrow> 'v list" where
  "hm_values m = map snd m"

definition hm_wf :: "('k, 'v) hash_map \<Rightarrow> bool" where
  "hm_wf m \<longleftrightarrow> distinct (map fst m)"

text \<open>The contract clients use: a finite map under insertion and removal.\<close>

locale keyed_store =
  fixes empty :: "'m" and get :: "'m \<Rightarrow> 'k \<Rightarrow> 'v option"
    and put :: "'k \<Rightarrow> 'v \<Rightarrow> 'm \<Rightarrow> 'm" and del :: "'k \<Rightarrow> 'm \<Rightarrow> 'm" and invar :: "'m \<Rightarrow> bool"
  assumes get_empty: "get empty k = None"
    and get_put: "get (put k v m) = (get m)(k := Some v)"
    and get_del: "get (del k m) = (get m)(k := None)"
    and invar_empty: "invar empty"
    and invar_put: "invar m \<Longrightarrow> invar (put k v m)"
    and invar_del: "invar m \<Longrightarrow> invar (del k m)"
begin

lemma del_after_put: "get (del k (put k v m)) = get (del k m)"
  by (simp add: get_put get_del)

lemma put_overwrites: "get (put k v (put k w m)) = get (put k v m)"
  by (simp add: get_put)

lemma other_key: "j \<noteq> k \<Longrightarrow> get (put k v m) j = get m j \<and> get (del k m) j = get m j"
  by (simp add: get_put get_del)

end

lemma hm_get_remove: "hm_get (hm_remove k m) = (hm_get m)(k := None)"
  by (rule ext, induction m) (auto simp: hm_get_def hm_remove_def)

lemma hm_wf_filter: "hm_wf m \<Longrightarrow> hm_wf (filter P m)"
  by (induction m) (auto simp: hm_wf_def)

interpretation hm: keyed_store "[]" hm_get hm_insert hm_remove hm_wf
proof unfold_locales
  fix k :: 'a and v :: 'b and m :: "('a, 'b) hash_map"
  show "hm_get [] k = (None :: 'b option)" by (simp add: hm_get_def)
  show "hm_get (hm_remove k m) = (hm_get m)(k := None)" by (rule hm_get_remove)
  then show "hm_get (hm_insert k v m) = (hm_get m)(k := Some v)"
    by (auto simp: hm_insert_def hm_get_def fun_eq_iff)
  show "hm_wf ([] :: ('a, 'b) hash_map)" by (simp add: hm_wf_def)
  assume wf: "hm_wf m"
  then show "hm_wf (hm_remove k m)" by (simp add: hm_remove_def hm_wf_filter)
  then show "hm_wf (hm_insert k v m)"
    by (auto simp: hm_insert_def hm_wf_def hm_remove_def)
qed

lemmas hm_get_simps [hm_simps] = hm.get_empty hm.get_put hm.get_del

lemma hm_get_retain:
  "hm_wf m \<Longrightarrow> hm_get (hm_retain P m) k =
     (case hm_get m k of Some v \<Rightarrow> if P k v then Some v else None | None \<Rightarrow> None)"
proof (induction m)
  case (Cons a m)
  then show ?case
    by (cases a) (force simp: hm_get_def hm_retain_def hm_wf_def map_of_eq_None_iff
        dest: map_of_SomeD split: option.splits)
qed (simp add: hm_get_def hm_retain_def)

lemma hm_get_retain_Some:
  "hm_wf m \<Longrightarrow> hm_get (hm_retain P m) k = Some v \<longleftrightarrow> hm_get m k = Some v \<and> P k v"
  by (auto simp: hm_get_retain split: option.splits if_splits)

lemma hm_values_retain: "set (hm_values (hm_retain P m)) \<subseteq> set (hm_values m)"
  by (auto simp: hm_values_def hm_retain_def)

lemma hm_wf_retain [simp]: "hm_wf m \<Longrightarrow> hm_wf (hm_retain P m)"
  by (simp add: hm_retain_def hm_wf_filter)

lemma hm_get_in_values: "hm_get m k = Some v \<Longrightarrow> v \<in> set (hm_values m)"
  by (force simp: hm_get_def hm_values_def dest: map_of_SomeD)

lemma hm_values_remove: "set (hm_values (hm_remove k m)) \<subseteq> set (hm_values m)"
  by (auto simp: hm_values_def hm_remove_def)

lemma hm_values_insert:
  "set (hm_values (hm_insert k v m)) \<subseteq> insert v (set (hm_values m))"
  by (auto simp: hm_values_def hm_insert_def hm_remove_def)


section \<open>Step systems\<close>

text \<open>
  The contract of a component with state: an invariant that holds at the start and that every
  step keeps. Its client is everything that holds in the states the component can reach.
\<close>

locale step_system =
  fixes init :: "'s \<Rightarrow> bool" and step :: "'s \<Rightarrow> 's \<Rightarrow> bool" and inv :: "'s \<Rightarrow> bool"
  assumes init_inv: "init s \<Longrightarrow> inv s"
    and step_inv: "step s t \<Longrightarrow> inv s \<Longrightarrow> inv t"
begin

lemma steps_inv: "step\<^sup>*\<^sup>* s t \<Longrightarrow> inv s \<Longrightarrow> inv t"
  by (induction rule: rtranclp_induct) (auto intro: step_inv)

lemma reachable_inv: "init s \<Longrightarrow> step\<^sup>*\<^sup>* s t \<Longrightarrow> inv t"
  by (auto intro: steps_inv init_inv)

end

end
