(* ===== verification/F64.thy ===== *)
theory F64
  imports Prelude "HOL-Library.Log_Nat"
begin

text \<open>
  Rust's \<open>f64\<close>: IEEE 754 binary64 with round-to-nearest-even. A value is a NaN, a signed
  infinity, or a sign and a magnitude; the operations compute exactly on rationals and round
  once, as the standard prescribes. The main result is that rounding is monotone, from which
  the order properties of the sums in the work ledger follow.
\<close>

section \<open>Values and rounding\<close>

datatype f64 = NaN | Inf bool | Fin bool rat

text \<open>\<open>ilog2 q\<close> is the integer \<open>k\<close> with \<open>2^k \<le> q < 2^(k+1)\<close>, for positive \<open>q\<close>.\<close>

definition ilog2 :: "rat \<Rightarrow> int" where
  "ilog2 q = (case quotient_of q of (n, d) \<Rightarrow>
     (let k = int (floorlog 2 (nat n)) - int (floorlog 2 (nat d)) in
      if 2 powi k \<le> q then k else k - 1))"

text \<open>Nearest integer, ties to even.\<close>

definition rne :: "rat \<Rightarrow> int" where
  "rne x = (let f = \<lfloor>x\<rfloor>; r = x - of_int f in
     if r < 1/2 then f else if 1/2 < r then f + 1 else if even f then f else f + 1)"

text \<open>The exponent of the unit in the last place; subnormals share the least one.\<close>

definition ulp_exp :: "rat \<Rightarrow> int" where
  "ulp_exp q = max (-1074) (ilog2 q - 52)"

definition rnd :: "rat \<Rightarrow> rat" where
  "rnd q = (let u = 2 powi ulp_exp q in of_int (rne (q / u)) * u)"

text \<open>Rounding a non-negative magnitude; \<open>None\<close> is overflow to infinity.\<close>

definition round_mag :: "rat \<Rightarrow> rat option" where
  "round_mag q = (let m = rnd q in if m < 2 powi 1024 then Some m else None)"

definition mk_f64 :: "bool \<Rightarrow> rat \<Rightarrow> f64" where
  "mk_f64 s q = (case round_mag q of None \<Rightarrow> Inf s | Some m \<Rightarrow> Fin s m)"

definition f64_of_rat :: "rat \<Rightarrow> f64" where
  "f64_of_rat r = mk_f64 (r < 0) \<bar>r\<bar>"

fun signed :: "bool \<Rightarrow> rat \<Rightarrow> rat" where
  "signed s q = (if s then - q else q)"

section \<open>Operations\<close>

fun f64_neg :: "f64 \<Rightarrow> f64" where
  "f64_neg NaN = NaN"
| "f64_neg (Inf s) = Inf (\<not> s)"
| "f64_neg (Fin s q) = Fin (\<not> s) q"

fun f64_add :: "f64 \<Rightarrow> f64 \<Rightarrow> f64" where
  "f64_add NaN y = NaN"
| "f64_add x NaN = NaN"
| "f64_add (Inf s) (Inf t) = (if s = t then Inf s else NaN)"
| "f64_add (Inf s) (Fin t b) = Inf s"
| "f64_add (Fin s a) (Inf t) = Inf t"
| "f64_add (Fin s a) (Fin t b) =
     (let v = signed s a + signed t b in
      if v = 0 then Fin (s \<and> t) 0 else f64_of_rat v)"

definition f64_sub :: "f64 \<Rightarrow> f64 \<Rightarrow> f64" where
  "f64_sub x y = f64_add x (f64_neg y)"

fun f64_mul :: "f64 \<Rightarrow> f64 \<Rightarrow> f64" where
  "f64_mul NaN y = NaN"
| "f64_mul x NaN = NaN"
| "f64_mul (Inf s) (Inf t) = Inf (s \<noteq> t)"
| "f64_mul (Inf s) (Fin t b) = (if b = 0 then NaN else Inf (s \<noteq> t))"
| "f64_mul (Fin s a) (Inf t) = (if a = 0 then NaN else Inf (s \<noteq> t))"
| "f64_mul (Fin s a) (Fin t b) = mk_f64 (s \<noteq> t) (a * b)"

fun f64_div :: "f64 \<Rightarrow> f64 \<Rightarrow> f64" where
  "f64_div NaN y = NaN"
| "f64_div x NaN = NaN"
| "f64_div (Inf s) (Inf t) = NaN"
| "f64_div (Inf s) (Fin t b) = Inf (s \<noteq> t)"
| "f64_div (Fin s a) (Inf t) = Fin (s \<noteq> t) 0"
| "f64_div (Fin s a) (Fin t b) =
     (if b = 0 then (if a = 0 then NaN else Inf (s \<noteq> t)) else mk_f64 (s \<noteq> t) (a / b))"

text \<open>\<open><\<close> of the source: false as soon as one side is NaN, and blind to the sign of zero.\<close>

fun f64_less :: "f64 \<Rightarrow> f64 \<Rightarrow> bool" where
  "f64_less NaN y = False"
| "f64_less x NaN = False"
| "f64_less (Inf s) (Inf t) = (s \<and> \<not> t)"
| "f64_less (Inf s) (Fin t b) = s"
| "f64_less (Fin s a) (Inf t) = (\<not> t)"
| "f64_less (Fin s a) (Fin t b) = (signed s a < signed t b)"

fun f64_eq :: "f64 \<Rightarrow> f64 \<Rightarrow> bool" where
  "f64_eq (Inf s) (Inf t) = (s = t)"
| "f64_eq (Fin s a) (Fin t b) = (signed s a = signed t b)"
| "f64_eq x y = False"

definition f64_le :: "f64 \<Rightarrow> f64 \<Rightarrow> bool" where
  "f64_le x y \<longleftrightarrow> f64_less x y \<or> f64_eq x y"

fun f64_is_finite :: "f64 \<Rightarrow> bool" where
  "f64_is_finite (Fin s a) = True"
| "f64_is_finite x = False"

fun f64_is_nan :: "f64 \<Rightarrow> bool" where
  "f64_is_nan NaN = True"
| "f64_is_nan x = False"

text \<open>\<open>f64::max\<close> returns the other operand when one is NaN.\<close>

definition f64_max :: "f64 \<Rightarrow> f64 \<Rightarrow> f64" where
  "f64_max x y = (if f64_is_nan x then y else if f64_less x y then y else x)"

text \<open>\<open>iter().sum::<f64>()\<close> folds from negative zero.\<close>

definition f64_sum :: "f64 list \<Rightarrow> f64" where
  "f64_sum xs = foldl f64_add (Fin True 0) xs"

definition u64_as_f64 :: "u64 \<Rightarrow> f64" where
  "u64_as_f64 w = f64_of_rat (of_nat (unat w))"

text \<open>\<open>as u64\<close> truncates towards zero and saturates; NaN becomes zero.\<close>

fun f64_as_u64 :: "f64 \<Rightarrow> u64" where
  "f64_as_u64 NaN = 0"
| "f64_as_u64 (Inf s) = (if s then 0 else - 1)"
| "f64_as_u64 (Fin s q) =
     (if s then 0 else if q < 2 ^ 64 then word_of_int \<lfloor>q\<rfloor> else - 1)"


section \<open>Rounding is monotone and idempotent\<close>

lemma ilog2_bounds:
  assumes "0 < q"
  shows "2 powi ilog2 q \<le> q" and "q < 2 powi (ilog2 q + 1)"
proof -
  obtain n d where nd: "quotient_of q = (n, d)" by (cases "quotient_of q") auto
  have d: "d > 0" and q: "q = of_int n / of_int d"
    using quotient_of_denom_pos [OF nd] quotient_of_div [OF nd] by auto
  with assms have n: "n > 0" by (simp add: zero_less_divide_iff)
  define a where "a = floorlog 2 (nat n)"
  define b where "b = floorlog 2 (nat d)"
  have pos: "a > 0" "b > 0"
    using n d by (auto simp: a_def b_def floorlog_eq_zero_iff intro: gr0I)
  have "2 ^ (a - 1) \<le> nat n \<and> nat n < 2 ^ a" "2 ^ (b - 1) \<le> nat d \<and> nat d < 2 ^ b"
    using floorlog_bounds [of "nat n" 2] floorlog_bounds [of "nat d" 2] n d
    by (auto simp: a_def b_def)
  then have "of_nat (2 ^ (a - 1)) \<le> (of_nat (nat n) :: rat) \<and> of_nat (nat n) < (of_nat (2 ^ a) :: rat)"
      and "of_nat (2 ^ (b - 1)) \<le> (of_nat (nat d) :: rat) \<and> of_nat (nat d) < (of_nat (2 ^ b) :: rat)"
    unfolding of_nat_less_iff of_nat_le_iff by auto
  then have na: "2 ^ (a - 1) \<le> (of_int n :: rat)" "(of_int n :: rat) < 2 ^ a"
    and db: "2 ^ (b - 1) \<le> (of_int d :: rat)" "(of_int d :: rat) < 2 ^ b"
    using n d by simp_all
  define k where "k = int a - int b"
  have powd: "(2 :: rat) ^ x / 2 ^ y = 2 powi (int x - int y)" for x y
    by (simp add: power_int_diff)
  have "q < 2 ^ a / 2 ^ (b - 1)"
    unfolding q using na db d n by (intro frac_less) auto
  then have up: "q < 2 powi (k + 1)"
    using pos by (simp add: powd k_def of_nat_diff algebra_simps)
  have "2 ^ (a - 1) / 2 ^ b < q"
    unfolding q using na db d n by (intro frac_less2) auto
  then have lo: "2 powi (k - 1) < q"
    using pos by (simp add: powd k_def of_nat_diff algebra_simps)
  have "ilog2 q = (if 2 powi k \<le> q then k else k - 1)"
    by (simp add: ilog2_def nd k_def a_def b_def Let_def)
  with up lo show "2 powi ilog2 q \<le> q" and "q < 2 powi (ilog2 q + 1)"
    by (auto split: if_splits)
qed

lemma ilog2_less:
  assumes "0 < q" "q < 2 powi k"
  shows "ilog2 q < k"
proof -
  have "(2 :: rat) powi ilog2 q < 2 powi k" using ilog2_bounds(1) [OF assms(1)] assms(2) by simp
  then show ?thesis by (metis power_int_increasing one_le_numeral not_less)
qed

lemma ilog2_mono: "0 < p \<Longrightarrow> p \<le> q \<Longrightarrow> ilog2 p \<le> ilog2 q"
  using ilog2_less [of p "ilog2 q + 1"] ilog2_bounds(2) [of q] by simp

lemma rne_of_int [simp]: "rne (of_int k) = k"
  by (simp add: rne_def)

lemma rne_near: "of_int (rne x) - 1/2 \<le> x" "x \<le> of_int (rne x) + 1/2"
  by (auto simp: rne_def Let_def) linarith+

lemma rne_mono:
  assumes "x \<le> y" shows "rne x \<le> rne y"
proof (rule ccontr)
  assume "\<not> rne x \<le> rne y"
  then have "rne y + 1 \<le> rne x" by simp
  then have "of_int (rne y) + 1 \<le> (of_int (rne x) :: rat)"
    by (metis of_int_1 of_int_add of_int_le_iff)
  with rne_near [of x] rne_near [of y] assms have "x = y" by linarith
  with \<open>\<not> rne x \<le> rne y\<close> show False by simp
qed

text \<open>A multiple of the unit in the last place is not crossed by rounding.\<close>

lemma rnd_below_grid:
  assumes "q \<le> of_int j * 2 powi ulp_exp q" shows "rnd q \<le> of_int j * 2 powi ulp_exp q"
proof -
  have "q / 2 powi ulp_exp q \<le> of_int j" using assms by (simp add: divide_le_eq)
  from rne_mono [OF this] have "rne (q / 2 powi ulp_exp q) \<le> j" by simp
  then show ?thesis by (simp add: rnd_def Let_def mult_right_mono)
qed

lemma rnd_above_grid:
  assumes "of_int j * 2 powi ulp_exp q \<le> q" shows "of_int j * 2 powi ulp_exp q \<le> rnd q"
proof -
  have "of_int j \<le> q / 2 powi ulp_exp q" using assms by (simp add: le_divide_eq)
  from rne_mono [OF this] have "j \<le> rne (q / 2 powi ulp_exp q)" by simp
  then show ?thesis by (simp add: rnd_def Let_def mult_right_mono)
qed

lemma power_on_grid:
  assumes "e \<le> k" obtains j where "(2 :: rat) powi k = of_int j * 2 powi e"
proof
  show "(2 :: rat) powi k = of_int (2 ^ nat (k - e)) * 2 powi e"
    using assms by (simp flip: power_int_add power_int_of_nat add: power_int_nonneg_exp [symmetric])
qed

lemma rnd_nonneg: "0 \<le> q \<Longrightarrow> 0 \<le> rnd q"
  using rnd_above_grid [of 0 q] by simp

lemma rnd_0 [simp]: "rnd 0 = 0"
  by (simp add: rnd_def rne_def)

lemma rnd_mono:
  assumes "0 \<le> p" "p \<le> q" shows "rnd p \<le> rnd q"
proof (cases "p = 0")
  case True then show ?thesis using rnd_nonneg assms by simp
next
  case False
  with assms have p: "0 < p" by simp
  with assms have q: "0 < q" by simp
  have le: "ilog2 p \<le> ilog2 q" using ilog2_mono p assms by blast
  show ?thesis
  proof (cases "ulp_exp p = ulp_exp q")
    case True
    have "p / 2 powi ulp_exp q \<le> q / 2 powi ulp_exp q"
      using assms by (simp add: divide_right_mono)
    from rne_mono [OF this] show ?thesis
      by (simp add: rnd_def Let_def True mult_right_mono)
  next
    case False
    with le have uq: "ulp_exp q = ilog2 q - 52" and lt: "ilog2 p < ilog2 q"
      and ue: "ulp_exp p \<le> ilog2 q" and ueq: "ulp_exp q \<le> ilog2 q"
      by (auto simp: ulp_exp_def max_def split: if_splits)
    have "p < 2 powi (ilog2 p + 1)" using ilog2_bounds p by blast
    also have "\<dots> \<le> 2 powi ilog2 q" using lt by (intro power_int_increasing) auto
    finally have pg: "p \<le> 2 powi ilog2 q" by simp
    obtain j where j: "(2 :: rat) powi ilog2 q = of_int j * 2 powi ulp_exp p"
      using power_on_grid [OF ue] .
    obtain i where i: "(2 :: rat) powi ilog2 q = of_int i * 2 powi ulp_exp q"
      using power_on_grid [OF ueq] .
    have "rnd p \<le> 2 powi ilog2 q" using rnd_below_grid [of p j] pg j by simp
    also have "\<dots> \<le> rnd q" using rnd_above_grid [of i q] ilog2_bounds(1) [OF q] i by simp
    finally show ?thesis .
  qed
qed

lemma rnd_exact:
  assumes "q = of_int j * 2 powi ulp_exp q" shows "rnd q = q"
  using rnd_below_grid [of q j] rnd_above_grid [of j q] assms by simp


lemma on_grid_exact:
  assumes "q = of_int j * 2 powi e" "ulp_exp q \<le> e" shows "rnd q = q"
proof -
  obtain i where "(2 :: rat) powi e = of_int i * 2 powi ulp_exp q"
    using power_on_grid [OF assms(2)] .
  then have "q = of_int (j * i) * 2 powi ulp_exp q" using assms(1) by simp
  then show ?thesis by (rule rnd_exact)
qed

lemma power_int_half: "(2 :: rat) powi (e - 1) = 2 powi e / 2"
  by (simp add: power_int_diff)

lemma rnd_idem:
  assumes "0 \<le> q" shows "rnd (rnd q) = rnd q"
proof (cases "rnd q = 0")
  case False
  with assms have q: "0 < q" and m: "0 < rnd q"
    using rnd_nonneg [of q] by (auto simp: order_less_le)
  define L where "L = ilog2 q + 1"
  have uL: "ulp_exp q \<le> L"
  proof (rule ccontr)
    assume "\<not> ulp_exp q \<le> L"
    then have u: "ulp_exp q = -1074" "L + 1 \<le> -1074"
      by (auto simp: ulp_exp_def L_def max_def split: if_splits)
    have "q < 2 powi L" using ilog2_bounds(2) [OF q] by (simp add: L_def)
    also have "\<dots> \<le> 2 powi (-1074 - 1)" using u by (intro power_int_increasing) auto
    also have "\<dots> = 2 powi (-1074) / 2" by (rule power_int_half)
    finally have "q / 2 powi (-1074) < 1 / 2" by (simp add: field_simps)
    moreover have "0 \<le> q / 2 powi (-1074)" using q by simp
    ultimately have "rne (q / 2 powi (-1074)) \<le> 0" "0 \<le> rne (q / 2 powi (-1074))"
      by (auto simp: rne_def Let_def split: if_splits)
    with False u show False by (simp add: rnd_def Let_def)
  qed
  obtain j where j: "(2 :: rat) powi L = of_int j * 2 powi ulp_exp q"
    using power_on_grid [OF uL] .
  have le: "rnd q \<le> 2 powi L"
    using rnd_below_grid [of q j] ilog2_bounds(2) [OF q] j by (simp add: L_def)
  show ?thesis
  proof (cases "rnd q = 2 powi L")
    case True
    have "ilog2 (2 powi L :: rat) \<le> L"
      using ilog2_less [of "2 powi L" "L + 1"]
      by (simp add: power_int_add)
    then have "ulp_exp (rnd q) \<le> L"
      using uL by (auto simp: True ulp_exp_def)
    then show ?thesis using on_grid_exact [of "rnd q" 1 L] True by simp
  next
    case F: False
    with le have "rnd q < 2 powi L" by simp
    with ilog2_less [OF m] have "ilog2 (rnd q) < L" by simp
    then have "ulp_exp (rnd q) \<le> ulp_exp q" by (auto simp: ulp_exp_def L_def)
    moreover have "rnd q = of_int (rne (q / 2 powi ulp_exp q)) * 2 powi ulp_exp q"
      by (simp add: rnd_def Let_def)
    ultimately show ?thesis by (metis on_grid_exact)
  qed
qed simp

text \<open>Integers below \<open>2^53\<close> are exact.\<close>

lemma rnd_small_nat:
  assumes "n < 2 ^ 53" shows "rnd (of_nat n) = of_nat n"
proof (cases "n = 0")
  case False
  have "(of_nat n :: rat) < of_nat (2 ^ 53)" using assms by (simp only: of_nat_less_iff)
  then have "ilog2 (of_nat n) < 53" using False by (intro ilog2_less) auto
  then have "ulp_exp (of_nat n) \<le> 0" by (simp add: ulp_exp_def)
  then show ?thesis using on_grid_exact [of "of_nat n" "int n" 0] by simp
qed simp

section \<open>Order\<close>

text \<open>
  Representable values, and the non-negative ones (negative zero included) that durations and
  estimates are made of.
\<close>

fun f64_rep :: "f64 \<Rightarrow> bool" where
  "f64_rep (Fin s q) = (0 \<le> q \<and> rnd q = q \<and> q < 2 powi 1024)"
| "f64_rep x = True"

fun f64_nonneg :: "f64 \<Rightarrow> bool" where
  "f64_nonneg NaN = False"
| "f64_nonneg (Inf s) = (\<not> s)"
| "f64_nonneg (Fin s q) = (0 \<le> signed s q)"

lemma f64_rep_mk: "0 \<le> q \<Longrightarrow> f64_rep (mk_f64 s q)"
  by (auto simp: mk_f64_def round_mag_def Let_def rnd_nonneg rnd_idem)

lemma f64_rep_of_rat [simp]: "f64_rep (f64_of_rat r)"
  by (simp add: f64_of_rat_def f64_rep_mk)

lemma f64_rep_add: "f64_rep x \<Longrightarrow> f64_rep y \<Longrightarrow> f64_rep (f64_add x y)"
  by (cases "(x, y)" rule: f64_add.cases) (auto simp: Let_def)

lemma f64_rep_mul: "f64_rep x \<Longrightarrow> f64_rep y \<Longrightarrow> f64_rep (f64_mul x y)"
  by (cases "(x, y)" rule: f64_mul.cases) (auto simp: f64_rep_mk)

lemma f64_nonneg_of_rat: "0 \<le> r \<Longrightarrow> f64_nonneg (f64_of_rat r)"
  by (auto simp: f64_of_rat_def mk_f64_def round_mag_def Let_def rnd_nonneg)

lemma f64_nonneg_add: "f64_nonneg x \<Longrightarrow> f64_nonneg y \<Longrightarrow> f64_nonneg (f64_add x y)"
  by (cases "(x, y)" rule: f64_add.cases) (auto simp: Let_def f64_nonneg_of_rat)

lemma f64_le_refl: "\<not> f64_is_nan x \<Longrightarrow> f64_le x x"
  by (cases x) (auto simp: f64_le_def)

lemma f64_le_trans: "f64_le x y \<Longrightarrow> f64_le y z \<Longrightarrow> f64_le x z"
  by (cases x; cases y; cases z) (auto simp: f64_le_def split: if_splits)

lemma f64_not_less: "\<not> f64_is_nan x \<Longrightarrow> \<not> f64_is_nan y \<Longrightarrow> \<not> f64_less x y \<longleftrightarrow> f64_le y x"
  by (cases x; cases y) (auto simp: f64_le_def split: if_splits)

lemma f64_nonneg_not_nan: "f64_nonneg x \<Longrightarrow> \<not> f64_is_nan x"
  by (cases x) auto

lemma f64_of_rat_mono:
  assumes "0 \<le> p" "p \<le> q" shows "f64_le (f64_of_rat p) (f64_of_rat q)"
  using rnd_mono [OF assms] assms
  by (auto simp: f64_of_rat_def mk_f64_def round_mag_def Let_def f64_le_def)

text \<open>Adding a non-negative value: monotone in the other operand, and never below it.\<close>

lemma f64_add_mono:
  assumes "f64_le x y" "f64_nonneg x" "f64_nonneg y" "f64_nonneg z"
  shows "f64_le (f64_add x z) (f64_add y z)"
proof (cases x; cases y; cases z)
  fix s a t b u c assume x: "x = Fin s a" and y: "y = Fin t b" and z: "z = Fin u c"
  let ?p = "signed s a + signed u c" and ?q = "signed t b + signed u c"
  have "0 \<le> ?p" "?p \<le> ?q" using assms x y z by (auto simp: f64_le_def)
  then show ?thesis using f64_of_rat_mono [of ?p ?q] f64_nonneg_of_rat [of ?q]
    unfolding x y z f64_add.simps Let_def
    by (cases "f64_of_rat ?q") (auto simp: f64_le_def)
qed (use assms in \<open>auto simp: f64_le_def f64_of_rat_def mk_f64_def Let_def split: if_splits option.splits\<close>)

lemma f64_of_rat_rep: "f64_rep (Fin s a) \<Longrightarrow> 0 \<le> signed s a \<Longrightarrow>
    f64_eq (Fin s a) (f64_of_rat (signed s a))"
  by (auto simp: f64_of_rat_def mk_f64_def round_mag_def Let_def split: if_splits)

lemma f64_add_increasing:
  assumes "f64_rep x" "f64_nonneg x" "f64_nonneg z"
  shows "f64_le x (f64_add x z)"
proof (cases x; cases z)
  fix s a u c assume x: "x = Fin s a" and z: "z = Fin u c"
  let ?p = "signed s a" and ?q = "signed s a + signed u c"
  have nn: "0 \<le> ?p" "?p \<le> ?q" using assms x z by auto
  have "f64_le x (f64_of_rat ?p)"
    using f64_of_rat_rep [of s a] assms(1) nn(1) unfolding x f64_le_def by blast
  with f64_of_rat_mono [OF nn] have le: "f64_le x (f64_of_rat ?q)" by (rule f64_le_trans [rotated])
  show ?thesis
  proof (cases "?q = 0")
    case True
    with nn have "?p = 0" "signed u c = 0" by auto
    then show ?thesis by (auto simp: x z f64_le_def)
  next
    case False
    with le show ?thesis unfolding x z f64_add.simps Let_def by (simp del: signed.simps)
  qed
qed (use assms in \<open>auto simp: f64_le_def\<close>)


section \<open>Sums\<close>

lemma f64_foldl_rep:
  "f64_rep a \<Longrightarrow> list_all f64_rep xs \<Longrightarrow> f64_rep (foldl f64_add a xs)"
  by (induction xs arbitrary: a) (auto simp: f64_rep_add)

lemma f64_foldl_nonneg:
  "f64_nonneg a \<Longrightarrow> list_all f64_nonneg xs \<Longrightarrow> f64_nonneg (foldl f64_add a xs)"
  by (induction xs arbitrary: a) (auto simp: f64_nonneg_add)

lemma f64_sum_rep: "list_all f64_rep xs \<Longrightarrow> f64_rep (f64_sum xs)"
  by (simp add: f64_sum_def f64_foldl_rep)

lemma f64_sum_nonneg: "list_all f64_nonneg xs \<Longrightarrow> f64_nonneg (f64_sum xs)"
  by (simp add: f64_sum_def f64_foldl_nonneg)

text \<open>Leaving out non-negative summands never raises the rounded sum.\<close>

lemma f64_foldl_filter_le:
  assumes "f64_le a b" "f64_rep b" "f64_nonneg a" "f64_nonneg b"
    "list_all f64_nonneg xs" "list_all f64_rep xs"
  shows "f64_le (foldl f64_add a (filter P xs)) (foldl f64_add b xs)"
  using assms
proof (induction xs arbitrary: a b)
  case (Cons x xs)
  note prems = Cons.prems
  have b': "f64_rep (f64_add b x)" "f64_nonneg (f64_add b x)"
    using prems by (auto intro: f64_rep_add f64_nonneg_add)
  show ?case
  proof (cases "P x")
    case True
    have "f64_le (f64_add a x) (f64_add b x)" "f64_nonneg (f64_add a x)"
      using prems by (auto intro: f64_add_mono f64_nonneg_add)
    then show ?thesis using Cons.IH [of "f64_add a x" "f64_add b x"] b' prems True by simp
  next
    case False
    have "f64_le a (f64_add b x)"
      using prems by (auto intro: f64_le_trans [OF _ f64_add_increasing])
    then show ?thesis using Cons.IH [of a "f64_add b x"] b' prems False by simp
  qed
qed simp

lemma f64_sum_filter_le:
  assumes "list_all f64_nonneg xs" "list_all f64_rep xs"
  shows "f64_le (f64_sum (filter P xs)) (f64_sum xs)"
  unfolding f64_sum_def by (rule f64_foldl_filter_le) (use assms in \<open>auto simp: f64_le_def\<close>)

lemma f64_add_mono2:
  assumes "f64_le x y" "f64_le u v" "f64_nonneg x" "f64_nonneg y" "f64_nonneg u" "f64_nonneg v"
  shows "f64_le (f64_add x u) (f64_add y v)"
proof -
  have comm: "f64_add a b = f64_add b a" for a b
    by (cases a; cases b) (auto simp: Let_def add.commute)
  have "f64_le (f64_add x u) (f64_add y u)" using assms by (intro f64_add_mono) auto
  moreover have "f64_le (f64_add y u) (f64_add y v)"
    using f64_add_mono [of u v y] assms by (simp add: comm)
  ultimately show ?thesis by (rule f64_le_trans)
qed


section \<open>Small integers are exact\<close>

lemma f64_of_small_nat:
  assumes "n < 2 ^ 53" shows "f64_of_rat (of_nat n) = Fin False (of_nat n)"
proof -
  have "(of_nat n :: rat) < of_nat (2 ^ 53)" using assms by (simp only: of_nat_less_iff)
  also have "\<dots> = 2 powi 53" by simp
  also have "\<dots> \<le> 2 powi 1024" by (intro power_int_increasing) auto
  finally show ?thesis
    using rnd_small_nat [OF assms]
    by (simp add: f64_of_rat_def mk_f64_def round_mag_def Let_def del: power_int_numeral)
qed

lemma f64_of_small_numeral [simp]:
  "(numeral n :: nat) < 2 ^ 53 \<Longrightarrow> f64_of_rat (numeral n) = Fin False (numeral n)"
  using f64_of_small_nat [of "numeral n"] by simp

lemma f64_of_0 [simp]: "f64_of_rat 0 = Fin False 0"
  using f64_of_small_nat [of 0] by simp

lemma f64_of_1 [simp]: "f64_of_rat 1 = Fin False 1"
  using f64_of_small_nat [of 1] by simp

lemma mk_f64_nonneg: "0 \<le> q \<Longrightarrow> mk_f64 False q = f64_of_rat q"
  by (simp add: f64_of_rat_def)

lemma f64_rep_u64 [simp]: "f64_rep (u64_as_f64 w)"
  by (simp add: u64_as_f64_def)

lemma f64_nonneg_u64 [simp]: "f64_nonneg (u64_as_f64 w)"
  unfolding u64_as_f64_def by (rule f64_nonneg_of_rat) (rule of_nat_0_le_iff)

lemma f64_nonneg_mul:
  "f64_nonneg x \<Longrightarrow> f64_nonneg y \<Longrightarrow> f64_is_finite x \<Longrightarrow> f64_is_finite y \<Longrightarrow>
   f64_rep x \<Longrightarrow> f64_rep y \<Longrightarrow> f64_nonneg (f64_mul x y)"
  by (cases x; cases y)
    (auto simp: mk_f64_def round_mag_def Let_def rnd_nonneg split: if_splits)


lemma rnd_le_power:
  assumes "0 \<le> q" "q \<le> 2 powi k" "-1074 \<le> k" shows "rnd q \<le> 2 powi k"
proof -
  have "ilog2 (2 powi k :: rat) < k + 1" by (rule ilog2_less) (simp_all add: power_int_add)
  then have "ulp_exp (2 powi k) \<le> k" using assms(3) by (auto simp: ulp_exp_def)
  then have "rnd (2 powi k) = 2 powi k" using on_grid_exact [of "2 powi k" 1 k] by simp
  with rnd_mono [OF assms(1,2)] show ?thesis by simp
qed

lemma f64_finite_of_nat:
  assumes "n < 2 ^ 64" shows "f64_is_finite (f64_of_rat (of_nat n))"
proof -
  have "(of_nat n :: rat) < of_nat (2 ^ 64)" using assms by (simp only: of_nat_less_iff)
  then have "rnd (of_nat n) \<le> 2 powi 64" by (intro rnd_le_power) auto
  also have "\<dots> < 2 powi 1024" by (intro power_int_strict_increasing) auto
  finally show ?thesis
    by (simp add: f64_of_rat_def mk_f64_def round_mag_def Let_def del: power_int_numeral)
qed

lemma f64_finite_u64 [simp]: "f64_is_finite (u64_as_f64 w)"
proof -
  have "unat w < 2 ^ 64" using unsigned_less [of w] by simp
  then show ?thesis unfolding u64_as_f64_def by (rule f64_finite_of_nat)
qed

lemma f64_rep_div: "f64_rep x \<Longrightarrow> f64_rep y \<Longrightarrow> f64_rep (f64_div x y)"
  by (cases x; cases y) (auto simp: f64_rep_mk)

lemma f64_rep_neg: "f64_rep (f64_neg x) = f64_rep x"
  by (cases x) auto

lemma f64_less_nonneg: "f64_less (Fin s 0) x \<Longrightarrow> f64_nonneg x"
  by (cases x) (auto split: if_splits)


section \<open>Evaluation on small integers\<close>

lemma rnd_numeral [simp]: "(numeral n :: nat) < 2 ^ 53 \<Longrightarrow> rnd (numeral n) = numeral n"
  using rnd_small_nat [of "numeral n"] by simp

lemma rnd_1 [simp]: "rnd 1 = 1"
  using rnd_small_nat [of 1] by simp

lemma mk_f64_numeral [simp]:
  "(numeral n :: nat) < 2 ^ 53 \<Longrightarrow> mk_f64 False (numeral n) = Fin False (numeral n)"
  "mk_f64 False 0 = Fin False 0" "mk_f64 False 1 = Fin False 1"
  by (simp_all add: mk_f64_nonneg)

lemma u64_as_f64_numeral [simp]:
  assumes "(numeral n :: nat) < 2 ^ 53"
  shows "u64_as_f64 (numeral n) = Fin False (numeral n)"
proof -
  have "(2 :: nat) ^ 53 < 2 ^ LENGTH(64)" by simp
  with assms have "(numeral n :: nat) mod 2 ^ LENGTH(64) = numeral n"
    by (meson less_trans mod_less)
  then have "unat (numeral n :: u64) = numeral n"
    using unat_of_nat [of "numeral n", where ?'a = 64] by (simp only: of_nat_numeral)
  then show ?thesis using f64_of_small_nat [OF assms] by (simp add: u64_as_f64_def)
qed

lemma u64_as_f64_0 [simp]: "u64_as_f64 0 = Fin False 0"
  by (simp add: u64_as_f64_def)

end
