(* ===== verification/Work.thy ===== *)
theory Work
  imports F64
begin

text \<open>
  The work budget of \<open>src/src/domain/work.rs\<close>: whether this node can finish an announced
  sub-task in time. \<open>work_ledger\<close> is \<open>WorkLedger\<close>, with its three hash maps; the operations
  are the methods of the \<open>impl\<close>, with the clock reading as an argument.

  A \<open>Duration\<close> is a number of nanoseconds and an \<open>Instant\<close> a number of nanoseconds since
  some fixed start; \<open>duration_since\<close> saturates at zero, as the subtraction of \<open>nat\<close> does.
\<close>

section \<open>Data\<close>

type_synonym duration = nat
type_synonym instant = nat

definition from_secs :: "nat \<Rightarrow> duration" where
  "from_secs n = n * 1000000000"

definition duration_since :: "instant \<Rightarrow> instant \<Rightarrow> duration" where
  "duration_since now since = now - since"

definition as_secs_f64 :: "duration \<Rightarrow> f64" where
  "as_secs_f64 d = f64_add (f64_of_rat (of_nat (d div 1000000000)))
     (f64_div (f64_of_rat (of_nat (d mod 1000000000))) (f64_of_rat 1000000000))"

definition ANNOUNCED_TTL :: duration where "ANNOUNCED_TTL = from_secs (6 * 60 * 60)"
definition RESERVATION_TTL :: duration where "RESERVATION_TTL = from_secs 15"

definition SECONDS_PER_BYTE :: "f64 \<times> f64" where
  "SECONDS_PER_BYTE = (f64_of_rat (1 / 10 ^ 13), f64_of_rat (1 / 10 ^ 6))"

definition SECONDS_PER_FLOP :: "f64 \<times> f64" where
  "SECONDS_PER_FLOP = (f64_of_rat (1 / 10 ^ 14), f64_of_rat (1 / 10 ^ 6))"

record work =
  traffic_bytes :: u64
  flops :: u64

record tn_rates =
  seconds_per_byte :: f64
  seconds_per_flop :: f64

record budget =
  deadline_secs :: u32
  expected_secs :: f64

record budget_policy =
  rates :: tn_rates
  overhead_secs :: f64
  margin :: f64
  own_timeout_secs :: u64
  unknown_secs :: f64

record held_task =
  held_expected :: "f64 option"
  held_started :: "instant option"

record work_ledger =
  announced :: "(string, budget \<times> instant) hash_map"
  reserved :: "(string, f64 \<times> instant) hash_map"
  held :: "(string, held_task) hash_map"

definition empty_ledger :: work_ledger where
  "empty_ledger = \<lparr>announced = [], reserved = [], held = []\<rparr>"

section \<open>Operations\<close>

definition rate_within :: "f64 \<Rightarrow> f64 \<times> f64 \<Rightarrow> bool" where
  "rate_within x = (\<lambda>(lo, hi). f64_is_finite x \<and> f64_le lo x \<and> f64_le x hi)"

definition from_sysinfo :: "f64 option \<Rightarrow> f64 option \<Rightarrow> tn_rates option" where
  "from_sysinfo per_byte per_flop =
     (case (per_byte, per_flop) of
        (Some b, Some f) \<Rightarrow>
          if rate_within b SECONDS_PER_BYTE \<and> rate_within f SECONDS_PER_FLOP
          then Some \<lparr>seconds_per_byte = b, seconds_per_flop = f\<rparr> else None
      | _ \<Rightarrow> None)"

definition rate_seconds :: "tn_rates \<Rightarrow> work \<Rightarrow> f64" where
  "rate_seconds r w =
     f64_add (f64_mul (u64_as_f64 (traffic_bytes w)) (seconds_per_byte r))
             (f64_mul (u64_as_f64 (flops w)) (seconds_per_flop r))"

definition compute_timeout :: "u64 \<Rightarrow> budget option \<Rightarrow> duration \<Rightarrow> duration option" where
  "compute_timeout own_secs b waited =
     (let own = from_secs (unat own_secs) in
      case b of
        None \<Rightarrow> Some own
      | Some b \<Rightarrow>
          (let deadline = from_secs (unat (deadline_secs b)) in
           if deadline < waited then None
           else let left = deadline - waited in
                if left = 0 then None else Some (min own left)))"

definition held_secs :: "instant \<Rightarrow> f64 \<Rightarrow> held_task \<Rightarrow> f64" where
  "held_secs now unknown h =
     (case (held_expected h, held_started h) of
        (None, _) \<Rightarrow> unknown
      | (Some expected, None) \<Rightarrow> expected
      | (Some expected, Some since) \<Rightarrow>
          (let left = f64_sub expected (as_secs_f64 (duration_since now since)) in
           if f64_less (f64_of_rat 0) left then left else expected))"

definition queued_secs :: "work_ledger \<Rightarrow> instant \<Rightarrow> f64 \<Rightarrow> f64" where
  "queued_secs l now unknown =
     f64_add
       (f64_sum (map (held_secs now unknown) (hm_values (held l))))
       (f64_sum (map fst (filter (\<lambda>(_, until). now < until) (hm_values (reserved l)))))"

definition decide :: "work_ledger \<Rightarrow> string \<Rightarrow> work \<Rightarrow> u32 \<Rightarrow> budget_policy \<Rightarrow> instant \<Rightarrow>
    (f64 + budget) \<times> work_ledger" where
  "decide l task_id w deadline policy now =
     (let l = l\<lparr>reserved := hm_retain (\<lambda>_ (_, until). now < until) (reserved l)\<rparr>;
          own = f64_add (rate_seconds (rates policy) w) (overhead_secs policy);
          total = f64_add (queued_secs l now (unknown_secs policy)) own;
          limit = f64_mul (margin policy)
                    (u64_as_f64 (min (own_timeout_secs policy) (ucast deadline)))
      in if f64_less limit total then (Inl total, l)
         else
           let l = l\<lparr>announced :=
                       hm_retain (\<lambda>_ (_, since). duration_since now since < ANNOUNCED_TTL) (announced l)\<rparr>;
               budget = \<lparr>deadline_secs = deadline, expected_secs = own\<rparr>
           in (Inr budget,
               l\<lparr>announced := hm_insert task_id (budget, now) (announced l),
                 reserved := hm_insert task_id (own, now + RESERVATION_TTL) (reserved l)\<rparr>))"

definition budget_of :: "work_ledger \<Rightarrow> string \<Rightarrow> budget option" where
  "budget_of l parent_task_id = map_option fst (hm_get (announced l) parent_task_id)"

definition hold :: "work_ledger \<Rightarrow> string \<Rightarrow> string option \<Rightarrow> budget option \<Rightarrow> work_ledger" where
  "hold l sub_task_id parent_task_id b =
     (let l = (case parent_task_id of
                 Some parent \<Rightarrow> l\<lparr>reserved := hm_remove parent (reserved l)\<rparr>
               | None \<Rightarrow> l)
      in l\<lparr>held := hm_insert sub_task_id
             \<lparr>held_expected = map_option expected_secs b, held_started = None\<rparr> (held l)\<rparr>)"

definition start :: "work_ledger \<Rightarrow> string \<Rightarrow> instant \<Rightarrow> work_ledger" where
  "start l sub_task_id now =
     l\<lparr>held := map (\<lambda>(k, h). (k, if k = sub_task_id then h\<lparr>held_started := Some now\<rparr> else h))
               (held l)\<rparr>"

definition release :: "work_ledger \<Rightarrow> string \<Rightarrow> work_ledger" where
  "release l sub_task_id = l\<lparr>held := hm_remove sub_task_id (held l)\<rparr>"


section \<open>Invariant\<close>

text \<open>An estimate is a representable number that is not negative (nor NaN).\<close>

definition est_ok :: "f64 \<Rightarrow> bool" where
  "est_ok x \<longleftrightarrow> f64_nonneg x \<and> f64_rep x"

definition finite_ok :: "f64 \<Rightarrow> bool" where
  "finite_ok x \<longleftrightarrow> f64_nonneg x \<and> f64_rep x \<and> f64_is_finite x"

text \<open>What \<open>NodeConfig::from_env\<close> and \<open>TnRates::from_sysinfo\<close> check of the settings.\<close>

definition policy_ok :: "budget_policy \<Rightarrow> bool" where
  "policy_ok p \<longleftrightarrow> finite_ok (seconds_per_byte (rates p)) \<and> finite_ok (seconds_per_flop (rates p))
     \<and> finite_ok (overhead_secs p) \<and> finite_ok (unknown_secs p) \<and> finite_ok (margin p)"

definition budget_ok :: "budget option \<Rightarrow> bool" where
  "budget_ok b \<longleftrightarrow> (case b of None \<Rightarrow> True | Some b \<Rightarrow> est_ok (expected_secs b))"

definition held_ok :: "held_task \<Rightarrow> bool" where
  "held_ok h \<longleftrightarrow> (case held_expected h of None \<Rightarrow> True | Some e \<Rightarrow> est_ok e)"

text \<open>
  The ledger's invariant: the maps are maps, all estimates are proper, and every reservation
  carries the estimate of the budget announced for the same parent and ends
  \<open>RESERVATION_TTL\<close> after it.
\<close>

definition reservation_ok :: "work_ledger \<Rightarrow> bool" where
  "reservation_ok l \<longleftrightarrow> (\<forall>k e u. hm_get (reserved l) k = Some (e, u) \<longrightarrow>
     (\<exists>b t. hm_get (announced l) k = Some (b, t) \<and> expected_secs b = e \<and> u = t + RESERVATION_TTL))"

definition ledger_wf :: "work_ledger \<Rightarrow> bool" where
  "ledger_wf l \<longleftrightarrow>
     hm_wf (announced l) \<and> hm_wf (reserved l) \<and> hm_wf (held l) \<and>
     (\<forall>(b, _) \<in> set (hm_values (announced l)). est_ok (expected_secs b)) \<and>
     (\<forall>(e, _) \<in> set (hm_values (reserved l)). est_ok e) \<and>
     (\<forall>h \<in> set (hm_values (held l)). held_ok h) \<and>
     reservation_ok l"

lemma reservation_okD:
  "reservation_ok l \<Longrightarrow> hm_get (reserved l) k = Some (e, u) \<Longrightarrow>
     \<exists>b t. hm_get (announced l) k = Some (b, t) \<and> expected_secs b = e \<and> u = t + RESERVATION_TTL"
  unfolding reservation_ok_def by blast

lemma ledger_wfD:
  assumes "ledger_wf l"
  shows "hm_wf (announced l)" "hm_wf (reserved l)" "hm_wf (held l)" "reservation_ok l"
  using assms by (simp_all add: ledger_wf_def)

lemma est_ok_add: "est_ok x \<Longrightarrow> est_ok y \<Longrightarrow> est_ok (f64_add x y)"
  by (simp add: est_ok_def f64_nonneg_add f64_rep_add)

lemma est_ok_u64_mul: "finite_ok x \<Longrightarrow> est_ok (f64_mul (u64_as_f64 w) x)"
  by (simp add: est_ok_def finite_ok_def f64_nonneg_mul f64_rep_mul)

lemma rate_seconds_ok:
  "finite_ok (seconds_per_byte r) \<Longrightarrow> finite_ok (seconds_per_flop r) \<Longrightarrow> est_ok (rate_seconds r w)"
  by (simp add: rate_seconds_def est_ok_add est_ok_u64_mul)

lemma finite_imp_est: "finite_ok x \<Longrightarrow> est_ok x"
  by (simp add: est_ok_def finite_ok_def)

lemma as_secs_f64_rep: "f64_rep (as_secs_f64 d)"
proof -
  have "f64_rep (f64_div (f64_of_rat (of_nat (d mod 1000000000))) (f64_of_rat 1000000000))"
    by (intro f64_rep_div) (simp_all only: f64_rep_of_rat)
  then show ?thesis unfolding as_secs_f64_def by (intro f64_rep_add) (simp_all only: f64_rep_of_rat)
qed

lemma held_secs_ok: "held_ok h \<Longrightarrow> est_ok u \<Longrightarrow> est_ok (held_secs now u h)"
  unfolding held_secs_def held_ok_def est_ok_def
  by (auto simp: Let_def f64_sub_def f64_rep_add f64_rep_neg as_secs_f64_rep
      dest: f64_less_nonneg split: option.splits)

lemma est_ok_sum: "list_all est_ok xs \<Longrightarrow> est_ok (f64_sum xs)"
  by (simp add: est_ok_def f64_sum_nonneg f64_sum_rep list_all_iff)

lemma held_sum_ok:
  "ledger_wf l \<Longrightarrow> est_ok u \<Longrightarrow> list_all est_ok (map (held_secs now u) (hm_values (held l)))"
  by (auto simp: ledger_wf_def list_all_iff held_secs_ok)

lemma reserved_sum_ok:
  "ledger_wf l \<Longrightarrow> list_all est_ok (map fst (filter P (hm_values (reserved l))))"
  by (fastforce simp: ledger_wf_def list_all_iff)

lemma queued_secs_ok: "ledger_wf l \<Longrightarrow> est_ok u \<Longrightarrow> est_ok (queued_secs l now u)"
  unfolding queued_secs_def
  by (intro est_ok_add est_ok_sum held_sum_ok reserved_sum_ok)

lemma reservation_ttl_lt: "RESERVATION_TTL < ANNOUNCED_TTL"
  by (simp add: RESERVATION_TTL_def ANNOUNCED_TTL_def from_secs_def)

subsection \<open>Every operation keeps it\<close>

text \<open>The state \<open>decide\<close> leaves on rejection: expired reservations gone.\<close>

definition drop_expired :: "work_ledger \<Rightarrow> instant \<Rightarrow> work_ledger" where
  "drop_expired l now = l\<lparr>reserved := hm_retain (\<lambda>_ (_, until). now < until) (reserved l)\<rparr>"

definition own_estimate :: "budget_policy \<Rightarrow> work \<Rightarrow> f64" where
  "own_estimate p w = f64_add (rate_seconds (rates p) w) (overhead_secs p)"

definition decide_limit :: "budget_policy \<Rightarrow> u32 \<Rightarrow> f64" where
  "decide_limit p d = f64_mul (margin p) (u64_as_f64 (min (own_timeout_secs p) (ucast d)))"

lemma queued_secs_drop_expired [simp]:
  "queued_secs (drop_expired l now) now u = queued_secs l now u"
proof -
  have "filter (\<lambda>(_, until). now < until)
          (hm_values (hm_retain (\<lambda>_ (_, until). now < until) m))
      = filter (\<lambda>(_, until). now < until) (hm_values m)" for m :: "(string, f64 \<times> nat) hash_map"
    by (induction m) (auto simp: hm_values_def hm_retain_def)
  then show ?thesis by (simp add: queued_secs_def drop_expired_def)
qed

lemma decide_unfold:
  "decide l t w d p now =
     (let own = own_estimate p w; total = f64_add (queued_secs l now (unknown_secs p)) own in
      if f64_less (decide_limit p d) total then (Inl total, drop_expired l now)
      else (Inr \<lparr>deadline_secs = d, expected_secs = own\<rparr>,
        \<lparr>announced = hm_insert t (\<lparr>deadline_secs = d, expected_secs = own\<rparr>, now)
             (hm_retain (\<lambda>_ (_, since). duration_since now since < ANNOUNCED_TTL) (announced l)),
         reserved = hm_insert t (own, now + RESERVATION_TTL) (reserved (drop_expired l now)),
         held = held l\<rparr>))"
proof -
  have "queued_secs (l\<lparr>reserved := hm_retain (\<lambda>_ (_, until). now < until) (reserved l)\<rparr>) now u
      = queued_secs l now u" for u
    using queued_secs_drop_expired [of l now u] by (simp only: drop_expired_def)
  then show ?thesis
    by (simp add: decide_def Let_def own_estimate_def decide_limit_def drop_expired_def)
qed

lemma drop_expired_wf:
  assumes "ledger_wf l" shows "ledger_wf (drop_expired l now)"
proof -
  have "reservation_ok (drop_expired l now)"
    unfolding reservation_ok_def
    using reservation_okD [OF ledger_wfD(4) [OF assms]] ledger_wfD(2) [OF assms]
    by (simp add: drop_expired_def hm_get_retain_Some)
  then show ?thesis
    using assms hm_values_retain [of _ "reserved l"]
    unfolding ledger_wf_def drop_expired_def by fastforce
qed

lemma own_estimate_ok: "policy_ok p \<Longrightarrow> est_ok (own_estimate p w)"
  by (simp add: own_estimate_def policy_ok_def est_ok_add rate_seconds_ok finite_imp_est)

lemma decide_wf:
  assumes "ledger_wf l" "policy_ok p"
  shows "ledger_wf (snd (decide l t w d p now))"
proof (cases "f64_less (decide_limit p d)
          (f64_add (queued_secs l now (unknown_secs p)) (own_estimate p w))")
  case True
  then show ?thesis using drop_expired_wf [OF assms(1)] by (simp add: decide_unfold Let_def)
next
  case False
  let ?l = "snd (decide l t w d p now)" and ?r = "drop_expired l now"
  have wf: "ledger_wf ?r" using drop_expired_wf [OF assms(1)] .
  note own = own_estimate_ok [OF assms(2), of w]
  have anns: "set (hm_values (announced ?l)) \<subseteq>
      insert (\<lparr>deadline_secs = d, expected_secs = own_estimate p w\<rparr>, now) (set (hm_values (announced l)))"
    using False by (auto simp: decide_unfold Let_def hm_values_def hm_insert_def hm_remove_def hm_retain_def)
  have ress: "set (hm_values (reserved ?l)) \<subseteq>
      insert (own_estimate p w, now + RESERVATION_TTL) (set (hm_values (reserved ?r)))"
    using False by (auto simp: decide_unfold Let_def hm_values_def hm_insert_def hm_remove_def)
  have "reservation_ok ?l"
    unfolding reservation_ok_def
  proof (intro allI impI)
    fix k e u assume get: "hm_get (reserved ?l) k = Some (e, u)"
    show "\<exists>b s. hm_get (announced ?l) k = Some (b, s) \<and> expected_secs b = e \<and> u = s + RESERVATION_TTL"
    proof (cases "k = t")
      case True
      with get False show ?thesis by (simp add: decide_unfold Let_def hm_simps)
    next
      case neq: False
      with get False have "hm_get (reserved ?r) k = Some (e, u)"
        by (simp add: decide_unfold Let_def hm_simps)
      then have "hm_get (reserved l) k = Some (e, u)" and "now < u"
        using ledger_wfD(2) [OF assms(1)] by (auto simp: drop_expired_def hm_get_retain_Some)
      then obtain b s where bs: "hm_get (announced l) k = Some (b, s)"
          "expected_secs b = e" "u = s + RESERVATION_TTL"
        using reservation_okD [OF ledger_wfD(4) [OF assms(1)]] by blast
      then have "duration_since now s < ANNOUNCED_TTL"
        using \<open>now < u\<close> reservation_ttl_lt by (auto simp: duration_since_def)
      with bs neq False assms(1) show ?thesis
        by (auto simp: decide_unfold Let_def hm_simps hm_get_retain ledger_wf_def)
    qed
  qed
  then show ?thesis
    using wf own False anns ress
    unfolding ledger_wf_def
    by (fastforce simp: decide_unfold Let_def hm.invar_put drop_expired_def)
qed

lemma hold_wf:
  assumes "ledger_wf l" "budget_ok b" shows "ledger_wf (hold l s parent b)"
proof -
  have "held_ok \<lparr>held_expected = map_option expected_secs b, held_started = None\<rparr>"
    using assms(2) by (auto simp: held_ok_def budget_ok_def split: option.splits)
  then show ?thesis
    using assms(1) hm_values_insert [of s _ "held l"] hm_values_remove [of _ "reserved l"]
    unfolding ledger_wf_def reservation_ok_def hold_def Let_def
    by (cases parent)
      (fastforce simp: hm.invar_put hm.invar_del hm_simps split: if_splits)+
qed

lemma start_wf:
  assumes "ledger_wf l" shows "ledger_wf (start l s now)"
proof -
  have "map fst (held (start l s now)) = map fst (held l)"
    by (auto simp: start_def)
  then have "hm_wf (held (start l s now))"
    using ledger_wfD(3) [OF assms] by (simp only: hm_wf_def)
  then show ?thesis
    using assms
    unfolding ledger_wf_def reservation_ok_def
    by (auto simp: start_def hm_values_def held_ok_def split: if_splits)
qed

lemma release_wf: "ledger_wf l \<Longrightarrow> ledger_wf (release l s)"
  using hm_values_remove [of s "held l"]
  by (auto simp: ledger_wf_def release_def reservation_ok_def hm.invar_del)

lemma budget_of_ok: "ledger_wf l \<Longrightarrow> budget_ok (budget_of l t)"
  by (auto simp: budget_of_def budget_ok_def ledger_wf_def
      dest!: hm_get_in_values split: option.splits)


subsection \<open>The ledger as a step system\<close>

text \<open>
  The calls the node makes: \<open>decide\<close> on an announcement (\<open>bid_client.rs\<close>), \<open>hold\<close> on a
  dispatch with the budget on record (\<open>dispatch_handler.rs\<close>, \<open>accept_task.rs\<close>) or on restart
  with the stored one (\<open>main.rs\<close>), \<open>start\<close> and \<open>release\<close> by the worker. Times are arbitrary.
\<close>

inductive ledger_step :: "budget_policy \<Rightarrow> work_ledger \<Rightarrow> work_ledger \<Rightarrow> bool"
  for p :: budget_policy where
  decide: "ledger_step p l (snd (decide l t w d p now))"
| hold_bid: "ledger_step p l (hold l s (Some t) (budget_of l t))"
| hold_restored: "budget_ok b \<Longrightarrow> ledger_step p l (hold l s parent b)"
| start: "ledger_step p l (start l s now)"
| release: "ledger_step p l (release l s)"

inductive_cases ledger_stepE: "ledger_step p l l'"

lemma ledger_step_wf: "ledger_step p l l' \<Longrightarrow> policy_ok p \<Longrightarrow> ledger_wf l \<Longrightarrow> ledger_wf l'"
  by (auto elim!: ledger_stepE intro: decide_wf hold_wf budget_of_ok start_wf release_wf)

lemma empty_ledger_wf: "ledger_wf empty_ledger"
  by (simp add: empty_ledger_def ledger_wf_def reservation_ok_def hm_wf_def hm_values_def hm_simps)

interpretation ledger: step_system "\<lambda>l. l = empty_ledger" "\<lambda>l l'. policy_ok p \<and> ledger_step p l l'"
  ledger_wf for p
  by unfold_locales (auto simp: empty_ledger_wf intro: ledger_step_wf)

lemma ledger_run_wf:
  "(ledger_step p)\<^sup>*\<^sup>* empty_ledger l \<Longrightarrow> policy_ok p \<Longrightarrow> ledger_wf l"
  by (rule ledger.reachable_inv [of empty_ledger p l]) auto

section \<open>Properties\<close>

lemma queue_split_le:
  assumes "ledger_wf l" "est_ok u"
  shows "f64_le (queued_secs (release l k) now u) (queued_secs l now u)"
proof -
  let ?h = "map (held_secs now u) (hm_values (held l))"
  have "map (held_secs now u) (hm_values (held (release l k)))
      = map (held_secs now u \<circ> snd) (filter (\<lambda>(k', _). k' \<noteq> k) (held l))"
    by (simp add: release_def hm_values_def hm_remove_def)
  moreover have "f64_le (f64_sum (map f (filter P xs))) (f64_sum (map f xs))"
    if "list_all est_ok (map f xs)" for f :: "string \<times> held_task \<Rightarrow> f64" and P xs
  proof -
    have "f64_le (foldl f64_add a (map f (filter P xs))) (foldl f64_add b (map f xs))"
      if "f64_le a b" "f64_rep b" "f64_nonneg a" "f64_nonneg b" "list_all est_ok (map f xs)" for a b
      using that
    proof (induction xs arbitrary: a b)
      case (Cons x xs)
      have "f64_le a (f64_add b (f x))"
        using Cons.prems by (auto intro: f64_le_trans [OF _ f64_add_increasing] simp: est_ok_def)
      with Cons show ?case
        by (auto simp: est_ok_def f64_add_mono f64_nonneg_add f64_rep_add)
    qed simp
    then show ?thesis using that unfolding f64_sum_def by (auto simp: f64_le_def)
  qed
  ultimately have "f64_le (f64_sum (map (held_secs now u) (hm_values (held (release l k)))))
      (f64_sum ?h)"
    using held_sum_ok [OF assms, of now] by (simp add: hm_values_def comp_def)
  moreover have "reserved (release l k) = reserved l" by (simp add: release_def)
  ultimately show ?thesis
    using assms est_ok_sum [OF held_sum_ok [OF assms]] est_ok_sum [OF reserved_sum_ok [OF assms(1)]]
      est_ok_sum [OF held_sum_ok [OF release_wf [OF assms(1)] assms(2)]]
    unfolding queued_secs_def
    by (intro f64_add_mono2) (auto simp: est_ok_def f64_le_refl f64_nonneg_not_nan)
qed

text \<open>
  Property C11. In every state the ledger can reach under checked settings, the queue estimate is a
  non-negative number, never NaN, so that the comparison in \<open>decide\<close> cannot admit work by default,
  and every pending reservation agrees with the budget on record for its parent task.
\<close>

theorem ledger_reachable_sound:
  assumes "(ledger_step p)\<^sup>*\<^sup>* empty_ledger l" and "policy_ok p"
  shows "f64_nonneg (queued_secs l now (unknown_secs p)) \<and>
    (\<forall>t e until. hm_get (reserved l) t = Some (e, until) \<longrightarrow>
       (\<exists>b. budget_of l t = Some b \<and> expected_secs b = e))"
proof -
  have wf: "ledger_wf l" using ledger_run_wf assms by blast
  have "est_ok (unknown_secs p)" using assms(2) by (simp add: policy_ok_def finite_imp_est)
  with wf have "f64_nonneg (queued_secs l now (unknown_secs p))"
    using queued_secs_ok est_ok_def by blast
  moreover have "\<forall>t e until. hm_get (reserved l) t = Some (e, until) \<longrightarrow>
       (\<exists>b. budget_of l t = Some b \<and> expected_secs b = e)"
    using reservation_okD [OF ledger_wfD(4) [OF wf]] by (fastforce simp: budget_of_def)
  ultimately show ?thesis by blast
qed

text \<open>One second per byte and per flop, five seconds overhead, the whole limit usable.\<close>

definition demo_policy :: budget_policy where
  "demo_policy = \<lparr>rates = \<lparr>seconds_per_byte = Fin False 1, seconds_per_flop = Fin False 1\<rparr>,
     overhead_secs = Fin False 5, margin = Fin False 1, own_timeout_secs = 300,
     unknown_secs = Fin False 30\<rparr>"

definition demo_work :: "u64 \<Rightarrow> work" where
  "demo_work n = \<lparr>traffic_bytes = n, flops = 0\<rparr>"

lemma demo_policy_ok: "policy_ok demo_policy"
  by (simp add: policy_ok_def demo_policy_def finite_ok_def)

definition demo_ledger :: work_ledger where
  "demo_ledger = \<lparr>announced = [(''a'', \<lparr>deadline_secs = 330, expected_secs = Fin False 105\<rparr>, 7)],
     reserved = [(''a'', Fin False 105, 7 + RESERVATION_TTL)], held = []\<rparr>"

lemma demo_decide:
  "decide empty_ledger ''a'' (demo_work 100) 330 demo_policy 7 =
     (Inr \<lparr>deadline_secs = 330, expected_secs = Fin False 105\<rparr>, demo_ledger)"
  by (simp add: decide_def demo_policy_def demo_work_def empty_ledger_def demo_ledger_def
      rate_seconds_def queued_secs_def f64_sum_def hm_values_def hm_retain_def hm_insert_def
      hm_remove_def Let_def)

lemma demo_ledger_reachable: "(ledger_step demo_policy)\<^sup>*\<^sup>* empty_ledger demo_ledger"
  using ledger_step.decide [of demo_policy empty_ledger "''a''" "demo_work 100" 330 7]
  unfolding demo_decide by auto

theorem ledger_reachable_sound_witness:
  "f64_nonneg (queued_secs demo_ledger 8 (unknown_secs demo_policy)) \<and>
   hm_get (reserved demo_ledger) ''a'' = Some (Fin False 105, 7 + RESERVATION_TTL) \<and>
   (\<exists>b. budget_of demo_ledger ''a'' = Some b \<and> expected_secs b = Fin False 105)"
  using ledger_reachable_sound [OF demo_ledger_reachable demo_policy_ok, of 8]
  by (auto simp: demo_ledger_def hm_get_def)

text \<open>
  Property C10. \<open>decide\<close> admits a task exactly when the queue estimate plus the task's own estimate
  does not exceed the margin's share of the shorter of the node's timeout and the deadline; an
  admitted task has its budget on record and a reservation for its estimate that ends
  \<open>RESERVATION_TTL\<close> later, a rejected one leaves budgets and held tasks as they were.
\<close>

theorem decide_admission:
  assumes "ledger_wf l" and "policy_ok p" and "decide l t w d p now = (r, l')"
  shows "(\<forall>b. r = Inr b \<longrightarrow>
            f64_le (f64_add (queued_secs l now (unknown_secs p)) (own_estimate p w)) (decide_limit p d)
            \<and> b = \<lparr>deadline_secs = d, expected_secs = own_estimate p w\<rparr>
            \<and> budget_of l' t = Some b
            \<and> hm_get (reserved l') t = Some (own_estimate p w, now + RESERVATION_TTL)
            \<and> held l' = held l) \<and>
         (\<forall>total. r = Inl total \<longrightarrow>
            total = f64_add (queued_secs l now (unknown_secs p)) (own_estimate p w)
            \<and> f64_less (decide_limit p d) total
            \<and> announced l' = announced l \<and> held l' = held l)"
proof -
  let ?total = "f64_add (queued_secs l now (unknown_secs p)) (own_estimate p w)"
  have unk: "est_ok (unknown_secs p)" and mar: "finite_ok (margin p)"
    using assms(2) by (simp_all add: policy_ok_def finite_imp_est)
  have "est_ok ?total"
    using queued_secs_ok [OF assms(1) unk] own_estimate_ok [OF assms(2)] by (intro est_ok_add)
  then have "\<not> f64_is_nan ?total" using est_ok_def f64_nonneg_not_nan by blast
  moreover have "f64_nonneg (decide_limit p d)"
    using mar by (simp add: decide_limit_def finite_ok_def f64_nonneg_mul)
  then have "\<not> f64_is_nan (decide_limit p d)" by (rule f64_nonneg_not_nan)
  ultimately have "f64_le ?total (decide_limit p d) \<longleftrightarrow> \<not> f64_less (decide_limit p d) ?total"
    using f64_not_less by blast
  then show ?thesis
    using assms(3)
    by (auto simp: decide_unfold Let_def budget_of_def hm_simps drop_expired_def split: if_splits)
qed

theorem decide_admission_witness:
  "budget_of demo_ledger ''a'' = Some \<lparr>deadline_secs = 330, expected_secs = Fin False 105\<rparr> \<and>
   f64_le (f64_add (queued_secs empty_ledger 7 (unknown_secs demo_policy))
     (own_estimate demo_policy (demo_work 100))) (decide_limit demo_policy 330)"
  using decide_admission [OF empty_ledger_wf demo_policy_ok demo_decide] by simp

text \<open>
  Releasing a held sub-task never raises the queue estimate, rounding included, for
  whatever order the hash map is summed in.
\<close>

theorem release_lowers_queue:
  assumes "ledger_wf l" and "f64_nonneg u" and "f64_rep u"
  shows "f64_le (queued_secs (release l k) now u) (queued_secs l now u)"
  using queue_split_le assms by (simp add: est_ok_def)

theorem release_lowers_queue_witness:
  "f64_le (queued_secs (release (hold empty_ledger ''s'' None None) ''s'') 0 (Fin False 30))
     (queued_secs (hold empty_ledger ''s'' None None) 0 (Fin False 30))"
  by (rule release_lowers_queue) (simp_all add: hold_wf empty_ledger_wf budget_ok_def)

text \<open>
  A dispatch moves the estimate of an admitted task from the reservations to the held
  sub-tasks: it is counted once, with the value it was admitted with.
\<close>

theorem dispatch_counts_once:
  assumes "ledger_wf l" and "decide l t w d p now = (Inr b, l')"
  shows "let l2 = hold l' s (Some t) (budget_of l' t) in
     hm_get (reserved l2) t = None \<and>
     hm_get (held l2) s = Some \<lparr>held_expected = Some (own_estimate p w), held_started = None\<rparr> \<and>
     (\<forall>k. k \<noteq> s \<longrightarrow> hm_get (held l2) k = hm_get (held l) k)"
  using assms
  by (auto simp: decide_unfold Let_def hold_def budget_of_def hm_simps split: if_splits)

theorem dispatch_counts_once_witness:
  "hm_get (reserved (hold demo_ledger ''a_1'' (Some ''a'') (budget_of demo_ledger ''a''))) ''a'' = None"
  using dispatch_counts_once [OF empty_ledger_wf demo_decide, of "''a_1''"] by (simp add: Let_def)

text \<open>
  Property C30. The time the node may wait for core never exceeds its own timeout nor what is left
  of the orchestrator's deadline, it is positive when the node's timeout is, and the node gives
  up exactly when the deadline has passed.
\<close>

theorem compute_timeout_within_deadline:
  "(compute_timeout own (Some b) waited = None \<longleftrightarrow> from_secs (unat (deadline_secs b)) \<le> waited) \<and>
   (\<forall>t. compute_timeout own (Some b) waited = Some t \<longrightarrow>
      t \<le> from_secs (unat own) \<and> waited + t \<le> from_secs (unat (deadline_secs b)) \<and>
      (0 < unat own \<longrightarrow> 0 < t)) \<and>
   compute_timeout own None waited = Some (from_secs (unat own))"
  by (auto simp: compute_timeout_def Let_def from_secs_def)

theorem compute_timeout_within_deadline_witness:
  "compute_timeout 300 (Some \<lparr>deadline_secs = 120, expected_secs = Fin False 1\<rparr>) (from_secs 100)
     = Some (from_secs 20) \<and> from_secs 100 + from_secs 20 \<le> from_secs 120"
proof -
  have "compute_timeout 300 (Some \<lparr>deadline_secs = 120, expected_secs = Fin False 1\<rparr>) (from_secs 100)
     = Some (from_secs 20)"
    by (simp add: compute_timeout_def from_secs_def)
  moreover from this compute_timeout_within_deadline [of 300
      "\<lparr>deadline_secs = 120, expected_secs = Fin False 1\<rparr>" "from_secs 100"]
  have "from_secs 100 + from_secs 20 \<le> from_secs 120" by simp
  ultimately show ?thesis by blast
qed

end
