(* ===== verification/Memory_Budget.thy ===== *)
theory Memory_Budget
  imports F64
begin

text \<open>
  The memory envelope of \<open>src/src/memory_budget.rs\<close>: how much memory the node may use on its
  host and how many qubits that holds, as a dense state vector and as an MPS at bond 128.
  Sizes are \<open>u64\<close> at their width, with the saturating operations the code uses.
\<close>

section \<open>Definitions\<close>

definition DENSE_AMPLITUDE_BYTES :: u64 where "DENSE_AMPLITUDE_BYTES = 16"
definition MPS_BOND_DIM :: u64 where "MPS_BOND_DIM = 128"
definition MPS_SITE_FACTOR_BYTES :: u64 where "MPS_SITE_FACTOR_BYTES = 32"
definition GIB :: f64 where "GIB = f64_of_rat (1024 * 1024 * 1024)"
definition GIB_U64 :: u64 where "GIB_U64 = 1024 * 1024 * 1024"
definition HOST_MEMORY_RESERVE_THRESHOLD_GIB :: u64 where "HOST_MEMORY_RESERVE_THRESHOLD_GIB = 16"
definition HOST_MEMORY_RESERVE_SMALL_GIB :: u64 where "HOST_MEMORY_RESERVE_SMALL_GIB = 1"
definition HOST_MEMORY_RESERVE_LARGE_GIB :: u64 where "HOST_MEMORY_RESERVE_LARGE_GIB = 2"
definition VRAM_MEMORY_RESERVE_GIB :: u64 where "VRAM_MEMORY_RESERVE_GIB = 1"

lemmas budget_consts = DENSE_AMPLITUDE_BYTES_def MPS_BOND_DIM_def MPS_SITE_FACTOR_BYTES_def
  GIB_U64_def HOST_MEMORY_RESERVE_THRESHOLD_GIB_def HOST_MEMORY_RESERVE_SMALL_GIB_def
  HOST_MEMORY_RESERVE_LARGE_GIB_def VRAM_MEMORY_RESERVE_GIB_def

datatype memory_cap_source = Ram | Vram

fun cap_source_as_str :: "memory_cap_source \<Rightarrow> string" where
  "cap_source_as_str Ram = ''ram''"
| "cap_source_as_str Vram = ''vram''"

definition host_memory_reserve_gib :: "u64 \<Rightarrow> u64" where
  "host_memory_reserve_gib total_gib =
     (if HOST_MEMORY_RESERVE_THRESHOLD_GIB \<le> total_gib then HOST_MEMORY_RESERVE_LARGE_GIB
      else HOST_MEMORY_RESERVE_SMALL_GIB)"

definition max_wqc_memory_gib_from_total :: "u64 \<Rightarrow> u64" where
  "max_wqc_memory_gib_from_total total_gib =
     (if total_gib = 0 then 1
      else max (sat_sub total_gib (host_memory_reserve_gib total_gib)) 1)"

definition max_wqc_memory_bytes_from_total :: "u64 \<Rightarrow> u64" where
  "max_wqc_memory_bytes_from_total total_bytes =
     (let gib = total_bytes div GIB_U64 in
      sat_mul (max_wqc_memory_gib_from_total gib) GIB_U64)"

text \<open>The width is capped at \<open>u32::MAX\<close>, the largest value of the bid field.\<close>

definition max_qubits_from_mps_memory_budget :: "u64 \<Rightarrow> usize" where
  "max_qubits_from_mps_memory_budget budget_bytes =
     (let per_qubit = sat_mul (sat_mul MPS_BOND_DIM MPS_BOND_DIM) MPS_SITE_FACTOR_BYTES in
      if per_qubit = 0 \<or> budget_bytes < per_qubit then 0
      else min (budget_bytes div per_qubit) (ucast (- 1 :: u32)))"

function dense_loop :: "u64 \<Rightarrow> nat \<Rightarrow> nat" where
  "dense_loop budget_bytes n =
     (if n < 63 \<and> sat_mul DENSE_AMPLITUDE_BYTES (push_bit n 1) \<le> budget_bytes
      then dense_loop budget_bytes (Suc n) else n)"
  by pat_completeness auto
termination
  by (relation "measure (\<lambda>(b, n). 63 - n)") auto

declare dense_loop.simps [simp del]

definition max_qubits_from_dense_memory_budget :: "u64 \<Rightarrow> nat" where
  "max_qubits_from_dense_memory_budget budget_bytes =
     (if budget_bytes < DENSE_AMPLITUDE_BYTES then 0
      else dense_loop budget_bytes 0 - 1)"

definition effective_memory_bytes :: "f64 option \<Rightarrow> u64 \<Rightarrow> u64" where
  "effective_memory_bytes requested_gib total_physical_bytes =
     (let cap = max_wqc_memory_bytes_from_total total_physical_bytes in
      case requested_gib of
        None \<Rightarrow> cap
      | Some g \<Rightarrow> min (f64_as_u64 (f64_mul (f64_max g (f64_of_rat 0)) GIB)) cap)"

definition resolve_max_qubits_from_memory_gb :: "f64 option \<Rightarrow> u64 \<Rightarrow> nat \<times> usize \<times> f64" where
  "resolve_max_qubits_from_memory_gb requested_gib total_physical_bytes =
     (let bytes = effective_memory_bytes requested_gib total_physical_bytes;
          effective_gib = f64_div (u64_as_f64 bytes) GIB
      in (max_qubits_from_dense_memory_budget bytes,
          max_qubits_from_mps_memory_budget bytes, effective_gib))"

definition usable_budget :: "u64 \<Rightarrow> u64 option \<Rightarrow> u64 \<times> memory_cap_source" where
  "usable_budget ram_budget_bytes vram_budget_bytes =
     (case vram_budget_bytes of
        Some vram \<Rightarrow>
          if 0 < vram then
            (let vram_usable = max (sat_sub vram (sat_mul VRAM_MEMORY_RESERVE_GIB GIB_U64))
                                   DENSE_AMPLITUDE_BYTES
             in if vram_usable < ram_budget_bytes then (vram_usable, Vram)
                else (ram_budget_bytes, Ram))
          else (ram_budget_bytes, Ram)
      | None \<Rightarrow> (ram_budget_bytes, Ram))"

definition resolve_max_qubits_with_optional_vram ::
    "u64 \<Rightarrow> u64 option \<Rightarrow> nat \<times> usize \<times> f64 \<times> memory_cap_source" where
  "resolve_max_qubits_with_optional_vram ram_budget_bytes vram_budget_bytes =
     (let (bytes, source) = usable_budget ram_budget_bytes vram_budget_bytes;
          effective_gib = f64_div (u64_as_f64 bytes) GIB
      in (max_qubits_from_dense_memory_budget bytes,
          max_qubits_from_mps_memory_budget bytes, effective_gib, source))"

section \<open>The dense width\<close>

lemma dense_bytes:
  assumes "n < 63"
  shows "unat (sat_mul DENSE_AMPLITUDE_BYTES (push_bit n 1 :: u64)) = min (2 ^ 64 - 1) (16 * 2 ^ n)"
proof -
  have "push_bit n 1 = (word_of_nat (2 ^ n) :: u64)" by (simp add: push_bit_eq_mult)
  moreover have "(2 :: nat) ^ n < 2 ^ LENGTH(64)" using assms by (intro power_strict_increasing) auto
  ultimately have "unat (push_bit n 1 :: u64) = 2 ^ n" by (simp only: unat_of_nat mod_less)
  then show ?thesis by (simp add: unat_sat_mul DENSE_AMPLITUDE_BYTES_def)
qed

text \<open>The loop stops at the first width whose state vector does not fit.\<close>

lemma dense_loop_spec:
  "n \<le> 63 \<Longrightarrow> (\<forall>k < n. min (2 ^ 64 - 1) (16 * 2 ^ k) \<le> unat b) \<Longrightarrow>
   (let r = dense_loop b n in n \<le> r \<and> r \<le> 63 \<and>
      (\<forall>k < r. min (2 ^ 64 - 1) (16 * 2 ^ k) \<le> unat b) \<and>
      (r < 63 \<longrightarrow> unat b < min (2 ^ 64 - 1) (16 * 2 ^ r)))"
proof (induction b n rule: dense_loop.induct)
  case (1 b n)
  show ?case
  proof (cases "n < 63 \<and> sat_mul DENSE_AMPLITUDE_BYTES (push_bit n 1) \<le> b")
    case True
    then have "min (2 ^ 64 - 1) (16 * 2 ^ n) \<le> unat b"
      using dense_bytes [of n] by (simp add: word_le_nat_alt)
    then have "\<forall>k < Suc n. min (2 ^ 64 - 1) (16 * 2 ^ k) \<le> unat b"
      using "1.prems"(2) less_Suc_eq by metis
    with True "1.IH" "1.prems" show ?thesis
      by (auto simp: dense_loop.simps [of b n] Let_def)
  next
    case False
    then show ?thesis using "1.prems" dense_bytes [of n]
      by (auto simp: dense_loop.simps [of b n] Let_def word_le_nat_alt not_le)
  qed
qed


lemma dense_loop_first:
  "let r = dense_loop b 0 in r \<le> 63 \<and>
     (\<forall>k < r. min (2 ^ 64 - 1) (16 * 2 ^ k) \<le> unat b) \<and>
     (r < 63 \<longrightarrow> unat b < min (2 ^ 64 - 1) (16 * 2 ^ r))"
  using dense_loop_spec [of 0 b] by (simp add: Let_def)

lemma dense_width_spec:
  assumes "16 \<le> unat b" "unat b < 2 ^ 64 - 1"
  shows "let n = max_qubits_from_dense_memory_budget b in
    16 * 2 ^ n \<le> unat b \<and> unat b < 16 * 2 ^ (n + 1)"
proof -
  define r where "r = dense_loop b 0"
  have spec: "r \<le> 63" "\<forall>k < r. min (2 ^ 64 - 1) (16 * 2 ^ k) \<le> unat b"
      "r < 63 \<Longrightarrow> unat b < min (2 ^ 64 - 1) (16 * 2 ^ r)"
    using dense_loop_first [of b] by (simp_all add: r_def Let_def)
  have "r \<noteq> 0"
  proof
    assume "r = 0"
    with spec(3) have "unat b < 16" by simp
    with assms(1) show False by simp
  qed
  then obtain n where n: "r = Suc n" using not0_implies_Suc by blast
  have fit: "16 * 2 ^ n \<le> unat b" using spec(2) assms(2) n by (metis lessI min_def not_le)
  have "r < 63"
  proof (rule ccontr)
    assume "\<not> r < 63"
    with spec(1) n have "n = 62" by simp
    with fit have "16 * 2 ^ 62 \<le> unat b" by blast
    with assms(2) show False by simp
  qed
  with spec(3) have "unat b < 16 * 2 ^ r" by simp
  moreover have "\<not> b < DENSE_AMPLITUDE_BYTES"
    using assms(1) by (simp add: DENSE_AMPLITUDE_BYTES_def word_less_nat_alt)
  ultimately show ?thesis
    using fit n by (simp add: max_qubits_from_dense_memory_budget_def r_def Let_def)
qed

lemma pow_bracket_mono:
  fixes a b :: nat
  assumes "16 * 2 ^ m \<le> a" "a \<le> b" "b < 16 * 2 ^ (n + 1)"
  shows "m \<le> n"
proof (rule ccontr)
  assume "\<not> m \<le> n"
  then have "(2 :: nat) ^ (n + 1) \<le> 2 ^ m" by (intro power_increasing) auto
  with assms show False by linarith
qed

section \<open>Properties\<close>

text \<open>
  Property C31. The dense width offered for a budget is exactly the largest \<open>n\<close> whose state vector
  of \<open>16 * 2^n\<close> bytes fits (for every budget below \<open>u64::MAX\<close>) and it grows with the budget.
  At \<open>u64::MAX\<close> the saturated product passes the test at every width, and the width offered is 62,
  whose state vector does not fit.
\<close>

theorem dense_width_exact:
  assumes "unat b < 2 ^ 64 - 1"
  shows "(unat b < 16 \<longrightarrow> max_qubits_from_dense_memory_budget b = 0) \<and>
    (16 \<le> unat b \<longrightarrow> 16 * 2 ^ max_qubits_from_dense_memory_budget b \<le> unat b \<and>
       unat b < 16 * 2 ^ (max_qubits_from_dense_memory_budget b + 1)) \<and>
    (\<forall>a. unat a \<le> unat b \<longrightarrow>
       max_qubits_from_dense_memory_budget a \<le> max_qubits_from_dense_memory_budget b) \<and>
    max_qubits_from_dense_memory_budget (- 1) = 62"
proof -
  have small: "max_qubits_from_dense_memory_budget x = 0" if "unat x < 16" for x
    using that by (simp add: max_qubits_from_dense_memory_budget_def DENSE_AMPLITUDE_BYTES_def
        word_less_nat_alt)
  moreover have "max_qubits_from_dense_memory_budget a \<le> max_qubits_from_dense_memory_budget b"
    if "unat a \<le> unat b" for a
  proof (cases "unat a < 16")
    case False
    with that assms have "16 \<le> unat a" "unat a < 2 ^ 64 - 1" "16 \<le> unat b" by linarith+
    then show ?thesis
      using dense_width_spec [of a] dense_width_spec [OF _ assms] that
      unfolding Let_def by (metis pow_bracket_mono)
  qed (simp add: small)
  moreover have "\<not> unat (- 1 :: u64) < min (2 ^ 64 - 1) x" for x
    unfolding unat_minus_one_word by (simp add: min_def)
  then have "dense_loop (- 1) 0 = 63"
    using dense_loop_first [of "- 1"] unfolding Let_def by (meson le_neq_implies_less)
  then have "max_qubits_from_dense_memory_budget (- 1) = 62"
    by (simp add: max_qubits_from_dense_memory_budget_def DENSE_AMPLITUDE_BYTES_def word_less_nat_alt)
  ultimately show ?thesis using dense_width_spec [OF _ assms] by (auto simp: Let_def)
qed

theorem dense_width_exact_witness:
  "max_qubits_from_dense_memory_budget GIB_U64 = 26"
proof -
  let ?n = "max_qubits_from_dense_memory_budget GIB_U64"
  have u: "unat GIB_U64 = 1073741824" by (simp add: GIB_U64_def)
  then have "unat GIB_U64 < 2 ^ 64 - 1" "16 \<le> unat GIB_U64" by simp_all
  then have "16 * 2 ^ ?n \<le> (1073741824 :: nat)" "(1073741824 :: nat) < 16 * 2 ^ (?n + 1)"
    using dense_width_exact [of GIB_U64] unfolding u by blast+
  moreover have "(1073741824 :: nat) = 16 * 2 ^ 26" by simp
  moreover have "(1073741824 :: nat) < 16 * 2 ^ (26 + 1)" by simp
  ultimately have "26 \<le> ?n" "?n \<le> 26" by (metis le_refl pow_bracket_mono)+
  then show ?thesis by (rule le_antisym [rotated])
qed

lemma div_mult_cases:
  "unat (t div GIB_U64) = unat t div 1073741824"
  by (simp add: unat_div GIB_U64_def)

lemma cap_bytes:
  assumes "2 * 1073741824 \<le> unat t"
  shows "unat (max_wqc_memory_bytes_from_total t) + unat (host_memory_reserve_gib (t div GIB_U64)) * 1073741824
    = unat t div 1073741824 * 1073741824"
proof -
  define g where "g = t div GIB_U64"
  have g: "unat g = unat t div 1073741824" by (simp add: g_def div_mult_cases)
  have g2: "2 \<le> unat g" using assms g by (simp add: Suc_leI less_eq_div_iff_mult_less_eq)
  have res: "unat (host_memory_reserve_gib g) = (if 16 \<le> unat g then 2 else 1)"
    by (simp add: host_memory_reserve_gib_def budget_consts word_le_nat_alt)
  have "g \<noteq> 0" using g2 by auto
  moreover have "unat (max (sat_sub g (host_memory_reserve_gib g)) 1)
      = unat g - unat (host_memory_reserve_gib g)"
    using g2 res by (auto simp: max_def word_le_nat_alt unat_sat_sub)
  ultimately have cap: "unat (max_wqc_memory_gib_from_total g) = unat g - unat (host_memory_reserve_gib g)"
    by (simp add: max_wqc_memory_gib_from_total_def)
  have "unat g * 1073741824 \<le> unat t" using g by simp
  also have "unat t < 2 ^ 64" using unsigned_less [of t] by simp
  finally have "(unat g - unat (host_memory_reserve_gib g)) * 1073741824 < 2 ^ 64"
    by (simp add: diff_mult_distrib)
  then have "unat (max_wqc_memory_bytes_from_total t)
      = (unat g - unat (host_memory_reserve_gib g)) * 1073741824"
    by (simp add: max_wqc_memory_bytes_from_total_def Let_def unat_sat_mul cap GIB_U64_def [symmetric] flip: g_def)
      (simp add: GIB_U64_def)
  then show ?thesis using g g2 res by (simp flip: g_def add: diff_mult_distrib)
qed

text \<open>
  On a host with at least two GiB the memory the node may use, whatever the operator
  requests (NaN and infinities included), leaves the host's reserve of one or two GiB free, and a
  request never raises the budget above the unset default.
\<close>

theorem memory_budget_leaves_reserve:
  assumes "2 * 1073741824 \<le> unat phys"
  shows "unat (effective_memory_bytes req phys)
      + unat (host_memory_reserve_gib (phys div GIB_U64)) * 1073741824 \<le> unat phys \<and>
    effective_memory_bytes req phys \<le> effective_memory_bytes None phys"
proof -
  have "unat (max_wqc_memory_bytes_from_total phys)
      + unat (host_memory_reserve_gib (phys div GIB_U64)) * 1073741824 \<le> unat phys"
    using cap_bytes [OF assms] by simp
  moreover have "effective_memory_bytes req phys \<le> max_wqc_memory_bytes_from_total phys"
    by (auto simp: effective_memory_bytes_def Let_def split: option.splits)
  ultimately show ?thesis
    by (auto simp: effective_memory_bytes_def Let_def word_le_nat_alt)
qed

theorem memory_budget_leaves_reserve_witness:
  "unat (effective_memory_bytes (Some (Inf False)) (16 * GIB_U64)) + 2 * 1073741824 \<le> 16 * 1073741824"
  using memory_budget_leaves_reserve [of "16 * GIB_U64" "Some (Inf False)"]
  by (simp add: budget_consts host_memory_reserve_gib_def)

text \<open>
  Intersecting with the adapter's memory never widens the offer: both widths are those
  of the smaller of the RAM budget and the VRAM budget less its reserve, and the source is reported
  as VRAM exactly when VRAM is the strictly smaller of the two.
\<close>

theorem vram_intersection:
  "let (dense, mps, gib, source) = resolve_max_qubits_with_optional_vram ram (Some vram);
       usable = max (sat_sub vram GIB_U64) 16;
       bytes = (if vram = 0 then ram else min usable ram)
   in dense = max_qubits_from_dense_memory_budget bytes \<and>
      mps = max_qubits_from_mps_memory_budget bytes \<and>
      unat mps * 524288 \<le> unat bytes \<and> unat mps < 2 ^ 32 \<and>
      gib = f64_div (u64_as_f64 bytes) GIB \<and>
      (source = Vram \<longleftrightarrow> vram \<noteq> 0 \<and> usable < ram)"
proof -
  define bytes where "bytes = (if vram = 0 then ram else min (max (sat_sub vram GIB_U64) 16) ram)"
  have reserve: "sat_mul VRAM_MEMORY_RESERVE_GIB GIB_U64 = GIB_U64"
    by (simp add: sat_mul_def budget_consts)
  have ub: "usable_budget ram (Some vram) =
      (bytes, if vram \<noteq> 0 \<and> max (sat_sub vram GIB_U64) 16 < ram then Vram else Ram)"
    unfolding bytes_def
    by (auto simp: usable_budget_def Let_def reserve DENSE_AMPLITUDE_BYTES_def word_gt_0
        min_def not_less)
  have per: "sat_mul (sat_mul MPS_BOND_DIM MPS_BOND_DIM) MPS_SITE_FACTOR_BYTES = 524288"
    by (simp add: sat_mul_def budget_consts)
  have "unat (ucast (- 1 :: u32) :: u64) = 2 ^ 32 - 1"
    by (simp add: unsigned_ucast_eq take_bit_nat_eq_self)
  then have mn: "unat (min (bytes div 524288) (ucast (- 1 :: u32))) = min (unat bytes div 524288) 4294967295"
    by (simp add: min_def word_le_nat_alt unat_div)
  have "unat (max_qubits_from_mps_memory_budget bytes) * 524288 \<le> unat bytes \<and>
      unat (max_qubits_from_mps_memory_budget bytes) < 2 ^ 32"
    using div_times_less_eq_dividend [of "unat bytes" 524288]
    by (simp add: max_qubits_from_mps_memory_budget_def per Let_def mn) linarith
  then show ?thesis
    by (auto simp: resolve_max_qubits_with_optional_vram_def ub Let_def simp flip: bytes_def)
qed

end
