(* ===== verification/Token.thy ===== *)
theory Token
  imports Prelude
begin

text \<open>
  Token amounts of \<open>src/src/domain/token.rs\<close>: \<open>parse_wqc_to_planck\<close> reads a decimal WQC amount
  into an integer number of Planck, \<open>10^18\<close> to the WQC. \<open>BigInt\<close>'s \<open>FromStr\<close> comes from the
  package \<open>num_bigint\<close>: it is the argument \<open>parse\<close> of the definitions.
\<close>

section \<open>Definitions\<close>

datatype token_error =
    Empty_amount
  | Invalid_amount string
  | Invalid_whole string
  | Too_many_digits string nat
  | Invalid_fraction string

definition PLANCK_PER_WQC :: int where
  "PLANCK_PER_WQC = 1000000000000000000"

definition parse_fixed_point_wqc ::
    "(string \<Rightarrow> int option) \<Rightarrow> string \<Rightarrow> nat \<Rightarrow> int \<Rightarrow> token_error + int" where
  "parse_fixed_point_wqc parse raw max_frac_digits scale =
     (if raw = [] then Inl Empty_amount
      else let parts = split_char (CHR ''.'') raw in
        if 2 < length parts then Inl (Invalid_amount raw)
        else let whole_str = (if hd parts = [] then ''0'' else hd parts) in
          case parse whole_str of
            None \<Rightarrow> Inl (Invalid_whole raw)
          | Some whole \<Rightarrow>
              if whole < 0 then Inl (Invalid_whole raw)
              else and_then
                (if length parts = 2 then
                   let frac_part = parts ! 1 in
                   if max_frac_digits < length frac_part
                   then Inl (Too_many_digits raw max_frac_digits)
                   else if \<not> list_all is_ascii_digit frac_part then Inl (Invalid_amount raw)
                   else Inr (frac_part @ replicate (max_frac_digits - length frac_part) (CHR ''0''))
                 else Inr (replicate max_frac_digits (CHR ''0'')))
                (\<lambda>frac_str. case parse frac_str of
                     None \<Rightarrow> Inl (Invalid_fraction raw)
                   | Some frac_part \<Rightarrow> Inr (whole * scale + frac_part)))"

definition parse_wqc_to_planck :: "(string \<Rightarrow> int option) \<Rightarrow> string \<Rightarrow> token_error + int" where
  "parse_wqc_to_planck parse raw = parse_fixed_point_wqc parse (trim raw) 18 PLANCK_PER_WQC"

section \<open>What the parser of whole numbers does\<close>

text \<open>
  Documented of \<open>BigInt\<close>'s \<open>FromStr\<close>: a string of decimal digits is read as its value, and a
  minus sign before one negates it.
\<close>

definition decimal_parser :: "(string \<Rightarrow> int option) \<Rightarrow> bool" where
  "decimal_parser parse \<longleftrightarrow>
     (\<forall>s. s \<noteq> [] \<and> list_all is_ascii_digit s \<longrightarrow>
        parse s = Some (int (dec_val s)) \<and> parse (CHR ''-'' # s) = Some (- int (dec_val s)))"

lemma decimal_parserD:
  "decimal_parser parse \<Longrightarrow> s \<noteq> [] \<Longrightarrow> list_all is_ascii_digit s \<Longrightarrow> parse s = Some (int (dec_val s))"
  "decimal_parser parse \<Longrightarrow> s \<noteq> [] \<Longrightarrow> list_all is_ascii_digit s \<Longrightarrow>
     parse (CHR ''-'' # s) = Some (- int (dec_val s))"
  by (auto simp: decimal_parser_def)

lemma digits_zeros: "list_all is_ascii_digit (replicate n (CHR ''0''))"
  by (simp add: list_all_iff is_ascii_digit_def)

lemma digit_not_dot: "list_all is_ascii_digit s \<Longrightarrow> CHR ''.'' \<notin> set s"
  by (auto simp: list_all_iff is_ascii_digit_def dest!: bspec)

lemma dec_val_padded:
  "length f \<le> m \<Longrightarrow> dec_val (f @ replicate (m - length f) (CHR ''0'')) = dec_val f * 10 ^ (m - length f)"
  by (simp add: dec_val_append)

lemma dec_val_0 [simp]: "dec_val ''0'' = 0"
  by (simp add: dec_val_def digit_val_def)

text \<open>The value read from a whole part without further dots and a digit fraction.\<close>

lemma parse_parts:
  assumes "decimal_parser parse" "CHR ''.'' \<notin> set w" "list_all is_ascii_digit f" "length f \<le> m" "0 < m"
    and "parse (if w = [] then ''0'' else w) = Some v" "0 \<le> v"
  shows "parse_fixed_point_wqc parse (w @ ''.'' @ f) m scale
    = Inr (v * scale + int (dec_val f * 10 ^ (m - length f)))"
proof -
  have "split_char (CHR ''.'') (w @ ''.'' @ f) = [w, f]"
    using assms(2) digit_not_dot [OF assms(3)] by (simp add: split_char_append split_char_no_sep)
  moreover have "parse (f @ replicate (m - length f) (CHR ''0''))
      = Some (int (dec_val f * 10 ^ (m - length f)))"
    using decimal_parserD(1) [OF assms(1), of "f @ replicate (m - length f) (CHR ''0'')"] assms
    by (simp add: digits_zeros dec_val_padded)
  ultimately show ?thesis
    using assms by (cases "w = []") (simp_all add: parse_fixed_point_wqc_def Let_def)
qed

lemma split_char_one: "split_char d s = [w] \<Longrightarrow> s = w \<and> d \<notin> set w"
  by (induction s arbitrary: w) (auto split: if_splits list.splits)

lemma split_char_two: "split_char d s = [w, f] \<Longrightarrow> s = w @ d # f \<and> d \<notin> set w \<and> d \<notin> set f"
proof (induction s arbitrary: w)
  case (Cons c s)
  then show ?case
    by (auto split: if_splits list.splits dest: split_char_one)
qed simp

lemma list_upto2:
  obtains "xs = []" | w where "xs = [w]" | w f where "xs = [w, f]" | "2 < length xs"
  by (cases xs; cases "tl xs"; cases "tl (tl xs)") auto

lemma show_nat_length: "n < 10 ^ k \<Longrightarrow> 0 < k \<Longrightarrow> length (show_nat n) \<le> k"
proof (induction n arbitrary: k rule: show_nat.induct)
  case (1 n)
  show ?case
  proof (cases "n < 10")
    case False
    then obtain m where k: "k = Suc m" "0 < m" using 1 by (cases k; cases "k - 1") auto
    then have "n div 10 < 10 ^ m" using 1 by (simp add: div_less_iff_less_mult mult.commute)
    then show ?thesis using 1 False k by (simp add: show_nat.simps [of n])
  qed (use 1 in \<open>simp add: show_nat.simps [of n]\<close>)
qed

lemma trim_digit_ends:
  assumes "s \<noteq> []" "is_ascii_digit (hd s)" "is_ascii_digit (last s)"
  shows "trim s = s"
proof -
  have miss: "strip_any ws t = None"
    if "t \<noteq> []" "is_ascii_digit (hd t)" "list_all (\<lambda>w. w \<noteq> [] \<and> \<not> is_ascii_digit (hd w)) ws" for ws t
    using that(3)
  proof (induction ws)
    case (Cons w ws)
    then have "strip_prefix w t = None"
      using that by (cases w; cases t) auto
    with Cons show ?case by simp
  qed simp
  have "list_all (\<lambda>w. w \<noteq> [] \<and> \<not> is_ascii_digit (hd w)) white_space"
    "list_all (\<lambda>w. w \<noteq> [] \<and> \<not> is_ascii_digit (hd w)) (map rev white_space)"
    by code_simp+
  with assms show ?thesis by (intro trim_id miss) (auto simp: hd_rev)
qed

lemma token_value_exact_lemma:
  assumes "decimal_parser parse" and "list_all is_ascii_digit w" and "list_all is_ascii_digit f"
    and "trim raw = w @ ''.'' @ f" and "length f \<le> 18"
  shows "parse_wqc_to_planck parse raw = Inr (int (dec_val w * 10 ^ 18 + dec_val f * 10 ^ (18 - length f)))"
proof -
  have "parse (if w = [] then ''0'' else w) = Some (int (dec_val w))"
    using decimal_parserD(1) [OF assms(1), of w] decimal_parserD(1) [OF assms(1), of "''0''"] assms(2)
    by (cases "w = []") (simp_all add: is_ascii_digit_def)
  then show ?thesis
    using parse_parts [of parse w f 18] assms digit_not_dot [OF assms(2)]
    by (simp add: parse_wqc_to_planck_def PLANCK_PER_WQC_def)
qed

lemma minus_half:
  assumes "decimal_parser parse"
  shows "parse_fixed_point_wqc parse ''-0.5'' 18 PLANCK_PER_WQC = Inr 500000000000000000"
proof -
  have "parse ''-0'' = Some 0"
    using decimal_parserD(2) [OF assms, of "''0''"] by (simp add: is_ascii_digit_def)
  moreover have "list_all is_ascii_digit ''5''" "dec_val ''5'' = 5" by code_simp+
  ultimately show ?thesis
    using parse_parts [OF assms, of "''-0''" "''5''" 18 0 PLANCK_PER_WQC] by simp
qed

section \<open>Properties\<close>

text \<open>
  Property C33. An amount made of digits, with at most 18 after the dot, is read as exactly
  \<open>whole * 10^18 + fraction * 10^(18 - digits)\<close>: no rounding, and surrounding white space and a
  missing whole part do not matter.
\<close>

theorem token_value_exact:
  assumes "decimal_parser parse" and "list_all is_ascii_digit w" and "list_all is_ascii_digit f"
    and "trim raw = w @ ''.'' @ f" and "length f \<le> 18"
  shows "parse_wqc_to_planck parse raw = Inr (int (dec_val w * 10 ^ 18 + dec_val f * 10 ^ (18 - length f)))"
  using token_value_exact_lemma assms by blast

text \<open>A parser of the documented kind.\<close>

definition read_decimal :: "string \<Rightarrow> int option" where
  "read_decimal s = (case s of
       [] \<Rightarrow> None
     | c # t \<Rightarrow> if c = CHR ''-'' then (if t \<noteq> [] \<and> list_all is_ascii_digit t then Some (- int (dec_val t)) else None)
               else if list_all is_ascii_digit s then Some (int (dec_val s)) else None)"

lemma read_decimal_ok: "decimal_parser read_decimal"
  by (auto simp: decimal_parser_def read_decimal_def is_ascii_digit_def split: list.splits)

theorem token_value_exact_witness:
  "parse_wqc_to_planck read_decimal '' 0.05 '' = Inr 50000000000000000"
proof -
  have "trim '' 0.05 '' = ''0'' @ ''.'' @ ''05''" by code_simp
  moreover have "list_all is_ascii_digit ''0''" "list_all is_ascii_digit ''05''" by code_simp+
  moreover have "dec_val ''05'' = 5" by code_simp
  ultimately show ?thesis
    using token_value_exact [OF read_decimal_ok, of "''0''" "''05''" "'' 0.05 ''"] by simp
qed

text \<open>
  What is accepted is unambiguous: an accepted amount has at most one dot, at most 18
  fraction digits, all of them decimal, and its value is the whole part's times \<open>10^18\<close> plus a
  fraction below one WQC, so it is never negative. (A whole part \<open>-0\<close> passes the sign test, so
  that \<open>-0.5\<close> is read as half a WQC.)
\<close>

theorem token_accepted_shape:
  assumes "decimal_parser parse" and "parse_wqc_to_planck parse raw = Inr v"
  shows "(\<exists>w f n. (trim raw = w \<and> f = [] \<or> trim raw = w @ ''.'' @ f) \<and> CHR ''.'' \<notin> set w \<and>
      list_all is_ascii_digit f \<and> length f \<le> 18 \<and>
      parse (if w = [] then ''0'' else w) = Some n \<and> 0 \<le> n \<and>
      v = n * 10 ^ 18 + int (dec_val f * 10 ^ (18 - length f)) \<and>
      dec_val f * 10 ^ (18 - length f) < 10 ^ 18) \<and> 0 \<le> v \<and>
    (trim raw = ''-0.5'' \<longrightarrow> v = 500000000000000000)"
proof -
  let ?r = "trim raw"
  have ok: "parse_fixed_point_wqc parse ?r 18 PLANCK_PER_WQC = Inr v"
    using assms(2) by (simp add: parse_wqc_to_planck_def)
  obtain w f where wf: "?r = w \<and> f = [] \<or> ?r = w @ ''.'' @ f" "CHR ''.'' \<notin> set w"
      "split_char (CHR ''.'') ?r = (if ?r = w then [w] else [w, f])" "list_all is_ascii_digit f" "length f \<le> 18"
    using ok split_char_one [of "CHR ''.''" ?r] split_char_two [of "CHR ''.''" ?r]
    by (cases "split_char (CHR ''.'') ?r" rule: list_upto2)
      (fastforce simp: parse_fixed_point_wqc_def Let_def and_then_eq_Inr
         split: option.splits if_splits)+
  obtain n where n: "parse (if w = [] then ''0'' else w) = Some n" "0 \<le> n"
    using ok wf by (auto simp: parse_fixed_point_wqc_def Let_def split: option.splits if_splits)
  have v: "v = n * 10 ^ 18 + int (dec_val f * 10 ^ (18 - length f))"
  proof (cases "?r = w")
    case True
    have "parse (replicate 18 (CHR ''0'')) = Some 0"
      using decimal_parserD(1) [OF assms(1), of "replicate 18 (CHR ''0'')"]
      by (simp only: digits_zeros dec_val_zeros) simp
    with True wf n ok show ?thesis
      by (auto simp: parse_fixed_point_wqc_def PLANCK_PER_WQC_def split: if_splits)
  next
    case False
    with wf(1) have r: "?r = w @ ''.'' @ f" by blast
    show ?thesis
      using parse_parts [OF assms(1) wf(2,4,5) _ n, of PLANCK_PER_WQC] ok
      unfolding r by (simp add: PLANCK_PER_WQC_def)
  qed
  have "dec_val f * 10 ^ (18 - length f) < 10 ^ length f * 10 ^ (18 - length f)"
    using dec_val_bound [OF wf(4)] by simp
  also have "\<dots> = 10 ^ 18" using wf(5) by (simp flip: power_add)
  finally have bound: "dec_val f * 10 ^ (18 - length f) < 10 ^ 18" .
  have half: "v = 500000000000000000" if "?r = ''-0.5''"
    using ok minus_half [OF assms(1)] that by simp
  have "0 \<le> v" unfolding v using n(2) by (intro add_nonneg_nonneg mult_nonneg_nonneg) simp_all
  then show ?thesis using wf n v bound half by blast
qed

theorem token_accepted_shape_witness:
  "parse_wqc_to_planck read_decimal ''-0.5'' = Inr 500000000000000000 \<and> (0 :: int) \<le> 500000000000000000"
proof -
  have t: "trim ''-0.5'' = ''-0.5''" by code_simp
  have v: "parse_wqc_to_planck read_decimal ''-0.5'' = Inr 500000000000000000"
    using minus_half [OF read_decimal_ok] by (simp add: parse_wqc_to_planck_def t)
  show ?thesis using token_accepted_shape [OF read_decimal_ok v] v by blast
qed

definition show_wqc :: "nat \<Rightarrow> string" where
  "show_wqc n = show_nat (n div 10 ^ 18) @ ''.'' @
     (let f = show_nat (n mod 10 ^ 18) in replicate (18 - length f) (CHR ''0'') @ f)"



end
