(* ===== verification/Models.thy ===== *)
theory Models
  imports Work
begin

text \<open>
  The data of \<open>src/src/domain/models.rs\<close>: the messages between orchestrator, node and core. A
  Rust \<open>struct\<close> is a record whose fields carry a prefix of the struct's name, because Isabelle's
  field names are global. \<open>BTreeMap\<close> is an association list in ascending key order.

  \<open>serde_json::Value\<close> is \<open>json\<close>; a number is kept as serde\_json keeps it, as a \<open>u64\<close>, a negative
  \<open>i64\<close> or a double. An object is an association list in ascending key order, as the default map of
  \<open>serde_json\<close> is.
\<close>

datatype jnum = PosInt u64 | NegInt i64 | Float f64

datatype json =
    JNull
  | JBool bool
  | JNum jnum
  | JStr string
  | JArr "json list"
  | JObj "(string \<times> json) list"

type_synonym 'v btree_map = "(string \<times> 'v) list"

record gate =
  gate_type :: string
  gate_params :: json

record slice_assignment =
  edge_id :: string
  sa_value :: u8

record noise_model =
  depolarizing_p :: "f64 option"
  readout_error :: "f64 option"

record tensor_ref_wire =
  tr_ket0 :: "u32 option"
  tr_gate :: "u32 option"
  tr_node :: "u32 option"
  tr_bra0 :: "u32 option"
  tr_control :: "u32 option"
  tr_target :: "u32 option"

record contract_node_wire =
  cn_op :: string
  cn_left :: tensor_ref_wire
  cn_right :: tensor_ref_wire

record contraction_tree_wire =
  ct_kind :: "string option"
  ct_nodes :: "contract_node_wire list"
  ct_peak_bytes :: u64

record complex_coeff =
  co_real :: f64
  co_imag :: f64

record pauli_term =
  pt_label :: string
  pt_coeff :: complex_coeff

record observable_spec =
  ob_id :: string
  ob_terms :: "pauli_term list"

record compute_request =
  cr_task_id :: string
  cr_parent_task_id :: "string option"
  cr_circuit_id :: string
  cr_node_id :: "string option"
  cr_qubit_count :: usize
  cr_original_qubit_count :: usize
  cr_slice_id :: string
  cr_slice_assignments :: "slice_assignment list"
  cr_circuit :: "gate list"
  cr_required_votes :: "u32 option"
  cr_mps_max_bond_dim :: "usize option"
  cr_mps_site_order :: "usize list option"
  cr_mps_time_split :: "usize option"
  cr_contraction_tree :: "contraction_tree_wire option"
  cr_output_mode :: string
  cr_classical_bit_count :: "u32 option"
  cr_shots :: "u64 option"
  cr_sample_seed :: "u64 option"
  cr_observables :: "observable_spec list"
  cr_noise_model :: "noise_model option"
  cr_security_level :: string

record compute_task =
  ctk_request :: compute_request
  ctk_orchestrator_pubkey :: string
  ctk_budget :: "budget option"
  ctk_accepted_at_ms :: u64

record complex_result =
  cx_real :: f64
  cx_imag :: f64

record sample_result =
  sr_counts :: "u64 btree_map"
  sr_shots :: u64

record expectation_result =
  er_values :: "complex_result btree_map"

record public_inputs =
  pi_circuit_id :: string
  pi_sub_task_id :: string
  pi_node_id :: string
  pi_slice_id :: string
  pi_output_result_hash :: string
  pi_measurement_spec_hash :: string
  pi_security_level :: string

record proof_wire =
  pf_public_inputs :: public_inputs
  pf_stark_proof_b64 :: string

record work_report =
  wr_trace_rows :: u64
  wr_gate_count :: u32
  wr_compute_wall_ms :: u64
  wr_prove_wall_ms :: u64
  wr_proof_bytes :: u64
  wr_tn_backend :: string
  wr_vram_peak_bytes :: u64
  wr_proof_scope :: string

record compute_response =
  rsp_task_id :: string
  rsp_status :: string
  rsp_result_type :: string
  rsp_complex_result :: complex_result
  rsp_sample_result :: "sample_result option"
  rsp_expectation_result :: "expectation_result option"
  rsp_proof :: proof_wire
  rsp_work_report :: "work_report option"

record task_result_payload =
  tp_task_id :: string
  tp_status :: string
  tp_result_type :: string
  tp_complex_result :: "complex_result option"
  tp_sample_result :: "sample_result option"
  tp_expectation_result :: "expectation_result option"
  tp_proof :: "proof_wire option"
  tp_error :: "string option"
  tp_execution_time_ms :: "u64 option"
  tp_work_report :: "work_report option"

text \<open>
  The part of \<open>NodeStatus\<close> and \<open>CoreSystemInfo\<close> that is a single-precision float is passed on and
  never computed with; it is kept as its bit pattern.
\<close>

type_synonym f32 = "32 word"

record node_status =
  ns_pending_tasks :: usize
  ns_outbox_pending :: usize
  ns_max_qubits :: usize
  ns_max_mps_qubits :: usize
  ns_max_memory_gib :: f64
  ns_memory_cap_source :: string
  ns_vram_budget_gib :: "f64 option"
  ns_system_memory_used_kb :: u64
  ns_system_memory_total_kb :: u64
  ns_cpu_usage_percent :: f32
  ns_supported_gates :: "string list"

record core_system_info =
  si_system_memory_used_kb :: u64
  si_system_memory_total_kb :: u64
  si_cpu_usage_percent :: f32
  si_tn_backend_requested :: string
  si_tn_backend_active :: string
  si_tn_backend_note :: "string option"
  si_mps_max_bond_dim :: usize
  si_pcs_memory_policy :: string
  si_vram_budget_bytes :: "u64 option"
  si_tn_seconds_per_byte :: "f64 option"
  si_tn_seconds_per_flop :: "f64 option"

text \<open>\<open>serde_json::Number::as_f64\<close>.\<close>

fun as_f64 :: "jnum \<Rightarrow> f64 option" where
  "as_f64 (PosInt n) = Some (u64_as_f64 n)"
| "as_f64 (NegInt i) = Some (f64_of_rat (of_int (sint i)))"
| "as_f64 (Float f) = Some f"

text \<open>\<open>Value::as_u64\<close>, \<open>as_array\<close> and \<open>as_str\<close>, as the readers of gate parameters use them.\<close>

fun as_u64 :: "json \<Rightarrow> u64 option" where
  "as_u64 (JNum (PosInt n)) = Some n"
| "as_u64 _ = None"

fun as_str :: "json \<Rightarrow> string option" where
  "as_str (JStr s) = Some s"
| "as_str _ = None"

fun as_array :: "json \<Rightarrow> json list option" where
  "as_array (JArr xs) = Some xs"
| "as_array _ = None"

end
