(* ===== verification/Validation.thy ===== *)
theory Validation
  imports Models
begin

text \<open>
  Circuit validation of \<open>src/src/domain/validation.rs\<close>: the node rejects a dispatched circuit that
  uses a gate core does not support or a qubit outside the compact register.

  Decoding a nested gate (\<open>serde_json::from_value\<close>) is code of the package \<open>serde\<close>: it is the
  argument \<open>from_value\<close>. \<open>validate_gate\<close> calls itself on the decoded gate, so it is a partial
  function: its value is \<open>None\<close> when the calls never return.
\<close>

section \<open>Definitions\<close>

fun obj_get :: "(string \<times> json) list \<Rightarrow> string \<Rightarrow> json option" where
  "obj_get m k = map_of m k"

text \<open>Replacing the value of a key that is present, through \<open>get_mut\<close>.\<close>

definition obj_set :: "string \<Rightarrow> json \<Rightarrow> (string \<times> json) list \<Rightarrow> (string \<times> json) list" where
  "obj_set k v m = map (\<lambda>(k', v'). (k', if k' = k then v else v')) m"

lemma obj_get_size: "obj_get m k = Some v \<Longrightarrow> size v < size (JObj m)"
proof -
  assume "obj_get m k = Some v"
  then have "(k, v) \<in> set m" by (simp add: map_of_SomeD)
  then show ?thesis
    using size_list_estimation' [of "(k, v)" m "size v" "size_prod (\<lambda>_. 0) size"]
    by (simp add: less_Suc_eq_le)
qed

function normalize_gate_value :: "json \<Rightarrow> json" where
  "normalize_gate_value params =
     (case params of
        JArr [x] \<Rightarrow> x
      | JObj obj \<Rightarrow>
          (case obj_get obj ''gate'' of
             Some (JObj nested) \<Rightarrow>
               (case obj_get nested ''params'' of
                  Some nested_params \<Rightarrow>
                    JObj (obj_set ''gate''
                      (JObj (obj_set ''params'' (normalize_gate_value nested_params) nested)) obj)
                | None \<Rightarrow> params)
           | _ \<Rightarrow> params)
      | _ \<Rightarrow> params)"
  by pat_completeness auto
termination
  by (relation "measure size") (auto dest!: obj_get_size simp del: obj_get.simps)

declare normalize_gate_value.simps [simp del]

definition normalize_gate :: "gate \<Rightarrow> gate" where
  "normalize_gate g = g\<lparr>gate_params := normalize_gate_value (gate_params g)\<rparr>"

definition normalize_gate_params :: "gate list \<Rightarrow> gate list" where
  "normalize_gate_params circuit = map normalize_gate circuit"

text \<open>\<open>Value::as_i64\<close>.\<close>

fun as_i64 :: "json \<Rightarrow> int option" where
  "as_i64 (JNum (PosInt n)) = (if unat n < 2 ^ 63 then Some (int (unat n)) else None)"
| "as_i64 (JNum (NegInt i)) = Some (sint i)"
| "as_i64 _ = None"

definition qubit_index :: "json \<Rightarrow> string + nat option" where
  "qubit_index value =
     (case as_i64 value of
        Some q \<Rightarrow> if q < 0 then Inl (''negative qubit index '' @ show_int q) else Inr (Some (nat q))
      | None \<Rightarrow>
          (case as_u64 value of
             Some q \<Rightarrow> Inr (Some (unat q))
           | None \<Rightarrow> Inr None))"

definition ensure_in_range :: "nat \<Rightarrow> usize \<Rightarrow> nat \<Rightarrow> string + unit" where
  "ensure_in_range q qubit_count idx =
     (if unat qubit_count \<le> q
      then Inl (''Qubit index '' @ show_nat q @ '' out of range at gate '' @ show_nat idx)
      else Inr ())"

definition non_integer :: "nat \<Rightarrow> string" where
  "non_integer idx = ''gate '' @ show_nat idx @ '' has a non-integer qubit index''"

definition require_qubit :: "json \<Rightarrow> usize \<Rightarrow> nat \<Rightarrow> string + unit" where
  "require_qubit value qubit_count idx =
     (case qubit_index value of
        Inr (Some q) \<Rightarrow> ensure_in_range q qubit_count idx
      | Inr None \<Rightarrow> Inl (non_integer idx)
      | Inl msg \<Rightarrow> Inl (msg @ '' at gate '' @ show_nat idx))"

definition validate_rotation_qubit :: "gate \<Rightarrow> nat \<Rightarrow> usize \<Rightarrow> string + unit" where
  "validate_rotation_qubit g idx qubit_count =
     (case (case as_array (gate_params g) of
              Some arr \<Rightarrow> (case arr of [] \<Rightarrow> None | x # _ \<Rightarrow> Some x)
            | None \<Rightarrow> Some (gate_params g)) of
        None \<Rightarrow> Inl (''rotation gate at index '' @ show_nat idx @ '' is missing a qubit'')
      | Some qubit \<Rightarrow> require_qubit qubit qubit_count idx)"

fun check_qubit_values :: "json \<Rightarrow> nat \<Rightarrow> usize \<Rightarrow> string + unit"
and check_qubit_items :: "json list \<Rightarrow> nat \<Rightarrow> usize \<Rightarrow> string + unit" where
  "check_qubit_values (JArr items) idx qubit_count = check_qubit_items items idx qubit_count"
| "check_qubit_values (JNum n) idx qubit_count =
     and_then (qubit_index (JNum n)) (\<lambda>q. case q of
         Some q \<Rightarrow> ensure_in_range q qubit_count idx
       | None \<Rightarrow> Inl (non_integer idx))"
| "check_qubit_values (JObj m) idx qubit_count =
     (case obj_get m ''qubit'' of
        Some q \<Rightarrow> require_qubit q qubit_count idx
      | None \<Rightarrow> Inr ())"
| "check_qubit_values _ idx qubit_count = Inr ()"
| "check_qubit_items [] idx qubit_count = Inr ()"
| "check_qubit_items (x # xs) idx qubit_count =
     and_then (check_qubit_values x idx qubit_count) (\<lambda>_. check_qubit_items xs idx qubit_count)"

definition is_rotation :: "string \<Rightarrow> bool" where
  "is_rotation t \<longleftrightarrow> t \<in> {''RX'', ''RY'', ''RZ''}"

definition validate_qubit_params :: "gate \<Rightarrow> nat \<Rightarrow> usize \<Rightarrow> string + unit" where
  "validate_qubit_params g idx qubit_count =
     (if is_rotation (gate_type g) then validate_rotation_qubit g idx qubit_count
      else check_qubit_values (gate_params g) idx qubit_count)"

definition if_gate_err :: "nat \<Rightarrow> string \<Rightarrow> string" where
  "if_gate_err idx msg = ''IF gate at index '' @ show_nat idx @ msg"

partial_function (option) validate_gate ::
    "(json \<Rightarrow> string + gate) \<Rightarrow> gate \<Rightarrow> nat \<Rightarrow> usize \<Rightarrow> string list \<Rightarrow> (string + unit) option" where
  "validate_gate from_value g idx qubit_count supported_gates =
     (if gate_type g \<notin> set supported_gates
      then Some (Inl (''Gate '' @ [CHR 0x27] @ gate_type g @ [CHR 0x27] @ '' at index '' @ show_nat idx
             @ '' not supported''))
      else if gate_type g = ''IF'' then
        (case gate_params g of
           JObj obj \<Rightarrow>
             (case obj_get obj ''gate'' of
                Some nested \<Rightarrow>
                  (case from_value nested of
                     Inl e \<Rightarrow> Some (Inl (if_gate_err idx ('' has invalid nested gate: '' @ e)))
                   | Inr nested_gate \<Rightarrow>
                       validate_gate from_value nested_gate idx qubit_count supported_gates)
              | None \<Rightarrow> Some (Inl (if_gate_err idx '' missing nested gate'')))
         | _ \<Rightarrow> Some (Inl (if_gate_err idx '' requires object params'')))
      else Some (validate_qubit_params g idx qubit_count))"

fun validate_gates_from ::
    "(json \<Rightarrow> string + gate) \<Rightarrow> nat \<Rightarrow> gate list \<Rightarrow> usize \<Rightarrow> string list \<Rightarrow> (string + unit) option" where
  "validate_gates_from from_value idx [] qubit_count supported_gates = Some (Inr ())"
| "validate_gates_from from_value idx (g # gs) qubit_count supported_gates =
     (case validate_gate from_value g idx qubit_count supported_gates of
        None \<Rightarrow> None
      | Some (Inl e) \<Rightarrow> Some (Inl e)
      | Some (Inr _) \<Rightarrow> validate_gates_from from_value (Suc idx) gs qubit_count supported_gates)"

definition validate_circuit_logic ::
    "(json \<Rightarrow> string + gate) \<Rightarrow> gate list \<Rightarrow> usize \<Rightarrow> string list \<Rightarrow> (string + unit) option" where
  "validate_circuit_logic from_value circuit qubit_count supported_gates =
     validate_gates_from from_value 0 circuit qubit_count supported_gates"

section \<open>What decoding a gate does\<close>

text \<open>
  Documented of the derived \<open>Deserialize\<close> of \<open>Gate\<close>: it reads an object with a string \<open>type\<close> and
  any \<open>params\<close>, or the sequence of the two.
\<close>

definition gate_decoder :: "(json \<Rightarrow> string + gate) \<Rightarrow> bool" where
  "gate_decoder from_value \<longleftrightarrow> (\<forall>v g. from_value v = Inr g \<longleftrightarrow>
     (\<exists>m. v = JObj m \<and> obj_get m ''type'' = Some (JStr (gate_type g)) \<and>
          obj_get m ''params'' = Some (gate_params g)) \<or>
     v = JArr [JStr (gate_type g), gate_params g])"

lemma gate_decoderD:
  "gate_decoder D \<Longrightarrow> D v = Inr g \<longleftrightarrow>
     (\<exists>m. v = JObj m \<and> obj_get m ''type'' = Some (JStr (gate_type g)) \<and>
          obj_get m ''params'' = Some (gate_params g)) \<or>
     v = JArr [JStr (gate_type g), gate_params g]"
  by (simp add: gate_decoder_def del: obj_get.simps)

lemma decoded_smaller: "gate_decoder D \<Longrightarrow> D v = Inr g \<Longrightarrow> size (gate_params g) < size v"
  by (auto simp: gate_decoderD simp del: obj_get.simps dest: obj_get_size)

section \<open>Specification\<close>

text \<open>The values a parameter tree uses as qubits, and when such a value is a qubit of the register.\<close>

fun qubit_leaves :: "json \<Rightarrow> json list" where
  "qubit_leaves (JArr xs) = concat (map qubit_leaves xs)"
| "qubit_leaves (JNum n) = [JNum n]"
| "qubit_leaves (JObj m) = (case obj_get m ''qubit'' of Some q \<Rightarrow> [q] | None \<Rightarrow> [])"
| "qubit_leaves _ = []"

fun index_ok :: "usize \<Rightarrow> json \<Rightarrow> bool" where
  "index_ok n (JNum (PosInt q)) \<longleftrightarrow> q < n"
| "index_ok n (JNum (NegInt q)) \<longleftrightarrow> 0 \<le> sint q \<and> sint q < int (unat n)"
| "index_ok n _ \<longleftrightarrow> False"

inductive gate_valid :: "(json \<Rightarrow> string + gate) \<Rightarrow> string list \<Rightarrow> usize \<Rightarrow> gate \<Rightarrow> bool"
  for D :: "json \<Rightarrow> string + gate" and sp :: "string list" and n :: usize where
  plain: "gate_type g \<in> set sp \<Longrightarrow> gate_type g \<noteq> ''IF'' \<Longrightarrow> \<not> is_rotation (gate_type g) \<Longrightarrow>
      \<forall>x \<in> set (qubit_leaves (gate_params g)). index_ok n x \<Longrightarrow> gate_valid D sp n g"
| rotation: "gate_type g \<in> set sp \<Longrightarrow> is_rotation (gate_type g) \<Longrightarrow>
      gate_params g = JArr (x # xs) \<or> gate_params g = x \<Longrightarrow> index_ok n x \<Longrightarrow> gate_valid D sp n g"
| conditional: "gate_type g \<in> set sp \<Longrightarrow> gate_type g = ''IF'' \<Longrightarrow> gate_params g = JObj obj \<Longrightarrow>
      obj_get obj ''gate'' = Some nested \<Longrightarrow> D nested = Inr g' \<Longrightarrow> gate_valid D sp n g' \<Longrightarrow>
      gate_valid D sp n g"

lemma not_rotation_if: "\<not> is_rotation ''IF''"
  by (simp add: is_rotation_def)

lemma gate_valid_if:
  "gate_type g = ''IF'' \<Longrightarrow> gate_valid D sp n g \<longleftrightarrow> ''IF'' \<in> set sp \<and>
     (\<exists>obj nested g'. gate_params g = JObj obj \<and> obj_get obj ''gate'' = Some nested \<and>
        D nested = Inr g' \<and> gate_valid D sp n g')"
  by (subst gate_valid.simps) (simp add: not_rotation_if del: obj_get.simps)

lemma gate_valid_other:
  "gate_type g \<noteq> ''IF'' \<Longrightarrow> gate_valid D sp n g \<longleftrightarrow> gate_type g \<in> set sp \<and>
     (if is_rotation (gate_type g)
      then \<exists>x xs. (gate_params g = JArr (x # xs) \<or> gate_params g = x) \<and> index_ok n x
      else \<forall>x \<in> set (qubit_leaves (gate_params g)). index_ok n x)"
  by (subst gate_valid.simps) (auto simp del: obj_get.simps)

lemma ensure_in_range_ok: "ensure_in_range q n i = Inr () \<longleftrightarrow> q < unat n"
  by (simp add: ensure_in_range_def)

lemma qubit_index_ok:
  "(\<exists>q. qubit_index v = Inr (Some q) \<and> q < unat n) \<longleftrightarrow> index_ok n v"
proof (cases v)
  case (JNum m)
  then show ?thesis
    by (cases m) (auto simp: qubit_index_def word_less_nat_alt nat_less_iff)
qed (auto simp: qubit_index_def)

lemma require_qubit_ok: "require_qubit v n i = Inr () \<longleftrightarrow> index_ok n v"
  unfolding qubit_index_ok [symmetric] require_qubit_def
  by (auto simp: ensure_in_range_ok split: sum.splits option.splits)

lemma check_qubit_values_ok:
  "check_qubit_values v i n = Inr () \<longleftrightarrow> (\<forall>x \<in> set (qubit_leaves v). index_ok n x)"
  "check_qubit_items vs i n = Inr () \<longleftrightarrow> (\<forall>v \<in> set vs. \<forall>x \<in> set (qubit_leaves v). index_ok n x)"
proof (induction v i n and vs i n rule: check_qubit_values_check_qubit_items.induct)
  case (2 m i n)
  then show ?case
    unfolding qubit_leaves.simps using qubit_index_ok [of "JNum m" n]
    by (auto simp: and_then_eq_Inr ensure_in_range_ok split: option.splits)
qed (auto simp: require_qubit_ok and_then_eq_Inr simp del: obj_get.simps split: option.splits)

lemma validate_rotation_ok:
  "validate_rotation_qubit g i n = Inr () \<longleftrightarrow>
     (\<exists>x xs. (gate_params g = JArr (x # xs) \<or> gate_params g = x) \<and> index_ok n x)"
  by (cases "gate_params g")
    (auto simp: validate_rotation_qubit_def require_qubit_ok split: list.splits)

lemma validate_gate_spec:
  assumes "gate_decoder D"
  shows "\<exists>r. validate_gate D g i n sp = Some r \<and> (r = Inr () \<longleftrightarrow> gate_valid D sp n g)"
proof (induction "size (gate_params g)" arbitrary: g rule: less_induct)
  case less
  note unfold = validate_gate.simps [of D g i n sp]
  consider "gate_type g \<notin> set sp" | "gate_type g \<in> set sp" "gate_type g = ''IF''"
    | "gate_type g \<in> set sp" "gate_type g \<noteq> ''IF''" by blast
  then show ?case
  proof cases
    case 1
    then have "\<not> gate_valid D sp n g"
      by (cases "gate_type g = ''IF''") (auto simp: gate_valid_if gate_valid_other)
    with 1 show ?thesis by (simp add: unfold)
  next
    case 2
    show ?thesis
    proof (cases "\<exists>obj nested g'. gate_params g = JObj obj \<and> obj_get obj ''gate'' = Some nested \<and>
        D nested = Inr g'")
      case True
      then obtain obj nested g' where g': "gate_params g = JObj obj" "obj_get obj ''gate'' = Some nested"
          "D nested = Inr g'" by blast
      then have "size (gate_params g') < size (gate_params g)"
        using decoded_smaller [OF assms g'(3)] obj_get_size [OF g'(2)] by simp
      from less [OF this] obtain r where "validate_gate D g' i n sp = Some r"
          "r = Inr () \<longleftrightarrow> gate_valid D sp n g'" by blast
      moreover have "gate_valid D sp n g \<longleftrightarrow> gate_valid D sp n g'"
        using 2 g' by (simp add: gate_valid_if del: obj_get.simps)
      ultimately show ?thesis using 2 g' by (simp add: unfold del: obj_get.simps)
    next
      case False
      then have "\<not> gate_valid D sp n g"
        using 2 by (auto simp: gate_valid_if simp del: obj_get.simps)
      moreover have "\<exists>e. validate_gate D g i n sp = Some (Inl e)"
      proof (cases "gate_params g")
        case (JObj obj)
        then show ?thesis
          using 2 False by (cases "obj_get obj ''gate''"; cases "D (the (obj_get obj ''gate''))")
            (simp_all add: unfold del: obj_get.simps)
      qed (use 2 in \<open>simp_all add: unfold\<close>)
      ultimately show ?thesis by auto
    qed
  next
    case 3
    have "validate_qubit_params g i n = Inr () \<longleftrightarrow> gate_valid D sp n g"
      using 3 by (simp add: validate_qubit_params_def validate_rotation_ok check_qubit_values_ok
          gate_valid_other)
    with 3 show ?thesis by (simp add: unfold)
  qed
qed

lemma validate_gates_spec:
  assumes "gate_decoder D"
  shows "\<exists>r. validate_gates_from D i c n sp = Some r \<and> (r = Inr () \<longleftrightarrow> (\<forall>g \<in> set c. gate_valid D sp n g))"
proof (induction c arbitrary: i)
  case (Cons g c)
  obtain r where r: "validate_gate D g i n sp = Some r" "r = Inr () \<longleftrightarrow> gate_valid D sp n g"
    using validate_gate_spec [OF assms] by blast
  with Cons [of "Suc i"] show ?case by (cases r) auto
qed simp

section \<open>Properties\<close>

text \<open>
  Property C14. Validation always returns, and it accepts a circuit exactly when every gate, those
  nested in \<open>IF\<close> gates included, is of a supported type and every value it uses as a qubit is an
  integer of the register \<open>0 .. qubit_count - 1\<close>.
\<close>

theorem validation_exact:
  assumes "gate_decoder D"
  shows "validate_circuit_logic D circuit n sp \<noteq> None \<and>
    (validate_circuit_logic D circuit n sp = Some (Inr ()) \<longleftrightarrow> (\<forall>g \<in> set circuit. gate_valid D sp n g))"
  using validate_gates_spec [OF assms, of 0 circuit n sp]
  by (auto simp: validate_circuit_logic_def)

text \<open>A decoder of the documented kind.\<close>

definition decode_gate :: "json \<Rightarrow> string + gate" where
  "decode_gate v =
     (case v of
        JObj m \<Rightarrow>
          (case (obj_get m ''type'', obj_get m ''params'') of
             (Some (JStr t), Some p) \<Rightarrow> Inr \<lparr>gate_type = t, gate_params = p\<rparr>
           | _ \<Rightarrow> Inl ''invalid'')
      | JArr [JStr t, p] \<Rightarrow> Inr \<lparr>gate_type = t, gate_params = p\<rparr>
      | _ \<Rightarrow> Inl ''invalid'')"

lemma decode_gate_ok: "gate_decoder decode_gate"
  unfolding gate_decoder_def
proof (intro allI)
  fix v g
  show "decode_gate v = Inr g \<longleftrightarrow>
     (\<exists>m. v = JObj m \<and> obj_get m ''type'' = Some (JStr (gate_type g)) \<and>
          obj_get m ''params'' = Some (gate_params g)) \<or>
     v = JArr [JStr (gate_type g), gate_params g]"
    by (cases g)
      (auto simp: decode_gate_def simp del: obj_get.simps
         split: json.splits option.splits list.splits)
qed

definition demo_if :: "nat \<Rightarrow> gate" where
  "demo_if q = \<lparr>gate_type = ''IF'', gate_params = JObj [(''gate'',
     JObj [(''params'', JArr [JNum (PosInt 0), JNum (PosInt (word_of_nat q))]), (''type'', JStr ''CNOT'')])]\<rparr>"

theorem validation_exact_witness:
  "validate_circuit_logic decode_gate [demo_if 2] 2 [''IF'', ''CNOT''] \<noteq> Some (Inr ()) \<and>
   \<not> gate_valid decode_gate [''IF'', ''CNOT''] 2 (demo_if 2)"
proof -
  have "validate_circuit_logic decode_gate [demo_if 2] 2 [''IF'', ''CNOT''] \<noteq> Some (Inr ())"
    by (simp add: validate_circuit_logic_def validate_gate.simps demo_if_def decode_gate_def
        validate_qubit_params_def is_rotation_def qubit_index_def ensure_in_range_def)
  then show ?thesis
    using validation_exact [OF decode_gate_ok, of "[demo_if 2]" 2 "[''IF'', ''CNOT'']"] by simp
qed

lemma obj_get_set: "obj_get (obj_set k v m) j = (if j = k \<and> obj_get m k \<noteq> None then Some v else obj_get m j)"
  by (induction m) (auto simp: obj_set_def)

lemma normalize_cases:
  obtains (single) x where "v = JArr [x]" "normalize_gate_value v = x"
  | (nested) obj m p where "v = JObj obj" "obj_get obj ''gate'' = Some (JObj m)"
      "obj_get m ''params'' = Some p"
      "normalize_gate_value v = JObj (obj_set ''gate'' (JObj (obj_set ''params'' (normalize_gate_value p) m)) obj)"
  | (same) "\<nexists>x. v = JArr [x]"
      "\<nexists>obj m p. v = JObj obj \<and> obj_get obj ''gate'' = Some (JObj m) \<and> obj_get m ''params'' = Some p"
      "normalize_gate_value v = v"
proof -
  consider x where "v = JArr [x]"
    | obj m p where "v = JObj obj" "obj_get obj ''gate'' = Some (JObj m)" "obj_get m ''params'' = Some p"
    | "\<nexists>x. v = JArr [x]"
      "\<nexists>obj m p. v = JObj obj \<and> obj_get obj ''gate'' = Some (JObj m) \<and> obj_get m ''params'' = Some p"
    by blast
  then show ?thesis
  proof cases
    case 1
    then have "normalize_gate_value v = x" by (simp add: normalize_gate_value.simps)
    with 1 show ?thesis by (rule single)
  next
    case 2
    then have "normalize_gate_value v =
        JObj (obj_set ''gate'' (JObj (obj_set ''params'' (normalize_gate_value p) m)) obj)"
      by (simp add: normalize_gate_value.simps [of "JObj obj"] del: obj_get.simps)
    with 2 show ?thesis by (rule nested)
  next
    case 3
    then have "normalize_gate_value v = v"
      by (simp add: normalize_gate_value.simps [of v] del: obj_get.simps
          split: json.splits list.splits option.splits)
    with 3 show ?thesis by (intro same) simp_all
  qed
qed

lemma normalize_valid:
  assumes "gate_decoder D" "gate_valid D sp n g"
  shows "gate_valid D sp n (normalize_gate g)"
  using assms(2)
proof (induction rule: gate_valid.induct)
  case (plain g)
  have "set (qubit_leaves (normalize_gate_value (gate_params g))) = set (qubit_leaves (gate_params g))"
    by (cases "gate_params g" rule: normalize_cases) (auto simp: obj_get_set simp del: obj_get.simps)
  with plain show ?case by (intro gate_valid.plain) (simp_all add: normalize_gate_def)
next
  case (rotation g x xs)
  then have "normalize_gate_value (gate_params g) = JArr (x # xs) \<or> normalize_gate_value (gate_params g) = x"
    by (cases "gate_params g" rule: normalize_cases; cases x) auto
  with rotation show ?case by (intro gate_valid.rotation) (simp_all add: normalize_gate_def)
next
  case (conditional g obj nested g')
  show ?case
  proof (cases "\<exists>m. nested = JObj m")
    case True
    then obtain m where m: "nested = JObj m" "obj_get m ''type'' = Some (JStr (gate_type g'))"
        "obj_get m ''params'' = Some (gate_params g')"
      using conditional(5) assms(1) by (auto simp: gate_decoderD simp del: obj_get.simps)
    have dec: "D (JObj (obj_set ''params'' (normalize_gate_value (gate_params g')) m)) = Inr (normalize_gate g')"
      using m assms(1) by (auto simp: gate_decoderD obj_get_set normalize_gate_def simp del: obj_get.simps)
    have eq: "gate_params (normalize_gate g) =
        JObj (obj_set ''gate'' (JObj (obj_set ''params'' (normalize_gate_value (gate_params g')) m)) obj)"
      using m conditional(3,4)
      by (simp add: normalize_gate_def normalize_gate_value.simps [of "JObj obj"] del: obj_get.simps)
    have get: "obj_get (obj_set ''gate'' v obj) ''gate'' = Some v" for v
      using conditional(4) by (simp add: obj_get_set del: obj_get.simps)
    show ?thesis
      by (rule gate_valid.conditional [OF _ _ eq get dec conditional.IH])
        (use conditional(1,2) in \<open>simp_all add: normalize_gate_def\<close>)
  next
    case False
    then have "normalize_gate_value (gate_params g) = gate_params g"
      using conditional(3,4) by (cases "gate_params g" rule: normalize_cases) auto
    then have "normalize_gate g = g" by (simp add: normalize_gate_def)
    then show ?thesis
      using gate_valid.conditional [OF conditional(1-6)] by simp
  qed
qed

text \<open>
  Normalising gate parameters, which the node does after it has validated a circuit, keeps it valid.
\<close>

lemma normalized_still_valid:
  assumes "gate_decoder D" and "validate_circuit_logic D circuit n sp = Some (Inr ())"
  shows "validate_circuit_logic D (normalize_gate_params circuit) n sp = Some (Inr ())"
proof -
  have "\<forall>g \<in> set circuit. gate_valid D sp n g"
    using validate_gates_spec [OF assms(1), of 0 circuit n sp] assms(2)
    by (auto simp: validate_circuit_logic_def)
  then have "\<forall>g \<in> set (normalize_gate_params circuit). gate_valid D sp n g"
    using normalize_valid [OF assms(1)] by (auto simp: normalize_gate_params_def)
  then show ?thesis
    using validate_gates_spec [OF assms(1), of 0 "normalize_gate_params circuit" n sp]
    by (auto simp: validate_circuit_logic_def)
qed

end
