(* ===== verification/Go_Json.thy ===== *)
theory Go_Json
  imports Models
begin

text \<open>
  The JSON texts that the orchestrator signs, of \<open>src/src/domain/p2p.rs\<close>: circuits and observables
  written byte for byte as Go's \<open>encoding/json\<close> writes them.

  The shortest digits of a number come from the package \<open>ryu\<close>: they are the argument \<open>ryu\<close> of
  the definitions. The definitions that append to a \<open>String\<close> return what they append.
\<close>

section \<open>Numbers\<close>

fun split_once :: "char \<Rightarrow> string \<Rightarrow> (string \<times> string) option" where
  "split_once d [] = None"
| "split_once d (c # s) =
     (if c = d then Some ([], s) else map_option (\<lambda>(a, b). (c # a, b)) (split_once d s))"

fun find_char :: "char \<Rightarrow> string \<Rightarrow> nat option" where
  "find_char d [] = None"
| "find_char d (c # s) = (if c = d then Some 0 else map_option Suc (find_char d s))"

definition trim_start_matches :: "char \<Rightarrow> string \<Rightarrow> string" where
  "trim_start_matches d s = dropWhile (\<lambda>c. c = d) s"

definition trim_end_matches :: "char \<Rightarrow> string \<Rightarrow> string" where
  "trim_end_matches d s = rev (dropWhile (\<lambda>c. c = d) (rev s))"

text \<open>\<open>str::parse::<i32>\<close>: an optional sign and decimal digits within the range.\<close>

definition parse_i32 :: "string \<Rightarrow> int option" where
  "parse_i32 s =
     (let (neg, ds) = (case s of [] \<Rightarrow> (False, [])
            | c # t \<Rightarrow> if c = CHR ''-'' then (True, t) else if c = CHR ''+'' then (False, t) else (False, s));
          v = (if neg then - int (dec_val ds) else int (dec_val ds))
      in if ds \<noteq> [] \<and> list_all is_ascii_digit ds \<and> - (2 ^ 31) \<le> v \<and> v < 2 ^ 31 then Some v else None)"

definition decimal_digits :: "string \<Rightarrow> string \<times> string \<times> int" where
  "decimal_digits text =
     (let (sign, text) = (case strip_prefix ''-'' text of Some rest \<Rightarrow> (''-'', rest) | None \<Rightarrow> ('''', text));
          (mantissa, exp_part) = (case split_once (CHR ''e'') text of Some p \<Rightarrow> p | None \<Rightarrow> (text, ''0''));
          exp_part = (case parse_i32 exp_part of Some e \<Rightarrow> e | None \<Rightarrow> 0);
          point = int (case find_char (CHR ''.'') mantissa of Some i \<Rightarrow> i | None \<Rightarrow> length mantissa);
          all = filter (\<lambda>c. c \<noteq> CHR ''.'') mantissa;
          leading = length all - length (trim_start_matches (CHR ''0'') all);
          digits = trim_end_matches (CHR ''0'') (trim_start_matches (CHR ''0'') all)
      in (sign, digits, point - 1 - int leading + exp_part))"

definition plain_decimal :: "string \<Rightarrow> int \<Rightarrow> string" where
  "plain_decimal digits e =
     (if e < 0 then ''0.'' @ replicate (nat (- e - 1)) (CHR ''0'') @ digits
      else let int_len = nat e + 1 in
        if length digits \<le> int_len then digits @ replicate (int_len - length digits) (CHR ''0'')
        else take int_len digits @ ''.'' @ drop int_len digits)"

text \<open>\<open>{exp:02}\<close> of a number that is not negative.\<close>

definition show_02 :: "int \<Rightarrow> string" where
  "show_02 e = (if e < 10 then ''0'' else '''') @ show_int e"

definition go_layout :: "f64 \<Rightarrow> string \<Rightarrow> int \<Rightarrow> string" where
  "go_layout a digits e =
     (if f64_le (f64_of_rat (1 / 10 ^ 6)) a \<and> f64_less a (f64_of_rat (10 ^ 21))
      then plain_decimal digits e
      else let mantissa = (if length digits = 1 then digits else take 1 digits @ ''.'' @ drop 1 digits) in
        if e < 0 then mantissa @ ''e-'' @ show_int (- e) else mantissa @ ''e+'' @ show_02 e)"

definition f64_abs :: "f64 \<Rightarrow> f64" where
  "f64_abs x = (case x of NaN \<Rightarrow> NaN | Inf _ \<Rightarrow> Inf False | Fin _ m \<Rightarrow> Fin False m)"

definition go_json_float :: "(f64 \<Rightarrow> string) \<Rightarrow> f64 \<Rightarrow> string" where
  "go_json_float ryu f =
     (if f64_eq f (f64_of_rat 0) then (if f = Fin True 0 then ''-0'' else ''0'')
      else let (sign, digits, e) = decimal_digits (ryu f) in sign @ go_layout (f64_abs f) digits e)"

section \<open>Strings and values\<close>

definition hex_digit :: "nat \<Rightarrow> char" where
  "hex_digit d = (if d < 10 then char_of (48 + d) else char_of (87 + d))"

definition u_escape :: "nat \<Rightarrow> string" where
  "u_escape n = [CHR 0x5C, CHR ''u'', hex_digit (n div 4096 mod 16), hex_digit (n div 256 mod 16),
     hex_digit (n div 16 mod 16), hex_digit (n mod 16)]"

text \<open>The two characters beyond ASCII that are escaped are, in UTF-8, \<open>E2 80 A8\<close> and \<open>E2 80 A9\<close>.\<close>

definition escape_ascii :: "char \<Rightarrow> string" where
  "escape_ascii c =
     (if c = CHR 0x22 then [CHR 0x5C, CHR 0x22]
      else if c = CHR 0x5C then [CHR 0x5C, CHR 0x5C]
      else if c = CHR 0x08 then [CHR 0x5C, CHR ''b'']
      else if c = CHR 0x0C then [CHR 0x5C, CHR ''f'']
      else if c = CHR 0x0A then [CHR 0x5C, CHR ''n'']
      else if c = CHR 0x0D then [CHR 0x5C, CHR ''r'']
      else if c = CHR 0x09 then [CHR 0x5C, CHR ''t'']
      else if c = CHR ''<'' \<or> c = CHR ''>'' \<or> c = CHR ''&'' then u_escape (of_char c)
      else if (of_char c :: nat) < 32 then u_escape (of_char c)
      else [c])"

fun escape_chars :: "string \<Rightarrow> string" where
  "escape_chars [] = []"
| "escape_chars (c # s) =
     (case strip_any [[CHR 0xE2, CHR 0x80, CHR 0xA8]] (c # s) of
        Some _ \<Rightarrow> u_escape 0x2028 @ escape_chars (drop 2 s)
      | None \<Rightarrow>
          (case strip_any [[CHR 0xE2, CHR 0x80, CHR 0xA9]] (c # s) of
             Some _ \<Rightarrow> u_escape 0x2029 @ escape_chars (drop 2 s)
           | None \<Rightarrow> escape_ascii c @ escape_chars s))"

definition write_go_json_string :: "string \<Rightarrow> string" where
  "write_go_json_string text = [CHR 0x22] @ escape_chars text @ [CHR 0x22]"

text \<open>\<open>Display\<close> of a \<open>Number\<close>, as the error message shows it.\<close>

fun show_jnum :: "(f64 \<Rightarrow> string) \<Rightarrow> jnum \<Rightarrow> string" where
  "show_jnum ryu (PosInt n) = show_nat (unat n)"
| "show_jnum ryu (NegInt i) = show_int (sint i)"
| "show_jnum ryu (Float f) = ryu f"

fun write_go_json_value :: "(f64 \<Rightarrow> string) \<Rightarrow> json \<Rightarrow> string + string"
and write_go_json_items :: "(f64 \<Rightarrow> string) \<Rightarrow> bool \<Rightarrow> json list \<Rightarrow> string + string"
and write_go_json_fields :: "(f64 \<Rightarrow> string) \<Rightarrow> bool \<Rightarrow> (string \<times> json) list \<Rightarrow> string + string" where
  "write_go_json_value ryu JNull = Inr ''null''"
| "write_go_json_value ryu (JBool b) = Inr (if b then ''true'' else ''false'')"
| "write_go_json_value ryu (JNum n) =
     (case as_f64 n of
        Some f \<Rightarrow> Inr (go_json_float ryu f)
      | None \<Rightarrow> Inl (''circuit number '' @ show_jnum ryu n @ '' is not a float64''))"
| "write_go_json_value ryu (JStr text) = Inr (write_go_json_string text)"
| "write_go_json_value ryu (JArr items) =
     and_then (write_go_json_items ryu True items) (\<lambda>s. Inr (''['' @ s @ '']''))"
| "write_go_json_value ryu (JObj m) =
     and_then (write_go_json_fields ryu True m) (\<lambda>s. Inr (''{'' @ s @ ''}''))"
| "write_go_json_items ryu first [] = Inr ''''"
| "write_go_json_items ryu first (x # xs) =
     and_then (write_go_json_value ryu x) (\<lambda>a.
     and_then (write_go_json_items ryu False xs) (\<lambda>b. Inr ((if first then '''' else '','') @ a @ b)))"
| "write_go_json_fields ryu first [] = Inr ''''"
| "write_go_json_fields ryu first ((key, x) # xs) =
     and_then (write_go_json_value ryu x) (\<lambda>a.
     and_then (write_go_json_fields ryu False xs) (\<lambda>b.
       Inr ((if first then '''' else '','') @ write_go_json_string key @ '':'' @ a @ b)))"

fun circuit_json_from :: "(f64 \<Rightarrow> string) \<Rightarrow> bool \<Rightarrow> gate list \<Rightarrow> string + string" where
  "circuit_json_from ryu first [] = Inr ''''"
| "circuit_json_from ryu first (g # gs) =
     and_then (write_go_json_value ryu (gate_params g)) (\<lambda>a.
     and_then (circuit_json_from ryu False gs) (\<lambda>b.
       Inr ((if first then '''' else '','') @ ''{\"type\":'' @ write_go_json_string (gate_type g)
            @ '',\"params\":'' @ a @ ''}'' @ b)))"

definition circuit_signing_json :: "(f64 \<Rightarrow> string) \<Rightarrow> gate list \<Rightarrow> string + bytes" where
  "circuit_signing_json ryu circuit =
     and_then (circuit_json_from ryu True circuit) (\<lambda>s. Inr (as_bytes (''['' @ s @ '']'')))"

section \<open>What a number's text denotes\<close>

text \<open>The number written with whole digits \<open>w\<close>, fraction digits \<open>f\<close> and decimal exponent \<open>k\<close>.\<close>

definition dec_num :: "string \<Rightarrow> string \<Rightarrow> int \<Rightarrow> rat" where
  "dec_num w f k = of_nat (dec_val (w @ f)) * 10 powi (k - int (length f))"

text \<open>
  Documented of \<open>ryu\<close>: the text is a decimal number, with a fraction and an exponent where needed,
  that reads back as the number formatted.
\<close>

definition decimal_text :: "bool \<Rightarrow> string \<Rightarrow> bool \<Rightarrow> string \<Rightarrow> bool \<Rightarrow> int \<Rightarrow> string" where
  "decimal_text neg w dot f ex k =
     (if neg then ''-'' else []) @ w @ (if dot then ''.'' @ f else []) @ (if ex then ''e'' @ show_int k else [])"

definition decimal_parts :: "string \<Rightarrow> bool \<Rightarrow> string \<Rightarrow> bool \<Rightarrow> int \<Rightarrow> bool" where
  "decimal_parts w dot f ex k \<longleftrightarrow> (dot \<or> f = []) \<and> (ex \<or> k = 0) \<and> w \<noteq> [] \<and>
     list_all is_ascii_digit w \<and> list_all is_ascii_digit f \<and> 0 < dec_val (w @ f) \<and> \<bar>k\<bar> < 2 ^ 31"

definition signed_value :: "bool \<Rightarrow> rat \<Rightarrow> f64" where
  "signed_value neg v = (if neg then f64_neg (f64_of_rat v) else f64_of_rat v)"

definition ryu_text :: "f64 \<Rightarrow> string \<Rightarrow> bool" where
  "ryu_text x s \<longleftrightarrow> (\<exists>neg w dot f ex k. s = decimal_text neg w dot f ex k \<and> decimal_parts w dot f ex k \<and>
     x = signed_value neg (dec_num w f k))"

text \<open>The doubles a JSON number can be: finite and representable.\<close>

definition json_f64 :: "f64 \<Rightarrow> bool" where
  "json_f64 x \<longleftrightarrow> f64_is_finite x \<and> f64_rep x"

definition ryu_ok :: "(f64 \<Rightarrow> string) \<Rightarrow> bool" where
  "ryu_ok ryu \<longleftrightarrow> (\<forall>x. json_f64 x \<and> \<not> f64_eq x (f64_of_rat 0) \<longrightarrow> ryu_text x (ryu x))"

lemma split_once_append: "d \<notin> set a \<Longrightarrow> split_once d (a @ d # b) = Some (a, b)"
  by (induction a) auto

lemma split_once_none: "d \<notin> set a \<Longrightarrow> split_once d a = None"
  by (induction a) auto

lemma find_char_append: "d \<notin> set a \<Longrightarrow> find_char d (a @ d # b) = Some (length a)"
  by (induction a) auto

lemma find_char_none: "d \<notin> set a \<Longrightarrow> find_char d a = None"
  by (induction a) auto

lemma digit_neq: "list_all is_ascii_digit s \<Longrightarrow> c \<in> set s \<Longrightarrow> c \<notin> set ''-.e+''"
  by (auto simp: list_all_iff is_ascii_digit_def)

lemma parse_i32_show:
  assumes "\<bar>k\<bar> < 2 ^ 31" shows "parse_i32 (show_int k) = Some k"
proof (cases "k < 0")
  case True
  then show ?thesis
    using assms show_nat_digits [of "nat (- k)"] by (simp add: parse_i32_def show_int_def Let_def)
next
  case False
  have d: "list_all is_ascii_digit (show_nat (nat k))" "show_nat (nat k) \<noteq> []"
    using show_nat_digits by auto
  then obtain c t where c: "show_nat (nat k) = c # t" "is_ascii_digit c"
    by (cases "show_nat (nat k)") auto
  then have "c \<noteq> CHR ''-''" "c \<noteq> CHR ''+''" by (auto simp: is_ascii_digit_def)
  moreover have "dec_val (c # t) = nat k" using c dec_val_show_nat by metis
  ultimately show ?thesis
    using assms False c d by (simp add: parse_i32_def show_int_def)
qed

lemma dropWhile_zeros: "dec_val (dropWhile (\<lambda>c. c = CHR ''0'') s) = dec_val s"
proof -
  let ?z = "takeWhile (\<lambda>c. c = CHR ''0'') s"
  have "?z = replicate (length ?z) (CHR ''0'')"
    by (rule replicate_length_same [symmetric]) (auto dest: set_takeWhileD)
  then have "dec_val (?z @ dropWhile (\<lambda>c. c = CHR ''0'') s) = dec_val (dropWhile (\<lambda>c. c = CHR ''0'') s)"
    by (metis add_0 dec_val_append dec_val_zeros mult_0)
  then show ?thesis by simp
qed

lemma trim_end_zeros:
  "\<exists>n. s = trim_end_matches (CHR ''0'') s @ replicate n (CHR ''0'')"
proof -
  let ?z = "takeWhile (\<lambda>c. c = CHR ''0'') (rev s)"
  have "?z = replicate (length ?z) (CHR ''0'')"
    by (rule replicate_length_same [symmetric]) (auto dest: set_takeWhileD)
  then have "rev s = replicate (length ?z) (CHR ''0'') @ dropWhile (\<lambda>c. c = CHR ''0'') (rev s)"
    by (metis takeWhile_dropWhile_id)
  then have "s = trim_end_matches (CHR ''0'') s @ replicate (length ?z) (CHR ''0'')"
    unfolding trim_end_matches_def by (metis rev_append rev_replicate rev_rev_ident)
  then show ?thesis by blast
qed

text \<open>The digits and exponent that \<open>decimal_digits\<close> finds denote the same number.\<close>

lemma decimal_digits_parts:
  assumes "decimal_parts w dot f ex k"
  shows "decimal_digits (decimal_text neg w dot f ex k) =
    (let al = w @ f; t = trim_start_matches (CHR ''0'') al in
     (if neg then ''-'' else [], trim_end_matches (CHR ''0'') t,
      int (length w) - 1 - int (length al - length t) + k))"
proof -
  define m where "m = w @ (if dot then ''.'' @ f else [])"
  define t where "t = m @ (if ex then ''e'' @ show_int k else [])"
  note p = assms [unfolded decimal_parts_def]
  have nodash: "strip_prefix ''-'' t = None"
    using p by (cases w) (auto simp: t_def m_def is_ascii_digit_def)
  have noe: "CHR ''e'' \<notin> set m" and nodot: "CHR ''.'' \<notin> set w" "CHR ''.'' \<notin> set f"
    using digit_neq [of w] digit_neq [of f] p by (auto simp: m_def)
  have mant: "(case split_once (CHR ''e'') t of Some p \<Rightarrow> p | None \<Rightarrow> (t, ''0''))
      = (m, if ex then show_int k else ''0'')"
    using split_once_append [OF noe, of "show_int k"] split_once_none [OF noe] by (simp add: t_def)
  have ep: "(case parse_i32 (if ex then show_int k else ''0'') of Some x \<Rightarrow> x | None \<Rightarrow> 0) = k"
  proof (cases ex)
    case False
    moreover have "parse_i32 ''0'' = Some 0" by code_simp
    ultimately show ?thesis using p by simp
  qed (use p in \<open>simp add: parse_i32_show\<close>)
  have fl: "filter (\<lambda>c. c \<noteq> CHR ''.'') m = w @ f"
  proof -
    have "filter (\<lambda>c. c \<noteq> CHR ''.'') w = w" "filter (\<lambda>c. c \<noteq> CHR ''.'') f = f"
      using nodot by (auto simp: filter_id_conv)
    with p show ?thesis by (auto simp: m_def)
  qed
  have pt: "(case find_char (CHR ''.'') m of Some i \<Rightarrow> i | None \<Rightarrow> length m) = length w"
    using nodot find_char_append [OF nodot(1), of f] find_char_none [OF nodot(1)] by (simp add: m_def)
  have "decimal_digits (if neg then ''-'' @ t else t) = (let al = w @ f; t = trim_start_matches (CHR ''0'') al in
     (if neg then ''-'' else [], trim_end_matches (CHR ''0'') t,
      int (length w) - 1 - int (length al - length t) + k))"
    using nodash by (cases neg) (simp_all add: decimal_digits_def Let_def mant ep fl pt)
  then show ?thesis by (cases neg) (simp_all add: decimal_text_def t_def m_def)
qed

lemma decimal_digits_value:
  assumes "decimal_parts w dot f ex k"
  obtains ds e where
    "decimal_digits (decimal_text neg w dot f ex k) = (if neg then ''-'' else [], ds, e)"
    "list_all is_ascii_digit ds" "ds \<noteq> []"
    "of_nat (dec_val ds) * 10 powi (e + 1 - int (length ds)) = dec_num w f k"
proof -
  note p = assms [unfolded decimal_parts_def]
  define al where "al = w @ f"
  define t where "t = trim_start_matches (CHR ''0'') al"
  define ds where "ds = trim_end_matches (CHR ''0'') t"
  define e where "e = int (length w) - 1 - int (length al - length t) + k"
  have "decimal_digits (decimal_text neg w dot f ex k) = (if neg then ''-'' else [], ds, e)"
    using decimal_digits_parts [OF assms, of neg] by (simp add: Let_def ds_def t_def e_def al_def)
  moreover have "list_all is_ascii_digit al" using p by (simp add: al_def)
  then have "list_all is_ascii_digit t"
    by (auto simp: t_def trim_start_matches_def list_all_iff dest: set_dropWhileD)
  then have "list_all is_ascii_digit ds"
    by (auto simp: ds_def trim_end_matches_def list_all_iff dest: set_dropWhileD)
  moreover obtain n where n: "t = ds @ replicate n (CHR ''0'')"
    using trim_end_zeros ds_def by metis
  have tv: "dec_val t = dec_val al" by (simp add: t_def trim_start_matches_def dropWhile_zeros)
  have "0 < dec_val al" using p by (simp add: al_def)
  with tv n have "ds \<noteq> []" by (metis append_Nil dec_val_zeros less_irrefl)
  moreover have "length t \<le> length al"
    by (simp add: t_def trim_start_matches_def length_dropWhile_le)
  then have ex: "e + 1 - int (length ds) = int n + (k - int (length f))"
    by (simp add: e_def al_def n)
  have "dec_val al = dec_val ds * 10 ^ n" using tv n by (simp add: dec_val_append)
  then have "of_nat (dec_val ds) * 10 powi (e + 1 - int (length ds)) = dec_num w f k"
    unfolding ex dec_num_def al_def by (simp add: power_int_add)
  ultimately show ?thesis using that by simp
qed

text \<open>The texts the layout can produce.\<close>

definition go_number :: "string \<Rightarrow> string \<Rightarrow> int \<Rightarrow> string \<Rightarrow> bool" where
  "go_number w f k s \<longleftrightarrow> w \<noteq> [] \<and> list_all is_ascii_digit w \<and> list_all is_ascii_digit f \<and>
     (\<exists>suffix. s = w @ (if f = [] then [] else ''.'' @ f) @ suffix \<and>
        (suffix = [] \<and> k = 0 \<or> suffix = ''e-'' @ show_int (- k) \<and> k < 0 \<or>
         suffix = ''e+'' @ show_02 k \<and> 0 \<le> k))"

lemma go_number_plain:
  "w \<noteq> [] \<Longrightarrow> list_all is_ascii_digit w \<Longrightarrow> list_all is_ascii_digit f \<Longrightarrow>
   s = w @ (if f = [] then [] else ''.'' @ f) \<Longrightarrow> go_number w f 0 s"
  by (auto simp: go_number_def)

lemma plain_decimal_value:
  assumes "list_all is_ascii_digit ds" "ds \<noteq> []"
  shows "\<exists>w f. go_number w f 0 (plain_decimal ds e) \<and>
    dec_num w f 0 = of_nat (dec_val ds) * 10 powi (e + 1 - int (length ds))"
proof -
  have z: "list_all is_ascii_digit (replicate n (CHR ''0''))" for n
    by (simp add: list_all_iff is_ascii_digit_def)
  consider "e < 0" | "0 \<le> e" "length ds \<le> nat e + 1" | "0 \<le> e" "nat e + 1 < length ds" by linarith
  then show ?thesis
  proof cases
    case 1
    let ?f = "replicate (nat (- e - 1)) (CHR ''0'') @ ds"
    have "go_number ''0'' ?f 0 (plain_decimal ds e)"
      using 1 assms z by (intro go_number_plain) (auto simp: plain_decimal_def is_ascii_digit_def)
    moreover have "dec_val (''0'' @ ?f) = dec_val ds"
      using dropWhile_zeros [of "''0'' @ ?f"] dropWhile_zeros [of ?f] by (simp add: dec_val_append)
    then have "dec_num ''0'' ?f 0 = of_nat (dec_val ds) * 10 powi (e + 1 - int (length ds))"
      unfolding dec_num_def using 1 by (simp add: algebra_simps)
    ultimately show ?thesis by blast
  next
    case 2
    let ?w = "ds @ replicate (nat e + 1 - length ds) (CHR ''0'')"
    have "go_number ?w [] 0 (plain_decimal ds e)"
      using 2 assms z by (intro go_number_plain) (auto simp: plain_decimal_def Let_def)
    moreover have ex: "e + 1 - int (length ds) = int (nat e + 1 - length ds)" using 2 by linarith
    have "dec_num ?w [] 0 = of_nat (dec_val ds) * 10 powi (e + 1 - int (length ds))"
      unfolding ex by (simp add: dec_num_def dec_val_append)
    ultimately show ?thesis by blast
  next
    case 3
    let ?n = "nat e + 1"
    have "set (take ?n ds) \<subseteq> set ds" "set (drop ?n ds) \<subseteq> set ds"
      by (rule set_take_subset set_drop_subset)+
    with 3 assms have "go_number (take ?n ds) (drop ?n ds) 0 (plain_decimal ds e)"
      by (intro go_number_plain) (auto simp: plain_decimal_def Let_def list_all_iff)
    moreover have "e + 1 - int (length ds) = 0 - int (length (drop ?n ds))" using 3 by simp
    then have "dec_num (take ?n ds) (drop ?n ds) 0 = of_nat (dec_val ds) * 10 powi (e + 1 - int (length ds))"
      unfolding dec_num_def append_take_drop_id by (simp only:)
    ultimately show ?thesis by blast
  qed
qed

lemma go_layout_value:
  assumes "list_all is_ascii_digit ds" "ds \<noteq> []"
  shows "\<exists>w f k. go_number w f k (go_layout a ds e) \<and>
    dec_num w f k = of_nat (dec_val ds) * 10 powi (e + 1 - int (length ds))"
proof (cases "f64_le (f64_of_rat (1 / 10 ^ 6)) a \<and> f64_less a (f64_of_rat (10 ^ 21))")
  case True
  then have "go_layout a ds e = plain_decimal ds e" unfolding go_layout_def by (rule if_P)
  moreover obtain w f where "go_number w f 0 (plain_decimal ds e)"
      "dec_num w f 0 = of_nat (dec_val ds) * 10 powi (e + 1 - int (length ds))"
    using plain_decimal_value [OF assms] by blast
  ultimately show ?thesis by (intro exI [of _ w] exI [of _ f] exI [of _ 0]) simp
next
  case False
  obtain c cs where ds: "ds = c # cs" using assms(2) by (cases ds) auto
  have "dec_num [c] cs e = of_nat (dec_val ds) * 10 powi (e + 1 - int (length ds))"
    by (simp add: dec_num_def ds)
  moreover have "go_layout a ds e = (if cs = [] then [c] else c # ''.'' @ cs) @
      (if e < 0 then ''e-'' @ show_int (- e) else ''e+'' @ show_02 e)"
    unfolding go_layout_def using False by (simp only: if_False) (simp add: ds)
  then have "go_number [c] cs e (go_layout a ds e)"
    using assms(1) unfolding go_number_def ds by auto
  ultimately show ?thesis by blast
qed

lemma go_json_float_value:
  assumes "ryu_ok ryu" "json_f64 x"
  obtains neg w f k s where "go_json_float ryu x = (if neg then ''-'' else []) @ s" "go_number w f k s"
    "x = signed_value neg (dec_num w f k)"
proof (cases "f64_eq x (f64_of_rat 0)")
  case True
  then have x: "x = Fin True 0 \<or> x = Fin False 0"
    by (cases x) (auto simp: signed_def split: if_splits)
  have "go_number ''0'' [] 0 ''0''" by (simp add: go_number_def is_ascii_digit_def)
  moreover have "x = signed_value (x = Fin True 0) (dec_num ''0'' [] 0)"
    using x by (auto simp: signed_value_def dec_num_def dec_val_def digit_val_def)
  ultimately show ?thesis using that [of "x = Fin True 0" "''0''" "''0''" "[]" 0] True
    by (simp add: go_json_float_def)
next
  case False
  obtain neg w dot f ex k where r: "ryu x = decimal_text neg w dot f ex k" "decimal_parts w dot f ex k"
      "x = signed_value neg (dec_num w f k)"
    using assms False unfolding ryu_ok_def ryu_text_def by blast
  obtain ds e where d: "decimal_digits (ryu x) = (if neg then ''-'' else [], ds, e)"
    "list_all is_ascii_digit ds" "ds \<noteq> []" "of_nat (dec_val ds) * 10 powi (e + 1 - int (length ds)) = dec_num w f k"
    using decimal_digits_value [OF r(2), of neg] r(1) by metis
  obtain w' f' k' where g: "go_number w' f' k' (go_layout (f64_abs x) ds e)"
      "dec_num w' f' k' = of_nat (dec_val ds) * 10 powi (e + 1 - int (length ds))"
    using go_layout_value [OF d(2,3)] by blast
  have "go_json_float ryu x = (if neg then ''-'' else []) @ go_layout (f64_abs x) ds e"
    using False d(1) by (simp add: go_json_float_def)
  moreover have "x = signed_value neg (dec_num w' f' k')"
    using g(2) d(4) r(3) by simp
  ultimately show ?thesis using that g(1) by blast
qed

text \<open>The text of a number can be taken apart in one way only.\<close>

lemma take_digits:
  "list_all is_ascii_digit a \<Longrightarrow> r = [] \<or> \<not> is_ascii_digit (hd r) \<Longrightarrow> takeWhile is_ascii_digit (a @ r) = a"
  by (cases r) (auto simp: takeWhile_append2 list_all_iff)

lemma show_int_nonneg_inject: "0 \<le> a \<Longrightarrow> 0 \<le> b \<Longrightarrow> show_int a = show_int b \<Longrightarrow> a = b"
  by (metis dec_val_show_nat linorder_not_less nat_eq_iff2 show_int_def)

lemma show_02_inject: "0 \<le> a \<Longrightarrow> 0 \<le> b \<Longrightarrow> show_02 a = show_02 b \<Longrightarrow> a = b"
proof -
  assume ab: "0 \<le> a" "0 \<le> b" "show_02 a = show_02 b"
  have "dec_val (show_02 c) = nat c" if "0 \<le> c" for c
  proof -
    have "dec_val (''0'' @ show_nat (nat c)) = nat c"
      unfolding dec_val_append dec_val_show_nat by (simp add: dec_val_def digit_val_def)
    with that show ?thesis by (simp add: show_02_def show_int_def)
  qed
  with ab show "a = b" by (metis nat_eq_iff2)
qed

lemma go_number_unique:
  assumes "go_number w f k s" "go_number w' f' k' s"
  shows "w = w' \<and> f = f' \<and> k = k'"
proof -
  define suf where "suf k x \<longleftrightarrow> x = [] \<and> k = 0 \<or> x = ''e-'' @ show_int (- k) \<and> k < 0 \<or>
      x = ''e+'' @ show_02 k \<and> 0 \<le> k" for k x
  obtain x y where s: "s = w @ (if f = [] then [] else ''.'' @ f) @ x" "suf k x"
      "s = w' @ (if f' = [] then [] else ''.'' @ f') @ y" "suf k' y"
    using assms unfolding go_number_def suf_def by blast
  have d: "list_all is_ascii_digit w" "list_all is_ascii_digit f" "list_all is_ascii_digit w'" "list_all is_ascii_digit f'"
    using assms by (simp_all add: go_number_def)
  have h: "q = [] \<or> \<not> is_ascii_digit (hd q)" "q = [] \<or> hd q = CHR ''e''" if "suf j q" for j q
    using that by (auto simp: suf_def is_ascii_digit_def)
  have h': "(if g = [] then [] else ''.'' @ g) @ q = [] \<or> \<not> is_ascii_digit (hd ((if g = [] then [] else ''.'' @ g) @ q))"
    if "suf j q" for g j q
    using h [OF that] by (auto simp: is_ascii_digit_def)
  have w: "w = w'" using take_digits [OF d(1) h' [OF s(2)]] take_digits [OF d(3) h' [OF s(4)]] s(1,3) by metis
  then have r: "(if f = [] then [] else ''.'' @ f) @ x = (if f' = [] then [] else ''.'' @ f') @ y"
    using s by simp
  have f: "f = f' \<and> x = y"
  proof (cases "f = []"; cases "f' = []")
    assume "f \<noteq> []" "f' \<noteq> []"
    with r have fx: "f @ x = f' @ y" by simp
    then have "f = f'" using take_digits [OF d(2) h(1) [OF s(2)]] take_digits [OF d(4) h(1) [OF s(4)]] by metis
    with fx show ?thesis by simp
  qed (use r h(2) [OF s(2)] h(2) [OF s(4)] in auto)
  have "k = k'"
    using s(2,4) f show_02_inject [of k k'] show_int_nonneg_inject [of "- k" "- k'"]
    by (auto simp: suf_def)
  with w f show ?thesis by simp
qed

lemma go_number_hd: "go_number w f k s \<Longrightarrow> s \<noteq> [] \<and> hd s \<noteq> CHR ''-''"
  by (cases w) (auto simp: go_number_def is_ascii_digit_def)

lemma go_json_float_inject:
  assumes "ryu_ok ryu" "json_f64 x" "json_f64 y" "go_json_float ryu x = go_json_float ryu y"
  shows "x = y"
proof -
  obtain neg w f k s where x: "go_json_float ryu x = (if neg then ''-'' else []) @ s" "go_number w f k s"
      "x = signed_value neg (dec_num w f k)"
    using go_json_float_value [OF assms(1,2)] .
  obtain neg' w' f' k' s' where y: "go_json_float ryu y = (if neg' then ''-'' else []) @ s'" "go_number w' f' k' s'"
      "y = signed_value neg' (dec_num w' f' k')"
    using go_json_float_value [OF assms(1,3)] .
  have "neg = neg' \<and> s = s'"
    using assms(4) go_number_hd [OF x(2)] go_number_hd [OF y(2)]
    unfolding x(1) y(1) by (cases neg; cases neg') auto
  with x y go_number_unique [of w f k s w' f' k'] show ?thesis by simp
qed

definition num_char :: "char \<Rightarrow> bool" where
  "num_char c \<longleftrightarrow> is_ascii_digit c \<or> c \<in> {CHR ''+'', CHR ''-'', CHR ''.'', CHR ''e''}"

lemma not_num_char:
  "\<not> num_char (CHR '','')" "\<not> num_char (CHR '']'')" "\<not> num_char (CHR ''}'')" "\<not> num_char (CHR ''n'')"
  "\<not> num_char (CHR ''t'')" "\<not> num_char (CHR ''f'')" "\<not> num_char (CHR 0x22)" "\<not> num_char (CHR ''['')"
  "\<not> num_char (CHR ''{'')"
  by (simp_all add: num_char_def is_ascii_digit_def)

lemma go_json_float_chars:
  assumes "ryu_ok ryu" "json_f64 x"
  shows "go_json_float ryu x \<noteq> [] \<and> list_all num_char (go_json_float ryu x)"
proof -
  obtain neg w f k s where x: "go_json_float ryu x = (if neg then ''-'' else []) @ s" "go_number w f k s"
    by (rule go_json_float_value [OF assms])
  have dig: "list_all num_char a" if "list_all is_ascii_digit a" for a
    using that by (simp add: list_all_iff num_char_def)
  have "list_all num_char (show_int j)" "list_all num_char (show_02 j)" if "0 \<le> j" for j
    using that dig show_nat_digits [of "nat j"]
    by (auto simp: show_int_def show_02_def num_char_def is_ascii_digit_def)
  with x(2) have "list_all num_char s"
    unfolding go_number_def by (auto simp: dig) (auto simp: num_char_def)
  then show ?thesis using x(1) go_number_hd [OF x(2)] by (auto simp: num_char_def)
qed

section \<open>Reading strings back\<close>

text \<open>A reader of JSON strings, after the opening quote: the string and what follows it.\<close>

definition hex_val :: "char \<Rightarrow> nat" where
  "hex_val c = (let n = (of_char c :: nat) in if n < 58 then n - 48 else n - 87)"

definition utf8 :: "nat \<Rightarrow> string" where
  "utf8 n = (if n < 0x80 then [char_of n]
     else if n < 0x800 then [char_of (0xC0 + n div 64), char_of (0x80 + n mod 64)]
     else [char_of (0xE0 + n div 4096), char_of (0x80 + n div 64 mod 64), char_of (0x80 + n mod 64)])"

definition short_escape :: "char \<Rightarrow> char" where
  "short_escape e = (if e = CHR ''b'' then CHR 0x08 else if e = CHR ''f'' then CHR 0x0C
     else if e = CHR ''n'' then CHR 0x0A else if e = CHR ''r'' then CHR 0x0D
     else if e = CHR ''t'' then CHR 0x09 else e)"

fun hex4_val :: "string \<Rightarrow> nat" where
  "hex4_val s = foldl (\<lambda>a c. 16 * a + hex_val c) 0 (take 4 s)"

function read_chars :: "string \<Rightarrow> (string \<times> string) option" where
  "read_chars s =
     (case s of [] \<Rightarrow> None
      | c # r \<Rightarrow>
          if c = CHR 0x22 then Some ([], r)
          else if c = CHR 0x5C then
            (case r of [] \<Rightarrow> None
             | e # r' \<Rightarrow>
                 if e = CHR ''u'' then map_option (\<lambda>(t, q). (utf8 (hex4_val r') @ t, q)) (read_chars (drop 4 r'))
                 else map_option (\<lambda>(t, q). (short_escape e # t, q)) (read_chars r'))
          else map_option (\<lambda>(t, q). (c # t, q)) (read_chars r))"
  by pat_completeness auto
termination by (relation "measure length") auto

declare read_chars.simps [simp del]

lemma hex_val_digit: "d < 16 \<Longrightarrow> hex_val (hex_digit d) = d"
  by (auto simp: hex_val_def hex_digit_def)

lemma hex4_val_u:
  assumes "n < 65536" shows "hex4_val (drop 2 (u_escape n) @ t) = n"
proof -
  have "n div 16 div 16 = n div 256" "n div 256 div 16 = n div 4096" by (simp_all flip: div_mult2_eq)
  then have "16 * (n div 16) + n mod 16 = n" "16 * (n div 256) + n div 16 mod 16 = n div 16"
      "16 * (n div 4096) + n div 256 mod 16 = n div 256"
    by (metis mult_div_mod_eq)+
  moreover have "n div 4096 mod 16 = n div 4096"
    using assms by (simp add: div_less_iff_less_mult)
  moreover have "n div 4096 < 16" using assms by (simp add: div_less_iff_less_mult)
  ultimately show ?thesis by (simp add: u_escape_def hex_val_digit)
qed

lemma read_u_escape:
  "n < 65536 \<Longrightarrow> read_chars (u_escape n @ t) = map_option (\<lambda>(a, q). (utf8 n @ a, q)) (read_chars t)"
  using hex4_val_u [of n t]
  by (subst read_chars.simps) (simp add: u_escape_def del: hex4_val.simps)

lemma utf8_ascii: "(of_char c :: nat) < 128 \<Longrightarrow> utf8 (of_char c) = [c]"
  by (simp add: utf8_def)

lemma read_escape_ascii:
  "read_chars (escape_ascii c @ t) = map_option (\<lambda>(a, q). (c # a, q)) (read_chars t)"
proof (cases "c \<in> {CHR 0x22, CHR 0x5C, CHR 0x08, CHR 0x0C, CHR 0x0A, CHR 0x0D, CHR 0x09}")
  case True
  have "read_chars (CHR 0x5C # e # t) = map_option (\<lambda>(a, q). (short_escape e # a, q)) (read_chars t)"
    if "e \<noteq> CHR ''u''" for e
    using that by (subst read_chars.simps) simp
  with True show ?thesis by (auto simp: escape_ascii_def short_escape_def)
next
  case short: False
  show ?thesis
  proof (cases "c \<in> {CHR ''<'', CHR ''>'', CHR ''&''} \<or> (of_char c :: nat) < 32")
    case True
    then have lt: "(of_char c :: nat) < 128" by auto
    have "escape_ascii c = u_escape (of_char c)" using True short by (auto simp: escape_ascii_def)
    with lt show ?thesis by (simp add: read_u_escape utf8_ascii)
  next
    case False
    with short have "escape_ascii c = [c]" by (simp add: escape_ascii_def)
    with short show ?thesis by (subst read_chars.simps) simp
  qed
qed

lemma char_of_bytes:
  "char_of (0xE2 :: nat) = CHR 0xE2" "char_of (0x80 :: nat) = CHR 0x80"
  "char_of (0xA8 :: nat) = CHR 0xA8" "char_of (0xA9 :: nat) = CHR 0xA9"
  using char_of_char [of "CHR 0xE2", where 'a = nat] char_of_char [of "CHR 0x80", where 'a = nat]
    char_of_char [of "CHR 0xA8", where 'a = nat] char_of_char [of "CHR 0xA9", where 'a = nat]
  by simp_all

lemma utf8_separators:
  "utf8 0x2028 = [CHR 0xE2, CHR 0x80, CHR 0xA8]" "utf8 0x2029 = [CHR 0xE2, CHR 0x80, CHR 0xA9]"
  using char_of_bytes by (simp_all add: utf8_def)

lemma read_escape_chars: "read_chars (escape_chars s @ CHR 0x22 # r) = Some (s, r)"
proof (induction s rule: escape_chars.induct)
  case 1
  then show ?case by (simp add: read_chars.simps)
next
  case (2 c s)
  consider (ls) t where "c # s = [CHR 0xE2, CHR 0x80, CHR 0xA8] @ t"
    | (ps) t where "c # s = [CHR 0xE2, CHR 0x80, CHR 0xA9] @ t"
    | (other) "strip_any [[CHR 0xE2, CHR 0x80, CHR 0xA8]] (c # s) = None"
        "strip_any [[CHR 0xE2, CHR 0x80, CHR 0xA9]] (c # s) = None"
    by (cases "strip_any [[CHR 0xE2, CHR 0x80, CHR 0xA8]] (c # s)";
        cases "strip_any [[CHR 0xE2, CHR 0x80, CHR 0xA9]] (c # s)")
      (auto simp: strip_prefix_Some simp del: strip_prefix.simps split: option.splits)
  then show ?case
  proof cases
    case ls
    then have "strip_any [[CHR 0xE2, CHR 0x80, CHR 0xA8]] (c # s) = Some t" "drop 2 s = t" by auto
    then have "read_chars (escape_chars t @ CHR 0x22 # r) = Some (t, r)" using 2(3) by blast
    with ls show ?thesis by (simp add: read_u_escape utf8_separators)
  next
    case ps
    then have "strip_any [[CHR 0xE2, CHR 0x80, CHR 0xA8]] (c # s) = None"
        "strip_any [[CHR 0xE2, CHR 0x80, CHR 0xA9]] (c # s) = Some t" "drop 2 s = t" by auto
    then have "read_chars (escape_chars t @ CHR 0x22 # r) = Some (t, r)" using 2(2) by blast
    with ps show ?thesis by (simp add: read_u_escape utf8_separators)
  next
    case other
    then show ?thesis using 2(1) by (simp add: read_escape_ascii)
  qed
qed

lemma go_string_unique:
  "write_go_json_string s @ r = write_go_json_string t @ q \<Longrightarrow> s = t \<and> r = q"
proof -
  assume "write_go_json_string s @ r = write_go_json_string t @ q"
  then have "escape_chars s @ CHR 0x22 # r = escape_chars t @ CHR 0x22 # q"
    by (simp add: write_go_json_string_def)
  then have "Some (s, r) = Some (t, q)" by (metis read_escape_chars)
  then show ?thesis by simp
qed

section \<open>What a signed value means\<close>

text \<open>
  The content of a JSON value: numbers as the doubles that Go reads them as. The content determines
  the text, and the lemmas below show that the text determines the content.
\<close>

datatype wire = WNull | WBool bool | WNum f64 | WStr string | WArr "wire list" | WObj "(string \<times> wire) list"

fun wire_of :: "json \<Rightarrow> wire" where
  "wire_of JNull = WNull"
| "wire_of (JBool b) = WBool b"
| "wire_of (JNum n) = WNum (the (as_f64 n))"
| "wire_of (JStr s) = WStr s"
| "wire_of (JArr xs) = WArr (map (wire_of) xs)"
| "wire_of (JObj m) = WObj (map (\<lambda>(k, v). (k, wire_of v)) m)"

text \<open>Every part after the first is preceded by a comma.\<close>

fun commas :: "string list \<Rightarrow> string" where
  "commas [] = []"
| "commas (p # ps) = p @ concat (map ((#) (CHR '','')) ps)"

fun print_wire :: "(f64 \<Rightarrow> string) \<Rightarrow> wire \<Rightarrow> string" where
  "print_wire ryu WNull = ''null''"
| "print_wire ryu (WBool b) = (if b then ''true'' else ''false'')"
| "print_wire ryu (WNum x) = go_json_float ryu x"
| "print_wire ryu (WStr s) = write_go_json_string s"
| "print_wire ryu (WArr xs) = ''['' @ commas (map (print_wire ryu) xs) @ '']''"
| "print_wire ryu (WObj m) = ''{'' @ commas (map (\<lambda>(k, v). write_go_json_string k @ '':'' @ print_wire ryu v) m) @ ''}''"

lemma as_f64_Some: "\<exists>f. as_f64 n = Some f"
  by (cases n) auto

lemma write_value_print:
  "write_go_json_value ryu v = Inr (print_wire ryu (wire_of v))"
  "write_go_json_items ryu first xs =
     Inr (if first then commas (map (print_wire ryu \<circ> wire_of) xs)
          else concat (map ((#) (CHR '','')) (map (print_wire ryu \<circ> wire_of) xs)))"
  "write_go_json_fields ryu first m =
     Inr (let ps = map (\<lambda>(k, v). write_go_json_string k @ '':'' @ print_wire ryu (wire_of v)) m in
          if first then commas ps else concat (map ((#) (CHR '','')) ps))"
proof (induction ryu v and ryu first xs and ryu first m
    rule: write_go_json_value_write_go_json_items_write_go_json_fields.induct)
  case (3 ryu n)
  obtain f where "as_f64 n = Some f" using as_f64_Some by blast
  then show ?case by simp
next
  case (6 ryu m)
  have "(\<lambda>(k, v). write_go_json_string k @ '':'' @ print_wire ryu v) \<circ> (\<lambda>(k, v). (k, wire_of v))
      = (\<lambda>(k, v). write_go_json_string k @ '':'' @ print_wire ryu (wire_of v))" by auto
  then show ?case using 6 by (simp add: Let_def)
qed (simp_all add: Let_def)

fun wire_ok :: "wire \<Rightarrow> bool" where
  "wire_ok (WNum x) \<longleftrightarrow> json_f64 x"
| "wire_ok (WArr xs) \<longleftrightarrow> list_all wire_ok xs"
| "wire_ok (WObj m) \<longleftrightarrow> list_all (\<lambda>(_, v). wire_ok v) m"
| "wire_ok _ \<longleftrightarrow> True"

text \<open>What may follow a value.\<close>

definition delim :: "string \<Rightarrow> bool" where
  "delim r \<longleftrightarrow> r = [] \<or> hd r \<in> {CHR '','', CHR '']'', CHR ''}''}"

text \<open>A part that can be told from every other and from what follows it.\<close>

definition parts_unique :: "('a \<Rightarrow> string) \<Rightarrow> 'a \<Rightarrow> 'a \<Rightarrow> bool" where
  "parts_unique enc x y \<longleftrightarrow>
     (\<forall>r t. delim r \<longrightarrow> delim t \<longrightarrow> enc x @ r = enc y @ t \<longrightarrow> x = y \<and> r = t)"

definition not_end :: "string \<Rightarrow> bool" where
  "not_end s \<longleftrightarrow> s \<noteq> [] \<and> hd s \<notin> {CHR '','', CHR '']'', CHR ''}''}"

lemma commas_tail_unique:
  assumes "\<forall>x \<in> set xs. \<forall>y \<in> set ys. parts_unique enc x y" "e \<in> {CHR '']'', CHR ''}''}"
    and "concat (map ((#) (CHR '','')) (map enc xs)) @ e # r = concat (map ((#) (CHR '','')) (map enc ys)) @ e # t"
  shows "xs = ys \<and> r = t"
  using assms
proof (induction xs arbitrary: ys)
  case Nil
  then show ?case by (cases ys) auto
next
  case (Cons x xs)
  then obtain y ys' where ys: "ys = y # ys'" by (cases ys) auto
  have d: "delim (concat (map ((#) (CHR '','')) (map enc zs)) @ e # q)" for zs q
    using Cons.prems(2) by (cases zs) (auto simp: delim_def)
  have "parts_unique enc x y" using Cons.prems(1) ys by simp
  moreover have "enc x @ (concat (map ((#) (CHR '','')) (map enc xs)) @ e # r)
      = enc y @ (concat (map ((#) (CHR '','')) (map enc ys')) @ e # t)"
    using Cons.prems(3) ys by simp
  ultimately have "x = y" "concat (map ((#) (CHR '','')) (map enc xs)) @ e # r
      = concat (map ((#) (CHR '','')) (map enc ys')) @ e # t"
    using d unfolding parts_unique_def by blast+
  with Cons.IH [of ys'] Cons.prems ys show ?case by simp
qed

lemma commas_not_end:
  "not_end (enc x) \<Longrightarrow> e \<in> {CHR '']'', CHR ''}''} \<Longrightarrow> commas (map enc (x # xs)) @ r \<noteq> e # t"
  by (cases "enc x") (auto simp: not_end_def)

lemma commas_unique:
  assumes "\<forall>x \<in> set xs. \<forall>y \<in> set ys. parts_unique enc x y" "e \<in> {CHR '']'', CHR ''}''}"
    and "\<forall>x \<in> set xs. not_end (enc x)" "\<forall>y \<in> set ys. not_end (enc y)"
    and "commas (map enc xs) @ e # r = commas (map enc ys) @ e # t"
  shows "xs = ys \<and> r = t"
proof (cases xs; cases ys)
  fix x xs' y ys' assume xy: "xs = x # xs'" "ys = y # ys'"
  have d: "delim (concat (map ((#) (CHR '','')) (map enc zs)) @ e # q)" for zs q
    using assms(2) by (cases zs) (auto simp: delim_def)
  have "enc x @ (concat (map ((#) (CHR '','')) (map enc xs')) @ e # r)
      = enc y @ (concat (map ((#) (CHR '','')) (map enc ys')) @ e # t)"
    using assms(5) xy by simp
  then have "x = y \<and> concat (map ((#) (CHR '','')) (map enc xs')) @ e # r
      = concat (map ((#) (CHR '','')) (map enc ys')) @ e # t"
    using assms(1) xy d unfolding parts_unique_def by (metis list.set_intros(1))
  then show ?thesis using commas_tail_unique [of xs' ys' enc e r t] assms(1,2) xy by simp
next
  fix y ys' assume "xs = []" "ys = y # ys'"
  then show ?thesis using assms(2,4,5) commas_not_end [of enc y e ys' "e # t" r] by simp
next
  fix x xs' assume "xs = x # xs'" "ys = []"
  then show ?thesis using assms(2,3,5) commas_not_end [of enc x e xs' "e # r" t] by simp
qed (use assms in simp_all)

lemma num_prefix_unique:
  assumes "list_all num_char a" "list_all num_char b" "delim r" "delim t" "a @ r = b @ t"
  shows "a = b \<and> r = t"
proof -
  have "takeWhile num_char (x @ q) = x" if "list_all num_char x" "delim q" for x q
    using that not_num_char by (cases q) (auto simp: delim_def list_all_iff takeWhile_append2)
  with assms have "a = b" by metis
  with assms show ?thesis by simp
qed

lemma go_string_hd: "write_go_json_string s = CHR 0x22 # escape_chars s @ [CHR 0x22]"
  by (simp add: write_go_json_string_def)

text \<open>The first character tells the kind of a value.\<close>

fun head_of :: "wire \<Rightarrow> char \<Rightarrow> bool" where
  "head_of WNull c \<longleftrightarrow> c = CHR ''n''"
| "head_of (WBool b) c \<longleftrightarrow> c = (if b then CHR ''t'' else CHR ''f'')"
| "head_of (WNum s) c \<longleftrightarrow> num_char c"
| "head_of (WStr s) c \<longleftrightarrow> c = CHR 0x22"
| "head_of (WArr xs) c \<longleftrightarrow> c = CHR ''[''"
| "head_of (WObj m) c \<longleftrightarrow> c = CHR ''{''"

lemma print_head:
  assumes "ryu_ok ryu" "wire_ok v"
  shows "\<exists>c s. print_wire ryu v = c # s \<and> head_of v c"
proof (cases v)
  case (WNum x)
  then show ?thesis using go_json_float_chars [of ryu x] assms by (cases "go_json_float ryu x") auto
qed (simp_all add: go_string_hd)

lemma head_not_end: "head_of v c \<Longrightarrow> c \<notin> {CHR '','', CHR '']'', CHR ''}''}"
  using not_num_char by (cases v) auto

lemma print_not_end: "ryu_ok ryu \<Longrightarrow> wire_ok v \<Longrightarrow> not_end (print_wire ryu v)"
  using print_head [of ryu v] head_not_end [of v] by (auto simp: not_end_def)

fun kind_of :: "wire \<Rightarrow> nat" where
  "kind_of WNull = 0"
| "kind_of (WBool b) = (if b then 1 else 2)"
| "kind_of (WNum s) = 3"
| "kind_of (WStr s) = 4"
| "kind_of (WArr xs) = 5"
| "kind_of (WObj m) = 6"

lemma head_kind: "head_of v c \<Longrightarrow> head_of w c \<Longrightarrow> kind_of v = kind_of w"
  using not_num_char by (cases v; cases w) (auto split: if_splits)

lemma print_kind:
  assumes "ryu_ok ryu" "wire_ok v" "wire_ok w" "print_wire ryu v @ r = print_wire ryu w @ t"
  shows "kind_of v = kind_of w"
proof -
  obtain c s d u where "print_wire ryu v = c # s" "head_of v c" "print_wire ryu w = d # u" "head_of w d"
    using print_head [OF assms(1,2)] print_head [OF assms(1,3)] by blast
  with assms(4) show ?thesis by (auto intro: head_kind)
qed

lemma parts_uniqueI:
  assumes "ryu_ok ryu" "wire_ok v" "wire_ok w"
    and "\<And>r t. kind_of v = kind_of w \<Longrightarrow> delim r \<Longrightarrow> delim t \<Longrightarrow> print_wire ryu v @ r = print_wire ryu w @ t \<Longrightarrow> v = w \<and> r = t"
  shows "parts_unique (print_wire ryu) v w"
  using assms print_kind unfolding parts_unique_def by blast

lemma field_unique:
  assumes "parts_unique (print_wire ryu) a b"
  shows "parts_unique (\<lambda>(k, v). write_go_json_string k @ '':'' @ print_wire ryu v) (k, a) (l, b)"
  unfolding parts_unique_def
proof (intro allI impI)
  fix r t assume d: "delim r" "delim t" and "(\<lambda>(k, v). write_go_json_string k @ '':'' @ print_wire ryu v) (k, a) @ r
      = (\<lambda>(k, v). write_go_json_string k @ '':'' @ print_wire ryu v) (l, b) @ t"
  then have "write_go_json_string k @ ('':'' @ print_wire ryu a @ r) = write_go_json_string l @ ('':'' @ print_wire ryu b @ t)"
    by simp
  from go_string_unique [OF this] have "k = l" "print_wire ryu a @ r = print_wire ryu b @ t" by simp_all
  with assms d show "(k, a) = (l, b) \<and> r = t" unfolding parts_unique_def by simp
qed

lemma print_wire_unique:
  assumes "ryu_ok ryu" shows "wire_ok v \<Longrightarrow> wire_ok w \<Longrightarrow> parts_unique (print_wire ryu) v w"
proof (induction v arbitrary: w)
  case (WArr xs)
  show ?case
  proof (rule parts_uniqueI [OF assms WArr.prems])
    fix r t assume eq: "kind_of (WArr xs) = kind_of w" "print_wire ryu (WArr xs) @ r = print_wire ryu w @ t"
    then obtain ys where w: "w = WArr ys" by (cases w) (auto split: if_splits)
    then have "commas (map (print_wire ryu) xs) @ CHR '']'' # r = commas (map (print_wire ryu) ys) @ CHR '']'' # t"
      using eq by simp
    then show "WArr xs = w \<and> r = t"
      using commas_unique [of xs ys "print_wire ryu" "CHR '']''" r t] WArr w
      by (simp add: list_all_iff print_not_end assms)
  qed
next
  case (WObj m)
  let ?enc = "\<lambda>(k, v). write_go_json_string k @ '':'' @ print_wire ryu v"
  show ?case
  proof (rule parts_uniqueI [OF assms WObj.prems])
    fix r t assume eq: "kind_of (WObj m) = kind_of w" "print_wire ryu (WObj m) @ r = print_wire ryu w @ t"
    then obtain n where w: "w = WObj n" by (cases w) (auto split: if_splits)
    have "parts_unique ?enc x y" if xy: "x \<in> set m" "y \<in> set n" for x y
    proof -
      obtain k a l b where kv: "x = (k, a)" "y = (l, b)" by (cases x; cases y) auto
      have "parts_unique (print_wire ryu) a b"
        using WObj.IH [OF xy(1), of a b] WObj.prems xy w kv by (auto simp: list_all_iff)
      then show ?thesis using field_unique kv by simp
    qed
    moreover have "not_end (?enc x)" for x
      by (cases x) (simp add: not_end_def go_string_hd)
    moreover have "commas (map ?enc m) @ CHR ''}'' # r = commas (map ?enc n) @ CHR ''}'' # t"
      using eq w by simp
    ultimately show "WObj m = w \<and> r = t"
      using commas_unique [of m n ?enc "CHR ''}''" r t] w by simp
  qed
next
  case (WNum x)
  show ?case
  proof (rule parts_uniqueI [OF assms WNum.prems])
    fix r t assume eq: "kind_of (WNum x) = kind_of w" "delim r" "delim t" "print_wire ryu (WNum x) @ r = print_wire ryu w @ t"
    then obtain y where w: "w = WNum y" by (cases w) (auto split: if_splits)
    have "go_json_float ryu x = go_json_float ryu y \<and> r = t"
      using eq w WNum.prems go_json_float_chars [OF assms]
      by (intro num_prefix_unique) auto
    with w WNum.prems go_json_float_inject [OF assms, of x y] show "WNum x = w \<and> r = t" by simp
  qed
next
  case (WStr s)
  show ?case
  proof (rule parts_uniqueI [OF assms WStr.prems])
    fix r t assume eq: "kind_of (WStr s) = kind_of w" "print_wire ryu (WStr s) @ r = print_wire ryu w @ t"
    then obtain s' where "w = WStr s'" by (cases w) (auto split: if_splits)
    with eq go_string_unique [of s r s' t] show "WStr s = w \<and> r = t" by simp
  qed
next
  case WNull
  show ?case by (rule parts_uniqueI [OF assms WNull.prems], cases w) (auto split: if_splits)
next
  case (WBool b)
  show ?case by (rule parts_uniqueI [OF assms WBool.prems], cases w) (auto split: if_splits)
qed

section \<open>Circuits\<close>

definition gate_content :: "gate \<Rightarrow> string \<times> wire" where
  "gate_content g = (gate_type g, wire_of (gate_params g))"

definition print_gate :: "(f64 \<Rightarrow> string) \<Rightarrow> string \<times> wire \<Rightarrow> string" where
  "print_gate ryu = (\<lambda>(t, w). ''{\"type\":'' @ write_go_json_string t @ '',\"params\":'' @ print_wire ryu w @ ''}'')"

lemma circuit_json_print:
  "circuit_json_from ryu first c =
     Inr (if first then commas (map (print_gate ryu \<circ> gate_content) c)
          else concat (map ((#) (CHR '','')) (map (print_gate ryu \<circ> gate_content) c)))"
  by (induction ryu first c rule: circuit_json_from.induct)
    (simp_all add: write_value_print print_gate_def gate_content_def)

lemma circuit_signing_json_print:
  "circuit_signing_json ryu c =
     Inr (as_bytes (''['' @ commas (map (print_gate ryu) (map gate_content c)) @ '']''))"
  by (simp add: circuit_signing_json_def circuit_json_print comp_def)

lemma print_gate_unique:
  assumes "ryu_ok ryu" "wire_ok (snd g)" "wire_ok (snd h)"
  shows "parts_unique (print_gate ryu) g h"
  unfolding parts_unique_def
proof (intro allI impI)
  fix r t assume d: "delim r" "delim t" and eq: "print_gate ryu g @ r = print_gate ryu h @ t"
  obtain k a l b where kv: "g = (k, a)" "h = (l, b)" by (cases g; cases h) auto
  have "write_go_json_string k @ ('',\"params\":'' @ print_wire ryu a @ ''}'' @ r)
      = write_go_json_string l @ ('',\"params\":'' @ print_wire ryu b @ ''}'' @ t)"
    using eq kv by (simp add: print_gate_def)
  from go_string_unique [OF this] have kl: "k = l"
    and ab: "print_wire ryu a @ (''}'' @ r) = print_wire ryu b @ (''}'' @ t)" by simp_all
  have "delim (''}'' @ q)" for q by (simp add: delim_def)
  with ab print_wire_unique [OF assms(1), of a b] assms(2,3) kv have "a = b \<and> ''}'' @ r = ''}'' @ t"
    unfolding parts_unique_def by (metis snd_conv)
  with kl kv show "g = h \<and> r = t" by simp
qed

text \<open>The numbers of a \<open>serde_json::Value\<close> are finite: JSON has no others.\<close>

definition circuit_ok :: "gate list \<Rightarrow> bool" where
  "circuit_ok c \<longleftrightarrow> list_all (\<lambda>g. wire_ok (wire_of (gate_params g))) c"

lemma circuit_text_unique:
  assumes "ryu_ok ryu" "circuit_ok c" "circuit_ok d"
    and "circuit_signing_json ryu c = circuit_signing_json ryu d"
  shows "map gate_content c = map gate_content d"
proof -
  let ?e = "print_gate ryu"
  have "commas (map ?e (map gate_content c)) @ CHR '']'' # [] = commas (map ?e (map gate_content d)) @ CHR '']'' # []"
    using assms(4) by (simp add: circuit_signing_json_print)
  moreover have "not_end (?e g)" for g by (cases g) (simp add: print_gate_def not_end_def)
  moreover have "\<forall>g \<in> set (map gate_content c). \<forall>h \<in> set (map gate_content d). parts_unique ?e g h"
    using assms(1-3) by (auto simp: circuit_ok_def list_all_iff gate_content_def intro!: print_gate_unique)
  ultimately show ?thesis
    using commas_unique [of "map gate_content c" "map gate_content d" ?e "CHR '']''" "[]" "[]"] by blast
qed

section \<open>Properties\<close>

text \<open>
  Property C24. The text signed for a circuit always exists and determines the circuit: two circuits
  with the same signed text have the same gates in the same order, with the same types and the same
  parameters, every number being the same double. No two different circuits share a signature.
\<close>

theorem circuit_text_determines_circuit:
  assumes "ryu_ok ryu" and "circuit_ok c" and "circuit_ok d"
  shows "is_ok (circuit_signing_json ryu c) \<and>
    (circuit_signing_json ryu c = circuit_signing_json ryu d \<longleftrightarrow> map gate_content c = map gate_content d)"
proof -
  have "is_ok (circuit_signing_json ryu c)" by (simp add: circuit_signing_json_print)
  moreover have "circuit_signing_json ryu c = circuit_signing_json ryu d" if "map gate_content c = map gate_content d"
    unfolding circuit_signing_json_print that ..
  ultimately show ?thesis using circuit_text_unique [OF assms] by blast
qed

text \<open>A formatter of the documented kind: all digits of the exact value.\<close>

definition exact_text :: "f64 \<Rightarrow> string" where
  "exact_text x = (case x of Fin s q \<Rightarrow> decimal_text s (show_nat (nat \<lfloor>q * 10 ^ 1074\<rfloor>)) False [] True (- 1074) | _ \<Rightarrow> [])"

lemma rnd_multiple: "\<exists>i :: int. rnd q * 2 ^ 1074 = of_int i"
proof -
  let ?u = "ulp_exp q"
  have u: "0 \<le> ?u + 1074" by (simp add: ulp_exp_def)
  have "2 powi ?u * 2 ^ n = (2 :: rat) powi (?u + int n)" for n
    by (simp add: power_int_add)
  from this [of 1074] have "2 powi ?u * 2 ^ 1074 = (2 :: rat) powi (?u + 1074)" unfolding of_nat_numeral .
  also have "\<dots> = of_int (2 ^ nat (?u + 1074))" using u by (simp add: power_int_def)
  finally have "rnd q * 2 ^ 1074 = of_int (rne (q / 2 powi ?u) * 2 ^ nat (?u + 1074))"
    unfolding rnd_def Let_def mult.assoc of_int_mult by (rule arg_cong)
  then show ?thesis by blast
qed

lemma scale_exact:
  fixes q :: rat
  assumes "0 < q" "q * 2 ^ n = of_int i"
  shows "dec_num (show_nat (nat \<lfloor>q * 10 ^ n\<rfloor>)) [] (- int n) = q"
proof -
  have "(10 :: rat) ^ n = 2 ^ n * 5 ^ n" by (simp flip: power_mult_distrib)
  then have t: "q * 10 ^ n = of_int (i * 5 ^ n)" using assms(2) by (simp flip: assms(2))
  have "0 < q * 10 ^ n" using assms(1) by simp
  then have "0 < i * 5 ^ n" unfolding t by (simp only: of_int_0_less_iff)
  then have "(of_nat (nat \<lfloor>q * 10 ^ n\<rfloor>) :: rat) = q * 10 ^ n"
    unfolding t floor_of_int by (metis less_imp_le of_int_of_nat_eq int_nat_eq)
  then show ?thesis by (simp add: dec_num_def power_int_minus)
qed

lemma exact_text_ok: "ryu_ok exact_text"
  unfolding ryu_ok_def
proof (intro allI impI)
  fix x assume x: "json_f64 x \<and> \<not> f64_eq x (f64_of_rat 0)"
  then obtain s q where q: "x = Fin s q" "0 \<le> q" "rnd q = q" "q < 2 powi 1024"
    by (cases x) (auto simp: json_f64_def)
  have "q \<noteq> 0" using x q by (cases s) auto
  with q have pos: "0 < q" by simp
  obtain i :: int where i: "q * 2 ^ 1074 = of_int i" using rnd_multiple [of q] unfolding q(3) by blast
  define n where "n = nat \<lfloor>q * 10 ^ 1074\<rfloor>"
  have v: "dec_num (show_nat n) [] (- 1074) = q"
    using scale_exact [OF pos i] unfolding n_def of_nat_numeral .
  have "0 < n"
  proof (rule ccontr)
    assume "\<not> 0 < n"
    then have "dec_val (show_nat n @ []) = 0" by simp
    with v have "q = 0" unfolding dec_num_def by (simp only: of_nat_0 mult_zero_left)
    with pos show False by simp
  qed
  then have "decimal_parts (show_nat n) False [] True (- 1074)"
    using show_nat_digits [of n] by (simp add: decimal_parts_def)
  moreover have "x = signed_value s (dec_num (show_nat n) [] (- 1074))"
    unfolding v using q pos
    by (simp add: signed_value_def f64_of_rat_def mk_f64_def round_mag_def Let_def)
  moreover have "exact_text x = decimal_text s (show_nat n) False [] True (- 1074)"
    unfolding exact_text_def q(1) n_def f64.case ..
  ultimately show "ryu_text x (exact_text x)" unfolding ryu_text_def by blast
qed

definition demo_circuit :: "nat \<Rightarrow> gate list" where
  "demo_circuit q = [\<lparr>gate_type = ''X'', gate_params = JNum (PosInt (word_of_nat q))\<rparr>]"

lemma demo_circuit_ok: "circuit_ok (demo_circuit q)"
  by (simp add: circuit_ok_def demo_circuit_def json_f64_def)

theorem circuit_text_determines_circuit_witness:
  "circuit_signing_json exact_text (demo_circuit 3) \<noteq> circuit_signing_json exact_text (demo_circuit 2)"
  using circuit_text_determines_circuit [OF exact_text_ok demo_circuit_ok demo_circuit_ok, of 3 2]
  by (simp add: demo_circuit_def gate_content_def)

text \<open>
  Property C32. A finite number's signed text, in either layout, reads back as that number, sign of
  zero included, so Go's and the node's readings of the circuit agree.
\<close>

theorem go_float_reads_back:
  assumes "ryu_ok ryu" and "json_f64 x"
  shows "\<exists>neg w f k s. go_json_float ryu x = (if neg then ''-'' else []) @ s \<and> go_number w f k s \<and>
    signed_value neg (dec_num w f k) = x"
  using go_json_float_value [OF assms] by metis

theorem go_float_reads_back_witness:
  "\<exists>neg w f k s. go_json_float exact_text (Fin True 3) = (if neg then ''-'' else []) @ s \<and> go_number w f k s \<and>
    signed_value neg (dec_num w f k) = Fin True 3"
  by (rule go_float_reads_back [OF exact_text_ok]) (simp add: json_f64_def)

text \<open>
  A JSON string literal as the node writes it reads back as the string, whatever
  follows it: no content can break out of the quotes.
\<close>

theorem go_string_reads_back:
  "\<exists>body. write_go_json_string s @ r = CHR 0x22 # body \<and> read_chars body = Some (s, r)"
  using read_escape_chars [of s r] by (simp add: go_string_hd)

end
