(* ===== verification/Float_Text.thy ===== *)
theory Float_Text
  imports Go_Json
begin

text \<open>
  Floats as Rust's formatter writes them, and \<open>format_go_float\<close>, which \<open>src/src/domain/p2p.rs\<close> and
  \<open>src/src/domain/result.rs\<close> both define. \<open>Display\<close> of an \<open>f64\<close> writes the shortest digits that
  read back as the number, nearest to it among those, without an exponent.
\<close>

section \<open>Display\<close>

text \<open>The least \<open>k\<close> with \<open>1 \<le> q * 10^k\<close>; no double is below \<open>10^-324\<close>.\<close>

fun lead_zeros :: "nat \<Rightarrow> rat \<Rightarrow> nat \<Rightarrow> nat" where
  "lead_zeros 0 q k = k"
| "lead_zeros (Suc fuel) q k = (if 1 \<le> q * 10 ^ k then k else lead_zeros fuel q (Suc k))"

definition first_digit_exp :: "rat \<Rightarrow> int" where
  "first_digit_exp q =
     (if 1 \<le> q then int (length (show_nat (nat \<lfloor>q\<rfloor>))) - 1 else - int (lead_zeros 400 q 0))"

text \<open>The nearest number of \<open>n\<close> significant digits that reads back as \<open>q\<close>, if there is one.\<close>

definition digits_at :: "rat \<Rightarrow> nat \<Rightarrow> (nat \<times> int) option" where
  "digits_at q n =
     (let e = first_digit_exp q - int n + 1;
          lo = nat \<lfloor>q / 10 powi e\<rfloor>;
          back = (\<lambda>c. f64_of_rat (of_nat c * 10 powi e) = Fin False q);
          err = (\<lambda>c. \<bar>of_nat c * 10 powi e - q\<bar>)
      in if back lo \<and> (\<not> back (lo + 1) \<or> err lo < err (lo + 1)) then Some (lo, e)
         else if back (lo + 1) then Some (lo + 1, e) else None)"

fun shortest_from :: "nat \<Rightarrow> rat \<Rightarrow> nat \<Rightarrow> nat \<times> int" where
  "shortest_from 0 q n = (case digits_at q n of Some r \<Rightarrow> r | None \<Rightarrow> (0, 0))"
| "shortest_from (Suc fuel) q n =
     (case digits_at q n of Some r \<Rightarrow> r | None \<Rightarrow> shortest_from fuel q (Suc n))"

text \<open>Seventeen digits are enough for every double.\<close>

definition display_f64 :: "f64 \<Rightarrow> string" where
  "display_f64 x =
     (case x of
        NaN \<Rightarrow> ''NaN''
      | Inf s \<Rightarrow> (if s then ''-inf'' else ''inf'')
      | Fin s q \<Rightarrow> (if s then ''-'' else []) @
          (if q = 0 then ''0''
           else let (c, e) = shortest_from 16 q 1; ds = show_nat c
                in plain_decimal (trim_end_matches (CHR ''0'') ds) (int (length ds) - 1 + e)))"

section \<open>format\_go\_float\<close>

text \<open>The saturating casts \<open>as i64\<close> and \<open>as f64\<close>.\<close>

definition f64_as_i64 :: "f64 \<Rightarrow> int" where
  "f64_as_i64 x =
     (case x of
        NaN \<Rightarrow> 0
      | Inf s \<Rightarrow> (if s then - (2 ^ 63) else 2 ^ 63 - 1)
      | Fin s q \<Rightarrow> max (- (2 ^ 63)) (min (2 ^ 63 - 1) (if s then - \<lfloor>q\<rfloor> else \<lfloor>q\<rfloor>)))"

definition i64_as_f64 :: "int \<Rightarrow> f64" where
  "i64_as_f64 i = f64_of_rat (of_int i)"

text \<open>\<open>{:.1}\<close> of a whole number.\<close>

definition fixed_1 :: "f64 \<Rightarrow> string" where
  "fixed_1 x = (case x of Fin s q \<Rightarrow> (if s then ''-'' else []) @ show_nat (nat \<lfloor>q\<rfloor>) @ ''.0'' | _ \<Rightarrow> display_f64 x)"

definition format_go_float :: "f64 \<Rightarrow> string" where
  "format_go_float val =
     (if f64_eq val (i64_as_f64 (f64_as_i64 val)) then fixed_1 val else display_f64 val)"

end
