(* ===== verification/Features.thy ===== *)
theory Features
  imports Prelude
begin

text \<open>
  Feature bit masks of \<open>src/src/domain/features.rs\<close>: what a node can run, derived from the gate names
  core reports, and the test of an announcement's required mask.
\<close>

unbundle bit_operations_syntax

section \<open>Definitions\<close>

definition FEATURE_STANDARD_GATES :: u32 where "FEATURE_STANDARD_GATES = push_bit 0 1"
definition FEATURE_CUSTOM_UNITARY :: u32 where "FEATURE_CUSTOM_UNITARY = push_bit 1 1"
definition FEATURE_NETWORK_GATE_SPLIT :: u32 where "FEATURE_NETWORK_GATE_SPLIT = push_bit 3 1"
definition FEATURE_WORK_BUDGET :: u32 where "FEATURE_WORK_BUDGET = push_bit 4 1"

definition apply_gate_feature :: "u32 \<Rightarrow> string \<Rightarrow> u32" where
  "apply_gate_feature features gate =
     (if gate \<in> {''H'', ''X'', ''Y'', ''Z'', ''S'', ''T'', ''CNOT'', ''CZ'', ''CCNOT''}
      then features OR FEATURE_STANDARD_GATES
      else if gate \<in> {''RX'', ''RY'', ''RZ''} then features OR FEATURE_CUSTOM_UNITARY
      else if gate = ''NETWORK_GATE_SPLIT'' then features OR FEATURE_NETWORK_GATE_SPLIT
      else features)"

definition features_from_gates :: "string list \<Rightarrow> u32" where
  "features_from_gates gates = foldl apply_gate_feature 0 gates"

definition node_features :: "string list \<Rightarrow> bool \<Rightarrow> u32" where
  "node_features gates judges_work =
     (let features = features_from_gates gates in
      if judges_work then features OR FEATURE_WORK_BUDGET else features)"

definition supports_required_features :: "u32 \<Rightarrow> u32 \<Rightarrow> bool" where
  "supports_required_features supported required \<longleftrightarrow> supported AND required = required"

lemmas feature_consts = FEATURE_STANDARD_GATES_def FEATURE_CUSTOM_UNITARY_def
  FEATURE_NETWORK_GATE_SPLIT_def FEATURE_WORK_BUDGET_def

section \<open>Bits\<close>

definition gate_bit :: "string \<Rightarrow> nat option" where
  "gate_bit gate =
     (if gate \<in> {''H'', ''X'', ''Y'', ''Z'', ''S'', ''T'', ''CNOT'', ''CZ'', ''CCNOT''} then Some 0
      else if gate \<in> {''RX'', ''RY'', ''RZ''} then Some 1
      else if gate = ''NETWORK_GATE_SPLIT'' then Some 3 else None)"

lemma bit_push_one: "bit (push_bit n 1 :: u32) i \<longleftrightarrow> i = n \<and> n < 32"
  by (auto simp: bit_exp_iff)

lemma bit_apply_gate:
  "bit (apply_gate_feature f g) i \<longleftrightarrow> bit f i \<or> gate_bit g = Some i"
proof -
  have "bit (f OR push_bit n 1) i \<longleftrightarrow> bit f i \<or> i = n" if "n < 32" for n
    using that by (simp only: bit_or_iff bit_push_one simp_thms)
  from this [of 0] this [of 1] this [of 3] show ?thesis
    unfolding apply_gate_feature_def gate_bit_def feature_consts by auto
qed

lemma bit_features_from:
  "bit (foldl apply_gate_feature f gates) i \<longleftrightarrow> bit f i \<or> (\<exists>g \<in> set gates. gate_bit g = Some i)"
  by (induction gates arbitrary: f) (auto simp: bit_apply_gate)

lemma supports_iff: "supports_required_features s r \<longleftrightarrow> (\<forall>i < 32. bit r i \<longrightarrow> bit s i)"
proof -
  have "s AND r = r \<longleftrightarrow> (\<forall>i < 32. bit (s AND r) i = bit r i)"
    by (auto intro!: bit_word_eqI)
  then show ?thesis by (auto simp: supports_required_features_def bit_and_iff)
qed

section \<open>Properties\<close>

text \<open>
  The node passes the feature test for an announcement exactly when, for every required
  bit, core reported a gate that stands for it or the bit is the work-budget bit and the node can
  judge work. Order and repetition of the reported gates do not matter.
\<close>

theorem feature_test_exact:
  "supports_required_features (node_features gates judges) required \<longleftrightarrow>
     (\<forall>i < 32. bit required i \<longrightarrow> (\<exists>g \<in> set gates. gate_bit g = Some i) \<or> judges \<and> i = 4)"
proof -
  have "bit (node_features gates judges) i \<longleftrightarrow> (\<exists>g \<in> set gates. gate_bit g = Some i) \<or> judges \<and> i = 4" for i
    unfolding node_features_def Let_def features_from_gates_def FEATURE_WORK_BUDGET_def
    by (cases judges) (simp_all only: bit_or_iff bit_push_one bit_features_from bit_0_eq if_True if_False simp_thms bot_apply, auto)
  then show ?thesis by (simp add: supports_iff)
qed

theorem feature_test_exact_witness:
  "\<not> supports_required_features (node_features [''H'', ''RX''] False) (push_bit 3 1)"
  unfolding feature_test_exact
  by (rule notI, drule spec [of _ 3]) (simp only: bit_push_one, simp add: gate_bit_def)

end
