(* ===== verification/P2P.thy ===== *)
theory P2P
  imports Float_Text Features
begin

text \<open>
  The signed messages of \<open>src/src/domain/p2p.rs\<close>: task announcements and dispatches, the byte layouts
  the orchestrator signs, their verification, and the request a dispatch becomes.

  Code of packages is an argument of the definitions: base64 and Ed25519 as a \<open>crypto\<close> record, the
  JSON reader of a message and the JSON writer of a contraction tree as functions. A signature and a
  verifying key are of types the record leaves open.
\<close>

section \<open>Messages\<close>

record task_announcement =
  an_task_id :: string
  an_global_qubit_count :: u32
  an_required_features :: u32
  an_bid_difficulty :: u32
  an_required_votes :: u32
  an_nonce :: u64
  an_deadline_secs :: "u32 option"
  an_work :: "work option"

record task_announcement_message =
  am_announcement :: task_announcement
  am_signature :: string
  am_signature_v2 :: "string option"

record sub_task =
  st_task_id :: string
  st_parent_task_id :: string
  st_circuit_id :: string
  st_qubit_count :: u32
  st_original_qubit_count :: u32
  st_slice_id :: string
  st_slice_assignments :: "slice_assignment list"
  st_circuit :: "gate list"
  st_required_votes :: u32
  st_mps_max_bond_dim :: u32
  st_mps_site_order :: "u32 list"
  st_mps_time_split :: u32
  st_contraction_tree :: "contraction_tree_wire option"
  st_output_mode :: string
  st_classical_bit_count :: u32
  st_shots :: u64
  st_sample_seed :: u64
  st_observables :: "observable_spec list"
  st_noise_model :: "noise_model option"
  st_security_level :: string

record task_dispatch_message =
  dm_sub_task :: sub_task
  dm_signature :: string

record ('s, 'k) crypto =
  b64_decode :: "string \<Rightarrow> err + bytes"
  sig_from_slice :: "bytes \<Rightarrow> err + 's"
  vk_from_bytes :: "bytes \<Rightarrow> err + 'k"
  vk_verify :: "'k \<Rightarrow> bytes \<Rightarrow> 's \<Rightarrow> bool"

section \<open>Verification\<close>

definition verify_orchestrator_signature ::
    "('s, 'k) crypto \<Rightarrow> bytes \<Rightarrow> string \<Rightarrow> string \<Rightarrow> string \<Rightarrow> string + unit" where
  "verify_orchestrator_signature cr payload signature_b64 orchestrator_public_key_b64 label =
     and_then (map_err (\<lambda>e. ''invalid '' @ label @ '' signature base64: '' @ e) (b64_decode cr (trim signature_b64)))
       (\<lambda>signature_bytes.
     and_then (map_err (\<lambda>e. ''invalid '' @ label @ '' signature bytes: '' @ e) (sig_from_slice cr signature_bytes))
       (\<lambda>signature.
     and_then (map_err (\<lambda>e. ''invalid orchestrator public key base64: '' @ e)
         (b64_decode cr (trim orchestrator_public_key_b64)))
       (\<lambda>public_key_bytes.
     and_then (if length public_key_bytes = 32 then Inr public_key_bytes
               else Inl ''orchestrator public key must be 32 bytes'')
       (\<lambda>key_array.
     and_then (map_err (\<lambda>e. ''invalid orchestrator public key: '' @ e) (vk_from_bytes cr key_array))
       (\<lambda>verifying_key.
     if vk_verify cr verifying_key payload signature then Inr ()
     else Inl (label @ '' signature verification failed''))))))"

section \<open>Announcements\<close>

definition serialize_announcement_payload :: "task_announcement \<Rightarrow> bytes" where
  "serialize_announcement_payload a =
     as_bytes (an_task_id a) @ be32 (an_global_qubit_count a) @ be32 (an_required_features a) @
     be32 (an_bid_difficulty a) @ be32 (an_required_votes a) @ be64 (an_nonce a)"

definition serialize_announcement_payload_v2 :: "task_announcement \<Rightarrow> bytes option" where
  "serialize_announcement_payload_v2 a =
     (case an_work a of
        None \<Rightarrow> None
      | Some w \<Rightarrow>
          (case an_deadline_secs a of
             None \<Rightarrow> None
           | Some d \<Rightarrow> Some (serialize_announcement_payload a @ be32 d @ be64 (traffic_bytes w) @ be64 (flops w))))"

definition verify_announcement_message ::
    "('s, 'k) crypto \<Rightarrow> task_announcement_message \<Rightarrow> string \<Rightarrow> string + unit" where
  "verify_announcement_message cr m key =
     (let a = am_announcement m in
      if and (an_required_features a) FEATURE_WORK_BUDGET \<noteq> 0 \<and> (an_work a = None \<or> an_deadline_secs a = None)
      then Inl ''announcement asks for the work budget without work''
      else if an_work a \<noteq> None then
        (case serialize_announcement_payload_v2 a of
           None \<Rightarrow> Inl ''announcement work has no deadline''
         | Some signed_payload \<Rightarrow>
             (case am_signature_v2 m of
                None \<Rightarrow> Inl ''announcement work is not signed''
              | Some signature \<Rightarrow>
                  verify_orchestrator_signature cr signed_payload signature key ''announcement v2''))
      else verify_orchestrator_signature cr (serialize_announcement_payload a) (am_signature m) key ''announcement'')"

definition parse_signed_announcement ::
    "('s, 'k) crypto \<Rightarrow> (bytes \<Rightarrow> err + task_announcement_message) \<Rightarrow> bytes \<Rightarrow> string
      \<Rightarrow> string + task_announcement" where
  "parse_signed_announcement cr from_slice payload key =
     and_then (map_err (\<lambda>e. ''invalid announcement JSON: '' @ e) (from_slice payload)) (\<lambda>message.
     and_then (verify_announcement_message cr message key) (\<lambda>_.
       Inr (am_announcement message)))"

section \<open>Dispatches\<close>

definition format_complex_coeff_json :: "complex_coeff \<Rightarrow> string" where
  "format_complex_coeff_json c =
     ''{\"imag\":'' @ format_go_float (co_imag c) @ '',\"real\":'' @ format_go_float (co_real c) @ ''}''"

fun join_str :: "string \<Rightarrow> string list \<Rightarrow> string" where
  "join_str sep [] = []"
| "join_str sep [p] = p"
| "join_str sep (p # q # ps) = p @ sep @ join_str sep (q # ps)"

definition term_json :: "pauli_term \<Rightarrow> string" where
  "term_json t = ''{\"coeff\":'' @ format_complex_coeff_json (pt_coeff t) @ '',\"label\":\"'' @ pt_label t @ ''\"}''"

definition observable_json :: "observable_spec \<Rightarrow> string" where
  "observable_json obs = ''{\"id\":\"'' @ ob_id obs @ ''\",\"terms\":['' @
     join_str '','' (map term_json (sort_key pt_label (ob_terms obs))) @ '']}''"

definition format_observable_spec_json :: "observable_spec list \<Rightarrow> string" where
  "format_observable_spec_json observables =
     ''{\"observables\":['' @ join_str '','' (map observable_json (sort_key ob_id observables)) @ '']}''"

definition format_observables_wire_json :: "observable_spec list \<Rightarrow> string" where
  "format_observables_wire_json observables =
     (if observables = [] then ''[]''
      else let inner = format_observable_spec_json observables in
        (case strip_prefix ''{\"observables\":'' inner of
           None \<Rightarrow> inner
         | Some s \<Rightarrow> (case strip_suffix ''}'' s of None \<Rightarrow> inner | Some t \<Rightarrow> t)))"

definition assignment_bytes :: "slice_assignment \<Rightarrow> bytes" where
  "assignment_bytes a = as_bytes (edge_id a) @ [sa_value a]"

text \<open>The fields before the circuit and those between the circuit and the optional end.\<close>

definition dispatch_head :: "sub_task \<Rightarrow> bytes" where
  "dispatch_head t =
     as_bytes (st_task_id t) @ as_bytes (st_parent_task_id t) @ as_bytes (st_circuit_id t) @
     as_bytes (st_slice_id t) @ be32 (st_qubit_count t) @ be32 (st_original_qubit_count t) @
     be32 (st_required_votes t) @ be32 (len_u32 (st_slice_assignments t)) @
     concat (map assignment_bytes (st_slice_assignments t))"

definition dispatch_middle :: "sub_task \<Rightarrow> bytes" where
  "dispatch_middle t =
     be32 (st_mps_max_bond_dim t) @ len_block (as_bytes (st_output_mode t)) @ be64 (st_shots t) @
     be32 (st_classical_bit_count t) @ be64 (st_sample_seed t) @
     len_block (as_bytes (format_observables_wire_json (st_observables t))) @
     be32 (len_u32 (st_mps_site_order t)) @ concat (map be32 (st_mps_site_order t)) @
     len_block (as_bytes (st_security_level t))"

definition dispatch_tail :: "(contraction_tree_wire \<Rightarrow> err + bytes) \<Rightarrow> sub_task \<Rightarrow> string + bytes" where
  "dispatch_tail tree_to_vec t =
     and_then
       (case st_contraction_tree t of
          None \<Rightarrow> Inr []
        | Some tree \<Rightarrow>
            and_then (map_err (\<lambda>e. ''marshal contraction tree for dispatch signing: '' @ e) (tree_to_vec tree))
              (\<lambda>tree_json. Inr (len_block tree_json)))
       (\<lambda>tree_part. Inr ((if st_mps_time_split t \<noteq> 0 then be32 (st_mps_time_split t) else []) @ tree_part))"

definition serialize_dispatch_payload ::
    "(f64 \<Rightarrow> string) \<Rightarrow> (contraction_tree_wire \<Rightarrow> err + bytes) \<Rightarrow> sub_task \<Rightarrow> string + bytes" where
  "serialize_dispatch_payload ryu tree_to_vec t =
     and_then (circuit_signing_json ryu (st_circuit t)) (\<lambda>circuit_json.
     and_then (dispatch_tail tree_to_vec t) (\<lambda>tail.
       Inr (dispatch_head t @ len_block circuit_json @ dispatch_middle t @ tail)))"

definition verify_dispatch_signature ::
    "('s, 'k) crypto \<Rightarrow> (f64 \<Rightarrow> string) \<Rightarrow> (contraction_tree_wire \<Rightarrow> err + bytes) \<Rightarrow> sub_task \<Rightarrow> string
      \<Rightarrow> string \<Rightarrow> string + unit" where
  "verify_dispatch_signature cr ryu tree_to_vec t signature_b64 key =
     and_then (serialize_dispatch_payload ryu tree_to_vec t) (\<lambda>payload.
       verify_orchestrator_signature cr payload signature_b64 key ''dispatch'')"

definition into_compute_request :: "sub_task \<Rightarrow> string \<Rightarrow> compute_request" where
  "into_compute_request t peer_id =
     \<lparr>cr_task_id = st_task_id t,
      cr_parent_task_id = Some (st_parent_task_id t),
      cr_circuit_id = st_circuit_id t,
      cr_node_id = Some peer_id,
      cr_qubit_count = ucast (st_qubit_count t),
      cr_original_qubit_count = ucast (st_original_qubit_count t),
      cr_slice_id = st_slice_id t,
      cr_slice_assignments = st_slice_assignments t,
      cr_circuit = st_circuit t,
      cr_required_votes = Some (st_required_votes t),
      cr_mps_max_bond_dim = (if 0 < st_mps_max_bond_dim t then Some (ucast (st_mps_max_bond_dim t)) else None),
      cr_mps_site_order = (if st_mps_site_order t = [] then None else Some (map ucast (st_mps_site_order t))),
      cr_mps_time_split = (if 0 < st_mps_time_split t then Some (ucast (st_mps_time_split t)) else None),
      cr_contraction_tree = st_contraction_tree t,
      cr_output_mode = st_output_mode t,
      cr_classical_bit_count = (if 0 < st_classical_bit_count t then Some (st_classical_bit_count t) else None),
      cr_shots = (if 0 < st_shots t then Some (st_shots t) else None),
      cr_sample_seed = (if 0 < st_sample_seed t then Some (st_sample_seed t) else None),
      cr_observables = st_observables t,
      cr_noise_model = st_noise_model t,
      cr_security_level = st_security_level t\<rparr>"

section \<open>Signed channels\<close>

text \<open>
  What a client of the signed messages relies on: a message is accepted only if its payload verifies
  under the orchestrator's key. If the payloads that verify are those the orchestrator produced for
  the messages it sent, an accepted message agrees with a sent one on everything its payload covers.
\<close>

locale signed_channel =
  fixes accepts :: "'m \<Rightarrow> bool" and payload :: "'m \<Rightarrow> bytes" and genuine :: "bytes \<Rightarrow> bool"
  assumes accepts_genuine: "accepts m \<Longrightarrow> genuine (payload m)"
begin

lemma origin:
  "accepts m \<Longrightarrow> (\<And>p. p = payload m \<Longrightarrow> genuine p \<Longrightarrow> \<exists>a \<in> sent. p \<in> signs a) \<Longrightarrow>
     \<exists>a \<in> sent. payload m \<in> signs a"
  using accepts_genuine by blast

lemma authentic:
  assumes "accepts m" "\<And>p. p = payload m \<Longrightarrow> genuine p \<Longrightarrow> \<exists>a \<in> sent. p \<in> signs a"
    and "\<And>a. a \<in> sent \<Longrightarrow> payload m \<in> signs a \<Longrightarrow> covered a m"
  shows "\<exists>a \<in> sent. covered a m"
  using origin assms by blast

end

text \<open>Some signature verifies for the payload under the key.\<close>

definition verifies :: "('s, 'k) crypto \<Rightarrow> string \<Rightarrow> bytes \<Rightarrow> bool" where
  "verifies cr key p \<longleftrightarrow> (\<exists>kb vk s. b64_decode cr (trim key) = Inr kb \<and> length kb = 32 \<and>
     vk_from_bytes cr kb = Inr vk \<and> vk_verify cr vk p s)"

lemma verify_ok_verifies:
  "verify_orchestrator_signature cr p sig key label = Inr u \<Longrightarrow> verifies cr key p"
  unfolding verify_orchestrator_signature_def verifies_def
  by (auto simp: and_then_eq_Inr split: if_splits)

definition announcement_bytes :: "task_announcement \<Rightarrow> bytes" where
  "announcement_bytes a = (case serialize_announcement_payload_v2 a of
     Some p \<Rightarrow> p | None \<Rightarrow> serialize_announcement_payload a)"

interpretation announcements: signed_channel
  "\<lambda>m. verify_announcement_message cr m key = Inr ()" "\<lambda>m. announcement_bytes (am_announcement m)"
  "verifies cr key" for cr :: "('s, 'k) crypto" and key
proof unfold_locales
  fix m assume "verify_announcement_message cr m key = Inr ()"
  then show "verifies cr key (announcement_bytes (am_announcement m))"
    by (auto simp: verify_announcement_message_def announcement_bytes_def Let_def
        serialize_announcement_payload_v2_def split: option.splits if_splits intro: verify_ok_verifies)
qed

definition dispatch_bytes ::
    "(f64 \<Rightarrow> string) \<Rightarrow> (contraction_tree_wire \<Rightarrow> err + bytes) \<Rightarrow> sub_task \<Rightarrow> bytes" where
  "dispatch_bytes ryu tree t = (case serialize_dispatch_payload ryu tree t of Inr p \<Rightarrow> p | Inl _ \<Rightarrow> [])"

interpretation dispatches: signed_channel
  "\<lambda>m. verify_dispatch_signature cr ryu tree (dm_sub_task m) (dm_signature m) key = Inr ()"
  "\<lambda>m. dispatch_bytes ryu tree (dm_sub_task m)" "verifies cr key"
  for cr :: "('s, 'k) crypto" and ryu tree key
proof unfold_locales
  fix m assume "verify_dispatch_signature cr ryu tree (dm_sub_task m) (dm_signature m) key = Inr ()"
  then show "verifies cr key (dispatch_bytes ryu tree (dm_sub_task m))"
    by (auto simp: verify_dispatch_signature_def dispatch_bytes_def and_then_eq_Inr intro: verify_ok_verifies)
qed

section \<open>What a payload determines\<close>

lemma announcement_v1_unique:
  "serialize_announcement_payload a = serialize_announcement_payload b \<longleftrightarrow>
     an_task_id a = an_task_id b \<and> an_global_qubit_count a = an_global_qubit_count b \<and>
     an_required_features a = an_required_features b \<and> an_bid_difficulty a = an_bid_difficulty b \<and>
     an_required_votes a = an_required_votes b \<and> an_nonce a = an_nonce b"
proof -
  have "x @ be32 p @ be32 q @ be32 r @ be32 s @ be64 t = y @ be32 p' @ be32 q' @ be32 r' @ be32 s' @ be64 t' \<longleftrightarrow>
      x = y \<and> p = p' \<and> q = q' \<and> r = r' \<and> s = s' \<and> t = t'" for x y p q r s t p' q' r' s' t'
    by (simp flip: append_assoc)
  then show ?thesis by (simp add: serialize_announcement_payload_def)
qed

text \<open>The part of an announcement that a signature vouches for.\<close>

definition signed_content :: "task_announcement \<Rightarrow> task_announcement" where
  "signed_content a = (if an_work a = None then a\<lparr>an_deadline_secs := None\<rparr> else a)"

lemma length_v1 [wire_simps]: "length (serialize_announcement_payload a) = length (an_task_id a) + 24"
  by (simp add: serialize_announcement_payload_def)

lemma v2_Some:
  "serialize_announcement_payload_v2 a = Some p \<longleftrightarrow> (\<exists>w d. an_work a = Some w \<and> an_deadline_secs a = Some d \<and>
     p = serialize_announcement_payload a @ be32 d @ be64 (traffic_bytes w) @ be64 (flops w))"
  by (auto simp: serialize_announcement_payload_v2_def split: option.splits)

lemma announcement_v2_unique:
  assumes "serialize_announcement_payload_v2 a = Some p" "serialize_announcement_payload_v2 b = Some p"
  shows "a = b"
proof -
  obtain w d v e where ab: "an_work a = Some w" "an_deadline_secs a = Some d" "an_work b = Some v" "an_deadline_secs b = Some e"
    and eq: "serialize_announcement_payload a @ be32 d @ be64 (traffic_bytes w) @ be64 (flops w)
      = serialize_announcement_payload b @ be32 e @ be64 (traffic_bytes v) @ be64 (flops v)"
    using assms by (auto simp: v2_Some)
  have "x @ be32 p @ be64 q @ be64 r = y @ be32 p' @ be64 q' @ be64 r' \<longleftrightarrow> x = y \<and> p = p' \<and> q = q' \<and> r = r'"
    for x y p q r p' q' r'
    by (simp flip: append_assoc)
  with eq have "serialize_announcement_payload a = serialize_announcement_payload b" "d = e" "w = v"
    by auto
  with ab show ?thesis by (simp add: announcement_v1_unique)
qed

text \<open>The payloads the orchestrator signs for an announcement: always v1, and v2 when it has work.\<close>

definition announcement_signs :: "task_announcement \<Rightarrow> bytes set" where
  "announcement_signs a = {p. p = serialize_announcement_payload a \<or> serialize_announcement_payload_v2 a = Some p}"

lemma accepted_work_flag:
  assumes "verify_announcement_message cr m key = Inr ()"
  shows "an_required_features (am_announcement m) AND FEATURE_WORK_BUDGET \<noteq> 0 \<longrightarrow>
      an_work (am_announcement m) \<noteq> None"
    and "an_work (am_announcement m) \<noteq> None \<longrightarrow> serialize_announcement_payload_v2 (am_announcement m) \<noteq> None"
  using assms
  by (auto simp: verify_announcement_message_def Let_def split: if_splits option.splits)

lemma bytes_prefix_inject: "length s = length t \<Longrightarrow> as_bytes s @ r = as_bytes t @ q \<longleftrightarrow> s = t \<and> r = q"
  by simp

lemma assignments_inject:
  assumes "map (length \<circ> edge_id) xs = map (length \<circ> edge_id) ys"
    and "concat (map assignment_bytes xs) @ r = concat (map assignment_bytes ys) @ q"
  shows "xs = ys \<and> r = q"
  using assms
proof (induction xs arbitrary: ys)
  case (Cons x xs)
  then obtain y ys' where ys: "ys = y # ys'" by (cases ys) auto
  then have "length (edge_id x) = length (edge_id y)" using Cons.prems(1) by simp
  moreover have "assignment_bytes x @ concat (map assignment_bytes xs) @ r
      = assignment_bytes y @ concat (map assignment_bytes ys') @ q"
    using Cons.prems(2) ys by simp
  ultimately have "x = y" "concat (map assignment_bytes xs) @ r = concat (map assignment_bytes ys') @ q"
    by (simp_all add: assignment_bytes_def [of x] assignment_bytes_def [of y])
  with Cons ys show ?case by simp
qed simp

text \<open>The ids and edge ids of two sub-tasks have the same lengths.\<close>

definition same_id_lengths :: "sub_task \<Rightarrow> sub_task \<Rightarrow> bool" where
  "same_id_lengths s t \<longleftrightarrow>
     length (st_task_id s) = length (st_task_id t) \<and> length (st_parent_task_id s) = length (st_parent_task_id t) \<and>
     length (st_circuit_id s) = length (st_circuit_id t) \<and> length (st_slice_id s) = length (st_slice_id t) \<and>
     map (length \<circ> edge_id) (st_slice_assignments s) = map (length \<circ> edge_id) (st_slice_assignments t)"

text \<open>No part is longer than its length field can say.\<close>

definition dispatch_small :: "(f64 \<Rightarrow> string) \<Rightarrow> sub_task \<Rightarrow> bool" where
  "dispatch_small ryu t \<longleftrightarrow>
     (\<forall>b. circuit_signing_json ryu (st_circuit t) = Inr b \<longrightarrow> length b < 2 ^ 32) \<and>
     length (st_output_mode t) < 2 ^ 32 \<and> length (format_observables_wire_json (st_observables t)) < 2 ^ 32 \<and>
     length (st_mps_site_order t) < 2 ^ 32 \<and> length (st_security_level t) < 2 ^ 32"

lemma len_u32_inject: "length xs < 2 ^ 32 \<Longrightarrow> length ys < 2 ^ 32 \<Longrightarrow> len_u32 xs = len_u32 ys \<Longrightarrow> length xs = length ys"
proof -
  assume l: "length xs < 2 ^ 32" "length ys < 2 ^ 32" "len_u32 xs = len_u32 ys"
  have "unat (word_of_nat n :: u32) = n" if "n < 2 ^ 32" for n using that by (simp add: unat_of_nat)
  with l show ?thesis unfolding len_u32_def by metis
qed

lemma dispatch_head_inject:
  assumes "same_id_lengths s t" "dispatch_head s @ r = dispatch_head t @ q"
  shows "st_task_id s = st_task_id t \<and> st_parent_task_id s = st_parent_task_id t \<and> st_circuit_id s = st_circuit_id t \<and>
    st_slice_id s = st_slice_id t \<and> st_qubit_count s = st_qubit_count t \<and>
    st_original_qubit_count s = st_original_qubit_count t \<and> st_required_votes s = st_required_votes t \<and>
    st_slice_assignments s = st_slice_assignments t \<and> r = q"
proof -
  note len = assms(1) [unfolded same_id_lengths_def]
  have "st_task_id s = st_task_id t \<and> st_parent_task_id s = st_parent_task_id t \<and> st_circuit_id s = st_circuit_id t \<and>
    st_slice_id s = st_slice_id t \<and> st_qubit_count s = st_qubit_count t \<and>
    st_original_qubit_count s = st_original_qubit_count t \<and> st_required_votes s = st_required_votes t \<and>
    concat (map assignment_bytes (st_slice_assignments s)) @ r = concat (map assignment_bytes (st_slice_assignments t)) @ q"
    using assms(2) len unfolding dispatch_head_def by (simp add: bytes_prefix_inject)
  then show ?thesis using assignments_inject len by blast
qed

lemma dispatch_middle_inject:
  assumes "dispatch_small ryu s" "dispatch_small ryu t" "dispatch_middle s @ r = dispatch_middle t @ q"
  shows "st_mps_max_bond_dim s = st_mps_max_bond_dim t \<and> st_output_mode s = st_output_mode t \<and> st_shots s = st_shots t \<and>
    st_classical_bit_count s = st_classical_bit_count t \<and> st_sample_seed s = st_sample_seed t \<and>
    format_observables_wire_json (st_observables s) = format_observables_wire_json (st_observables t) \<and>
    st_mps_site_order s = st_mps_site_order t \<and> st_security_level s = st_security_level t \<and> r = q"
proof -
  let ?p = "\<lambda>t q. concat (map be32 (st_mps_site_order t)) @ len_block (as_bytes (st_security_level t)) @ q"
  have a: "st_mps_max_bond_dim s = st_mps_max_bond_dim t \<and> st_output_mode s = st_output_mode t \<and> st_shots s = st_shots t \<and>
    st_classical_bit_count s = st_classical_bit_count t \<and> st_sample_seed s = st_sample_seed t \<and>
    format_observables_wire_json (st_observables s) = format_observables_wire_json (st_observables t) \<and>
    len_u32 (st_mps_site_order s) = len_u32 (st_mps_site_order t) \<and> ?p s r = ?p t q"
    using assms unfolding dispatch_middle_def dispatch_small_def by (simp add: len_block_inject)
  then have "length (st_mps_site_order s) = length (st_mps_site_order t)"
    using assms(1,2) len_u32_inject unfolding dispatch_small_def by blast
  then have "st_mps_site_order s = st_mps_site_order t \<and>
      len_block (as_bytes (st_security_level s)) @ r = len_block (as_bytes (st_security_level t)) @ q"
    using a be32.concat_prefix_inject by blast
  with a show ?thesis using assms(1,2) unfolding dispatch_small_def by (simp add: len_block_inject)
qed

text \<open>What the writer of a contraction tree produces: a JSON object, of less than 16 MiB.\<close>

definition tree_writer :: "(contraction_tree_wire \<Rightarrow> err + bytes) \<Rightarrow> bool" where
  "tree_writer tree \<longleftrightarrow> (\<forall>x b. tree x = Inr b \<longrightarrow> length b < 2 ^ 24 \<and> (\<exists>r. b = 0x7B # r))"

lemma len_u32_top:
  assumes "length b < 2 ^ 24" shows "\<exists>r. be32 (len_u32 b) = 0 # r"
proof -
  have "unat (drop_bit 24 (word_of_nat (length b) :: u32)) = 0"
    using assms by (simp add: drop_bit_eq_div unat_div unat_of_nat)
  then have "drop_bit 24 (word_of_nat (length b) :: u32) = 0" by (simp only: unat_eq_zero)
  then have "be32 (len_u32 b) ! 0 = 0" by (simp add: be32_def len_u32_def)
  moreover have "be32 (len_u32 b) \<noteq> []" by (metis length_be32 list.size(3) zero_neq_numeral)
  ultimately show ?thesis by (metis list.exhaust nth_Cons_0)
qed

lemma dispatch_tail_cases:
  assumes "dispatch_tail tree t = Inr p"
  obtains (none) "st_contraction_tree t = None" "p = (if st_mps_time_split t \<noteq> 0 then be32 (st_mps_time_split t) else [])"
  | (some) x b where "st_contraction_tree t = Some x" "tree x = Inr b"
      "p = (if st_mps_time_split t \<noteq> 0 then be32 (st_mps_time_split t) else []) @ len_block b"
  using assms unfolding dispatch_tail_def
  by (cases "st_contraction_tree t") (auto simp: and_then_eq_Inr)

lemma time_split_before_tree:
  assumes "length b < 2 ^ 24" "c = 0x7B # r"
  shows "be32 n @ len_block b \<noteq> len_block c"
proof
  assume "be32 n @ len_block b = len_block c"
  then have "len_block b = c" by (simp add: len_block_def)
  then show False using len_u32_top [OF assms(1)] assms(2) by (auto simp: len_block_def)
qed

lemma dispatch_tail_inject:
  assumes tree: "tree_writer tree" and s: "dispatch_tail tree s = Inr p" and t: "dispatch_tail tree t = Inr p"
  shows "st_mps_time_split s = st_mps_time_split t \<and>
    map_option tree (st_contraction_tree s) = map_option tree (st_contraction_tree t)"
proof -
  have w: "length b < 2 ^ 24 \<and> length b < 2 ^ 32 \<and> (\<exists>r. b = 0x7B # r)" if "tree x = Inr b" for x b
    using tree that by (fastforce simp: tree_writer_def)
  have nb: "length (len_block b) > 4" if "tree x = Inr b" for x b
    using w [OF that] by (auto simp: len_block_def)
  have inj: "b = c" if "len_block b = len_block c" "tree x = Inr b" "tree y = Inr c" for b c x y
    using len_block_inject [of b c "[]" "[]"] w that by simp
  from s show ?thesis
  proof (cases rule: dispatch_tail_cases)
    case none
    note ns = none
    from t show ?thesis
    proof (cases rule: dispatch_tail_cases)
      case none
      with ns show ?thesis by (auto split: if_splits dest: arg_cong [of _ _ length])
    next
      case (some x b)
      with ns nb [of x b] show ?thesis
        by (auto split: if_splits dest: arg_cong [of _ _ length])
    qed
  next
    case (some x b)
    note ss = some
    from t show ?thesis
    proof (cases rule: dispatch_tail_cases)
      case none
      with ss nb [of x b] show ?thesis
        by (auto split: if_splits dest: arg_cong [of _ _ length])
    next
      case (some y c)
      obtain r q where bc: "b = 0x7B # r" "c = 0x7B # q" using w ss(2) some(2) by blast
      have "be32 n @ len_block b \<noteq> len_block c" "be32 n @ len_block c \<noteq> len_block b" for n
        using time_split_before_tree [of b c q n] time_split_before_tree [of c b r n] w [OF ss(2)] w [OF some(2)] bc
        by metis+
      then have "st_mps_time_split s = st_mps_time_split t \<and> len_block b = len_block c"
        using ss(3) some(3) by (auto split: if_splits dest: sym)
      with inj ss some show ?thesis by simp
    qed
  qed
qed

text \<open>
  What a dispatch signature vouches for: every field, the circuit and the observables through their
  signed texts, but for the noise model.
\<close>

definition dispatch_content ::
    "(contraction_tree_wire \<Rightarrow> err + bytes) \<Rightarrow> sub_task
      \<Rightarrow> sub_task \<times> (string \<times> wire) list \<times> string \<times> (err + bytes) option" where
  "dispatch_content tree t =
     (t\<lparr>st_circuit := [], st_observables := [], st_contraction_tree := None, st_noise_model := None\<rparr>,
      map gate_content (st_circuit t), format_observables_wire_json (st_observables t),
      map_option tree (st_contraction_tree t))"

lemma dispatch_payload_inject:
  assumes "ryu_ok ryu" "tree_writer tree" "circuit_ok (st_circuit s)" "circuit_ok (st_circuit t)"
    and "dispatch_small ryu s" "dispatch_small ryu t" "same_id_lengths s t"
    and "serialize_dispatch_payload ryu tree s = Inr p" "serialize_dispatch_payload ryu tree t = Inr p"
  shows "dispatch_content tree s = dispatch_content tree t"
proof -
  obtain cs ts where s: "circuit_signing_json ryu (st_circuit s) = Inr cs" "dispatch_tail tree s = Inr ts"
      "p = dispatch_head s @ len_block cs @ dispatch_middle s @ ts"
    using assms(8) by (auto simp: serialize_dispatch_payload_def and_then_eq_Inr)
  obtain ct tt where t: "circuit_signing_json ryu (st_circuit t) = Inr ct" "dispatch_tail tree t = Inr tt"
      "p = dispatch_head t @ len_block ct @ dispatch_middle t @ tt"
    using assms(9) by (auto simp: serialize_dispatch_payload_def and_then_eq_Inr)
  note head = dispatch_head_inject [OF assms(7), of "len_block cs @ dispatch_middle s @ ts" "len_block ct @ dispatch_middle t @ tt"]
  have h: "len_block cs @ dispatch_middle s @ ts = len_block ct @ dispatch_middle t @ tt"
    using head s(3) t(3) by simp
  have "length cs < 2 ^ 32" "length ct < 2 ^ 32"
    using assms(5,6) s(1) t(1) by (simp_all add: dispatch_small_def)
  with h have c: "cs = ct" "dispatch_middle s @ ts = dispatch_middle t @ tt"
    by (simp_all only: len_block_inject simp_thms)
  have gates: "map gate_content (st_circuit s) = map gate_content (st_circuit t)"
    using circuit_text_unique [OF assms(1,3,4)] s(1) t(1) c(1) by simp
  note mid = dispatch_middle_inject [OF assms(5,6) c(2)]
  have "ts = tt" using mid by blast
  with s(2) t(2) dispatch_tail_inject [OF assms(2)] have
    "st_mps_time_split s = st_mps_time_split t \<and> map_option tree (st_contraction_tree s) = map_option tree (st_contraction_tree t)"
    by blast
  with mid gates head s(3) t(3) show ?thesis
    by (simp add: dispatch_content_def)
qed

section \<open>Properties\<close>


text \<open>A key under which exactly the payloads of one announcement verify.\<close>

definition demo_announcement :: task_announcement where
  "demo_announcement = \<lparr>an_task_id = ''t1'', an_global_qubit_count = 30, an_required_features = 0x11,
     an_bid_difficulty = 0, an_required_votes = 2, an_nonce = 42, an_deadline_secs = Some 300,
     an_work = Some \<lparr>traffic_bytes = 1000, flops = 2000\<rparr>\<rparr>"

definition demo_crypto :: "bytes set \<Rightarrow> (bytes, bytes) crypto" where
  "demo_crypto S = \<lparr>b64_decode = (\<lambda>s. Inr (as_bytes s)), sig_from_slice = Inr, vk_from_bytes = Inr,
     vk_verify = (\<lambda>_ p _. p \<in> S)\<rparr>"

definition demo_key :: string where "demo_key = replicate 32 (CHR ''k'')"

lemma demo_key_trim: "trim demo_key = demo_key"
  unfolding demo_key_def by code_simp

lemma demo_verifies: "verifies (demo_crypto S) demo_key p \<longleftrightarrow> p \<in> S"
  by (simp add: verifies_def demo_crypto_def demo_key_trim) (simp add: demo_key_def)

lemma demo_verify:
  "verify_orchestrator_signature (demo_crypto S) p sig demo_key label = Inr () \<longleftrightarrow> p \<in> S"
  by (simp add: verify_orchestrator_signature_def demo_crypto_def demo_key_trim)
    (simp add: demo_key_def)

definition demo_message :: task_announcement_message where
  "demo_message = \<lparr>am_announcement = demo_announcement, am_signature = [], am_signature_v2 = Some []\<rparr>"

lemma demo_accepted:
  "verify_announcement_message (demo_crypto (announcement_signs demo_announcement)) demo_message demo_key = Inr ()"
proof -
  have a: "an_work demo_announcement \<noteq> None" "an_deadline_secs demo_announcement \<noteq> None"
    by (simp_all add: demo_announcement_def)
  then obtain p where "serialize_announcement_payload_v2 demo_announcement = Some p"
    by (auto simp: serialize_announcement_payload_v2_def)
  with a show ?thesis
    by (simp add: verify_announcement_message_def demo_message_def demo_verify announcement_signs_def)
qed


definition overlap_v2 :: task_announcement where
  "overlap_v2 = \<lparr>an_task_id = ''t'', an_global_qubit_count = 30, an_required_features = 0x11,
     an_bid_difficulty = 0, an_required_votes = 2, an_nonce = 0x2A2A2A2A2A2A2A2A,
     an_deadline_secs = Some 3, an_work = Some \<lparr>traffic_bytes = 5, flops = 7\<rparr>\<rparr>"

definition overlap_v1 :: task_announcement where
  "overlap_v1 = \<lparr>an_task_id = [CHR ''t'', CHR 0x00, CHR 0x00, CHR 0x00, CHR 0x1E, CHR 0x00, CHR 0x00, CHR 0x00, CHR 0x11,
       CHR 0x00, CHR 0x00, CHR 0x00, CHR 0x00, CHR 0x00, CHR 0x00, CHR 0x00, CHR 0x02,
       CHR ''*'', CHR ''*'', CHR ''*'', CHR ''*''],
     an_global_qubit_count = 0x2A2A2A2A, an_required_features = 3, an_bid_difficulty = 0,
     an_required_votes = 5, an_nonce = 7, an_deadline_secs = None, an_work = None\<rparr>"

lemma overlap_bytes:
  "serialize_announcement_payload_v2 overlap_v2 = Some (serialize_announcement_payload overlap_v1)"
  by (simp add: serialize_announcement_payload_v2_def serialize_announcement_payload_def overlap_v1_def
      overlap_v2_def be32_def be64_def be_bytes_def as_bytes_def upt_rec)


text \<open>A verified dispatch has the content of one the orchestrator serialized.\<close>

lemma signed_dispatch_agrees:
  assumes "verify_dispatch_signature cr ryu tree (dm_sub_task m) (dm_signature m) key = Inr ()"
    and "\<forall>p. verifies cr key p \<longrightarrow> (\<exists>s \<in> sent. serialize_dispatch_payload ryu tree s = Inr p)"
    and "ryu_ok ryu" and "tree_writer tree"
    and "\<forall>s \<in> insert (dm_sub_task m) sent. circuit_ok (st_circuit s) \<and> dispatch_small ryu s"
    and "\<forall>s \<in> sent. same_id_lengths s (dm_sub_task m)"
  shows "\<exists>s \<in> sent. dispatch_content tree s = dispatch_content tree (dm_sub_task m)"
proof (rule dispatches.authentic [OF assms(1), where signs = "\<lambda>s. {p. serialize_dispatch_payload ryu tree s = Inr p}"])
  fix s assume s: "s \<in> sent" and "dispatch_bytes ryu tree (dm_sub_task m) \<in> {p. serialize_dispatch_payload ryu tree s = Inr p}"
  moreover obtain q where q: "serialize_dispatch_payload ryu tree (dm_sub_task m) = Inr q"
    using assms(1) by (auto simp: verify_dispatch_signature_def and_then_eq_Inr)
  ultimately have "serialize_dispatch_payload ryu tree s = Inr q" by (simp add: dispatch_bytes_def)
  then show "dispatch_content tree s = dispatch_content tree (dm_sub_task m)"
    using dispatch_payload_inject [OF assms(3,4)] assms(5,6) s q by simp
qed (use assms(2) in simp)


definition demo_sub_task :: sub_task where
  "demo_sub_task = \<lparr>st_task_id = ''s1'', st_parent_task_id = ''t1'', st_circuit_id = ''c1'', st_qubit_count = 2,
     st_original_qubit_count = 3, st_slice_id = ''01'',
     st_slice_assignments = [\<lparr>edge_id = ''e_0'', sa_value = 1\<rparr>], st_circuit = [], st_required_votes = 2,
     st_mps_max_bond_dim = 128, st_mps_site_order = [], st_mps_time_split = 0, st_contraction_tree = None,
     st_output_mode = ''scalar'', st_classical_bit_count = 0, st_shots = 0, st_sample_seed = 0,
     st_observables = [], st_noise_model = None, st_security_level = ''low''\<rparr>"

lemma demo_sub_task_small: "dispatch_small exact_text demo_sub_task"
  by (simp add: dispatch_small_def demo_sub_task_def circuit_signing_json_print format_observables_wire_json_def)


text \<open>
  A signature for one sub-task is accepted for others: the noise model can be replaced
  freely, and bytes can be moved between neighbouring ids, since ids carry no length. Both variants
  have the same payload.
\<close>

theorem dispatch_payload_gaps:
  "serialize_dispatch_payload ryu tree (t\<lparr>st_noise_model := n\<rparr>) = serialize_dispatch_payload ryu tree t \<and>
   serialize_dispatch_payload ryu tree (t\<lparr>st_task_id := x @ y, st_parent_task_id := z\<rparr>)
     = serialize_dispatch_payload ryu tree (t\<lparr>st_task_id := x, st_parent_task_id := y @ z\<rparr>)"
  by (simp add: serialize_dispatch_payload_def dispatch_tail_def dispatch_head_def dispatch_middle_def)

text \<open>
  The request handed to core keeps the dispatch: ids, circuit, slices, tree,
  observables and noise model unchanged, the counts widened without loss, and a count of zero or an
  empty site order becomes \<open>None\<close> and nothing else does, so defaults restore the dispatch exactly.
\<close>

theorem compute_request_faithful:
  "let r = into_compute_request t peer in
   cr_task_id r = st_task_id t \<and> cr_parent_task_id r = Some (st_parent_task_id t) \<and> cr_node_id r = Some peer \<and>
   cr_circuit r = st_circuit t \<and> cr_slice_assignments r = st_slice_assignments t \<and>
   cr_contraction_tree r = st_contraction_tree t \<and> cr_observables r = st_observables t \<and>
   cr_noise_model r = st_noise_model t \<and>
   unat (cr_qubit_count r) = unat (st_qubit_count t) \<and>
   unat (cr_original_qubit_count r) = unat (st_original_qubit_count t) \<and>
   (case cr_mps_max_bond_dim r of None \<Rightarrow> 0 | Some d \<Rightarrow> unat d) = unat (st_mps_max_bond_dim t) \<and>
   (case cr_mps_time_split r of None \<Rightarrow> 0 | Some d \<Rightarrow> unat d) = unat (st_mps_time_split t) \<and>
   (case cr_mps_site_order r of None \<Rightarrow> [] | Some qs \<Rightarrow> map unat qs) = map unat (st_mps_site_order t) \<and>
   (case cr_classical_bit_count r of None \<Rightarrow> 0 | Some d \<Rightarrow> d) = st_classical_bit_count t \<and>
   (case cr_shots r of None \<Rightarrow> 0 | Some d \<Rightarrow> d) = st_shots t \<and>
   (case cr_sample_seed r of None \<Rightarrow> 0 | Some d \<Rightarrow> d) = st_sample_seed t"
proof -
  have up: "unat (ucast w :: usize) = unat w" for w :: u32
    by (simp add: unsigned_ucast_eq take_bit_nat_eq_self unsigned_less [THEN less_trans])
  show ?thesis by (simp add: into_compute_request_def Let_def up comp_def word_gt_0)
qed

end
