(* ===== verification/Operator.thy ===== *)
theory Operator
  imports Prelude
begin

text \<open>
  Operator identities of \<open>src/src/domain/operator.rs\<close>: an Ed25519 key derived from the node key with
  HKDF, and the payload an operator signs. HMAC-SHA256, SHA-256, hex and the key type are code of
  packages: arguments of the definitions.
\<close>

section \<open>Definitions\<close>

definition HKDF_INFO :: bytes where "HKDF_INFO = as_bytes ''wqc-operator-v1''"

text \<open>
  The loop of \<open>hkdf_expand\<close>. Its value is \<open>None\<close> if it does not end, which depends on \<open>hmac\<close>. The
  counter is a saturating \<open>u8\<close>.
\<close>

partial_function (option) hkdf_expand_loop ::
    "(bytes \<Rightarrow> bytes \<Rightarrow> bytes) \<Rightarrow> bytes \<Rightarrow> bytes \<Rightarrow> nat \<Rightarrow> bytes \<Rightarrow> bytes \<Rightarrow> u8 \<Rightarrow> bytes option" where
  "hkdf_expand_loop hmac prk info len out t counter =
     (if length out < len
      then hkdf_expand_loop hmac prk info len (out @ hmac prk (t @ info @ [counter]))
             (hmac prk (t @ info @ [counter])) (sat_add counter 1)
      else Some (take len out))"

definition hkdf_expand :: "(bytes \<Rightarrow> bytes \<Rightarrow> bytes) \<Rightarrow> bytes \<Rightarrow> bytes \<Rightarrow> nat \<Rightarrow> bytes option" where
  "hkdf_expand hmac prk info len = hkdf_expand_loop hmac prk info len [] [] 1"

definition hkdf_sha256 :: "(bytes \<Rightarrow> bytes \<Rightarrow> bytes) \<Rightarrow> bytes \<Rightarrow> bytes \<Rightarrow> bytes \<Rightarrow> nat \<Rightarrow> bytes option" where
  "hkdf_sha256 hmac ikm salt info len =
     (let salt = (if salt = [] then replicate 32 0 else salt);
          prk = hmac salt ikm
      in hkdf_expand hmac prk info len)"

definition operator_id_from_pubkey :: "(bytes \<Rightarrow> bytes) \<Rightarrow> (bytes \<Rightarrow> string) \<Rightarrow> bytes \<Rightarrow> string" where
  "operator_id_from_pubkey sha256 hex pubkey = hex (sha256 pubkey)"

datatype operator_error = Node_key_required | Seed_not_32_bytes

text \<open>The key type is left open: \<open>key_of\<close> is \<open>SigningKey::from_bytes\<close>, \<open>pub_of\<close> the bytes of its public key.\<close>

definition derive_operator_keypair ::
    "(bytes \<Rightarrow> bytes \<Rightarrow> bytes) \<Rightarrow> (bytes \<Rightarrow> bytes) \<Rightarrow> (bytes \<Rightarrow> string) \<Rightarrow> (bytes \<Rightarrow> 'k) \<Rightarrow> ('k \<Rightarrow> bytes)
      \<Rightarrow> string \<Rightarrow> (operator_error + string \<times> 'k) option" where
  "derive_operator_keypair hmac sha256 hex key_of pub_of node_key =
     (if node_key = [] then Some (Inl Node_key_required)
      else case hkdf_sha256 hmac (as_bytes node_key) [] HKDF_INFO 32 of
        None \<Rightarrow> None
      | Some seed \<Rightarrow>
          if length seed \<noteq> 32 then Some (Inl Seed_not_32_bytes)
          else let signing_key = key_of seed in
            Some (Inr (operator_id_from_pubkey sha256 hex (pub_of signing_key), signing_key)))"

definition serialize_operator_bid_payload :: "string \<Rightarrow> string \<Rightarrow> string \<Rightarrow> int \<Rightarrow> bytes" where
  "serialize_operator_bid_payload operator_id node_id task_id stake_amount =
     as_bytes operator_id @ as_bytes node_id @ as_bytes task_id @ as_bytes (show_int stake_amount)"

section \<open>The standard's expansion\<close>

text \<open>The blocks \<open>T(1), T(2), ...\<close> of RFC 5869.\<close>

fun hkdf_block :: "(bytes \<Rightarrow> bytes \<Rightarrow> bytes) \<Rightarrow> bytes \<Rightarrow> bytes \<Rightarrow> nat \<Rightarrow> bytes" where
  "hkdf_block hmac prk info 0 = []"
| "hkdf_block hmac prk info (Suc n) = hmac prk (hkdf_block hmac prk info n @ info @ [word_of_nat (Suc n)])"

definition hkdf_blocks :: "(bytes \<Rightarrow> bytes \<Rightarrow> bytes) \<Rightarrow> bytes \<Rightarrow> bytes \<Rightarrow> nat \<Rightarrow> bytes" where
  "hkdf_blocks hmac prk info n = concat (map (hkdf_block hmac prk info) [1..<Suc n])"

lemma hkdf_blocks_Suc:
  "hkdf_blocks hmac prk info (Suc n) = hkdf_blocks hmac prk info n @ hkdf_block hmac prk info (Suc n)"
  by (simp add: hkdf_blocks_def)

lemma length_hkdf_blocks:
  assumes "\<And>k m. length (hmac k m) = 32" shows "length (hkdf_blocks hmac prk info n) = 32 * n"
proof (induction n)
  case (Suc n)
  then show ?case by (simp add: hkdf_blocks_Suc assms)
qed (simp add: hkdf_blocks_def)

lemma hkdf_blocks_0: "hkdf_blocks hmac prk info 0 = []"
  by (simp add: hkdf_blocks_def)

lemma counter_next:
  assumes "n < 254" shows "sat_add (word_of_nat (Suc n) :: u8) 1 = word_of_nat (Suc (Suc n))"
proof -
  have "unat (word_of_nat (Suc n) :: u8) = Suc n" using assms by (simp add: unat_of_nat del: of_nat_Suc)
  with assms show ?thesis by (simp add: sat_add_def)
qed

lemma hkdf_loop_blocks:
  assumes h: "\<And>k m. length (hmac k m) = 32" and "len \<le> 32 * N" "N \<le> 255" "n + k = N"
    and "n = 255 \<or> c = word_of_nat (Suc n)"
  shows "\<exists>m. len \<le> 32 * m \<and> m \<le> N \<and> hkdf_expand_loop hmac prk info len (hkdf_blocks hmac prk info n)
      (hkdf_block hmac prk info n) c = Some (take len (hkdf_blocks hmac prk info m))"
  using assms(4,5)
proof (induction k arbitrary: n c)
  case 0
  then have "hkdf_expand_loop hmac prk info len (hkdf_blocks hmac prk info n) (hkdf_block hmac prk info n) c
      = Some (take len (hkdf_blocks hmac prk info n))"
    using assms(2) by (subst hkdf_expand_loop.simps) (simp add: length_hkdf_blocks h)
  with 0 assms(2) show ?case by auto
next
  case (Suc k)
  show ?case
  proof (cases "32 * n < len")
    case True
    then have "n < 255" using assms(2,3) by linarith
    with Suc.prems have c: "c = word_of_nat (Suc n)" by simp
    let ?c = "sat_add c 1"
    have "Suc n = 255 \<or> ?c = word_of_nat (Suc (Suc n))"
      using \<open>n < 255\<close> counter_next [of n] c by (cases "n < 254") simp_all
    from Suc.IH [OF _ this] Suc.prems obtain m where m: "len \<le> 32 * m" "m \<le> N"
        "hkdf_expand_loop hmac prk info len (hkdf_blocks hmac prk info (Suc n)) (hkdf_block hmac prk info (Suc n)) ?c
          = Some (take len (hkdf_blocks hmac prk info m))"
      by auto
    moreover have "hkdf_expand_loop hmac prk info len (hkdf_blocks hmac prk info n) (hkdf_block hmac prk info n) c
        = hkdf_expand_loop hmac prk info len (hkdf_blocks hmac prk info (Suc n)) (hkdf_block hmac prk info (Suc n)) ?c"
      using True by (subst hkdf_expand_loop.simps)
        (simp only: length_hkdf_blocks h hkdf_blocks_Suc hkdf_block.simps c if_True)
    ultimately show ?thesis by auto
  next
    case False
    then have "hkdf_expand_loop hmac prk info len (hkdf_blocks hmac prk info n) (hkdf_block hmac prk info n) c
        = Some (take len (hkdf_blocks hmac prk info n))"
      by (subst hkdf_expand_loop.simps) (simp add: length_hkdf_blocks h)
    with False Suc.prems show ?thesis by (intro exI [of _ n]) simp
  qed
qed

lemma hkdf_blocks_prefix:
  "hkdf_blocks hmac prk info (m + j) =
     hkdf_blocks hmac prk info m @ concat (map (hkdf_block hmac prk info) [Suc m..<Suc (m + j)])"
  by (induction j) (simp_all add: hkdf_blocks_Suc)

lemma hkdf_expand_blocks:
  assumes h: "\<And>k m. length (hmac k m) = 32" and "len \<le> 32 * N" "N \<le> 255"
  shows "hkdf_expand hmac prk info len = Some (take len (hkdf_blocks hmac prk info N))"
proof -
  obtain m where m: "len \<le> 32 * m" "m \<le> N" "hkdf_expand_loop hmac prk info len (hkdf_blocks hmac prk info 0)
      (hkdf_block hmac prk info 0) 1 = Some (take len (hkdf_blocks hmac prk info m))"
    using hkdf_loop_blocks [of hmac len N 0 N 1 prk info] h assms(2,3) by auto
  have "take len (hkdf_blocks hmac prk info N) = take len (hkdf_blocks hmac prk info m)"
    using hkdf_blocks_prefix [of hmac prk info m "N - m"] m(1,2) by (simp add: length_hkdf_blocks h)
  with m(3) show ?thesis by (simp add: hkdf_expand_def hkdf_blocks_0)
qed

section \<open>Properties\<close>

text \<open>
  Property C35. The expansion ends and agrees with RFC 5869: for up to 255 blocks the output is the
  leading bytes of \<open>T(1) T(2) ...\<close>, whatever 32-byte MAC is plugged in.
\<close>

theorem hkdf_matches_rfc:
  assumes "\<forall>k m. length (hmac k m) = 32" and "len \<le> 255 * 32"
  shows "hkdf_expand hmac prk info len = Some (take len (hkdf_blocks hmac prk info 255))"
  by (rule hkdf_expand_blocks) (use assms in \<open>simp_all add: mult.commute\<close>)

theorem hkdf_matches_rfc_witness:
  "hkdf_expand (\<lambda>k m. replicate 32 (hd k)) [1, 2] [3] 40
     = Some (take 40 (hkdf_blocks (\<lambda>k m. replicate 32 (hd k)) [1, 2] [3] 255))"
  by (rule hkdf_matches_rfc) simp_all

text \<open>
  Deriving an operator key fails only for the empty node key; otherwise the seed is the
  first HKDF block of the node key under a zero salt, always 32 bytes, so the same node key always
  gives the same operator.
\<close>

theorem operator_key_deterministic:
  assumes "\<forall>k m. length (hmac k m) = 32"
  shows "derive_operator_keypair hmac sha256 hex key_of pub_of node_key =
    (if node_key = [] then Some (Inl Node_key_required)
     else let seed = hmac (hmac (replicate 32 0) (as_bytes node_key)) (HKDF_INFO @ [1]) in
       Some (Inr (hex (sha256 (pub_of (key_of seed))), key_of seed)))"
proof -
  let ?p = "hmac (replicate 32 0) (as_bytes node_key)"
  have "hkdf_expand hmac ?p HKDF_INFO 32 = Some (hmac ?p (HKDF_INFO @ [1]))"
  proof -
    have "hkdf_expand_loop hmac ?p HKDF_INFO 32 [] [] 1 = hkdf_expand_loop hmac ?p HKDF_INFO 32
        (hmac ?p (HKDF_INFO @ [1])) (hmac ?p (HKDF_INFO @ [1])) (sat_add 1 1)"
      by (subst hkdf_expand_loop.simps) simp
    also have "\<dots> = Some (hmac ?p (HKDF_INFO @ [1]))"
      using assms by (subst hkdf_expand_loop.simps) simp
    finally show ?thesis by (simp add: hkdf_expand_def)
  qed
  with assms show ?thesis
    by (simp add: derive_operator_keypair_def hkdf_sha256_def operator_id_from_pubkey_def Let_def)
qed

theorem operator_key_deterministic_witness:
  "\<exists>i k. derive_operator_keypair (\<lambda>k m. replicate 32 (hd k)) id (\<lambda>_. ''id'') id id ''key'' = Some (Inr (i, k))"
  by (subst operator_key_deterministic) simp_all

end
