(* ===== verification/Pcs.thy ===== *)
theory Pcs
  imports P2P "HOL-Library.Multiset"
begin

text \<open>
  Deferred leaf proofs (PCS) of \<open>src/src/domain/pcs.rs\<close>: the memory policy of core, the orchestrator's
  requests and open calls with their signed payloads, and the node's bids. Time is an argument: the
  seconds since the epoch, or \<open>None\<close> when the clock is before it. Signing and base64 are arguments.
\<close>

section \<open>Definitions\<close>

definition PCS_REQUEST_KIND_OPEN_CALL :: string where "PCS_REQUEST_KIND_OPEN_CALL = ''open_call''"
definition PCS_MEMORY_POLICY_SPILL :: string where "PCS_MEMORY_POLICY_SPILL = ''spill''"
definition PCS_MEMORY_POLICY_REFUSE :: string where "PCS_MEMORY_POLICY_REFUSE = ''refuse''"

datatype pcs_memory_policy = Refuse | Spill

definition policy_from_env_str :: "string option \<Rightarrow> pcs_memory_policy" where
  "policy_from_env_str raw =
     (if map_option (to_ascii_lowercase \<circ> trim) raw = Some PCS_MEMORY_POLICY_SPILL then Spill else Refuse)"

fun policy_as_str :: "pcs_memory_policy \<Rightarrow> string" where
  "policy_as_str Refuse = PCS_MEMORY_POLICY_REFUSE"
| "policy_as_str Spill = PCS_MEMORY_POLICY_SPILL"

fun is_spill :: "pcs_memory_policy \<Rightarrow> bool" where
  "is_spill Refuse = False"
| "is_spill Spill = True"

definition sysinfo_pcs_memory_policy :: "core_system_info \<Rightarrow> pcs_memory_policy" where
  "sysinfo_pcs_memory_policy info = policy_from_env_str (Some (si_pcs_memory_policy info))"

record pcs_message =
  pm_sub_task_id :: string
  pm_node_id :: string
  pm_leaf_pcs_b64 :: string
  pm_refused :: bool
  pm_refuse_reason :: "string option"

record pcs_request =
  pr_sub_task_id :: string
  pr_parent_task_id :: string
  pr_slice_id :: string
  pr_node_id :: string
  pr_issued_at_unix :: i64
  pr_request_kind :: string
  pr_leaf_proof_hash :: string

definition request_is_open_call :: "pcs_request \<Rightarrow> bool" where
  "request_is_open_call r \<longleftrightarrow> pr_request_kind r = PCS_REQUEST_KIND_OPEN_CALL"

record pcs_request_message =
  rm_request :: pcs_request
  rm_signature :: string

record pcs_open_call =
  oc_parent_task_id :: string
  oc_sub_task_id :: string
  oc_slice_id :: string
  oc_leaf_proof_hash :: string
  oc_leaf_proof_bytes :: u64
  oc_cas_presigned_url :: string
  oc_r_pcs_planck :: string
  oc_deadline_unix :: i64
  oc_issued_at_unix :: i64
  oc_refused_builders :: "string list"

definition is_expired_at :: "pcs_open_call \<Rightarrow> i64 \<Rightarrow> bool" where
  "is_expired_at c now_unix \<longleftrightarrow> 0 < sint (oc_deadline_unix c) \<and> sint (oc_deadline_unix c) \<le> sint now_unix"

text \<open>\<open>d.as_secs() as i64\<close>, and 0 for a clock before the epoch.\<close>

definition unix_secs :: "nat option \<Rightarrow> i64" where
  "unix_secs t = (case t of Some s \<Rightarrow> word_of_nat s | None \<Rightarrow> 0)"

definition is_expired :: "pcs_open_call \<Rightarrow> nat option \<Rightarrow> bool" where
  "is_expired c system_time = is_expired_at c (unix_secs system_time)"

definition refuses_builder :: "pcs_open_call \<Rightarrow> string \<Rightarrow> bool" where
  "refuses_builder c node_id = list_ex (\<lambda>i. i = node_id) (oc_refused_builders c)"

record pcs_open_call_message =
  om_open_call :: pcs_open_call
  om_signature :: string

record pcs_bid =
  pb_sub_task_id :: string
  pb_node_id :: string
  pb_leaf_proof_hash :: string
  pb_pcs_memory_policy :: string
  pb_issued_at_unix :: i64

definition is_spill_policy :: "pcs_bid \<Rightarrow> bool" where
  "is_spill_policy b \<longleftrightarrow> pb_pcs_memory_policy b = PCS_MEMORY_POLICY_SPILL"

record pcs_bid_message =
  bm_bid :: pcs_bid
  bm_signature :: string

definition serialize_pcs_request_payload :: "pcs_request \<Rightarrow> bytes" where
  "serialize_pcs_request_payload r =
     as_bytes (pr_sub_task_id r) @ as_bytes (pr_parent_task_id r) @ as_bytes (pr_slice_id r) @
     as_bytes (pr_node_id r) @ be64 (pr_issued_at_unix r) @ as_bytes (pr_request_kind r) @
     as_bytes (pr_leaf_proof_hash r)"

definition verify_pcs_request_signature ::
    "('s, 'k) crypto \<Rightarrow> pcs_request \<Rightarrow> string \<Rightarrow> string \<Rightarrow> string + unit" where
  "verify_pcs_request_signature cr r signature_b64 key =
     verify_orchestrator_signature cr (serialize_pcs_request_payload r) signature_b64 key ''pcs request''"

definition serialize_pcs_open_call_payload :: "pcs_open_call \<Rightarrow> bytes" where
  "serialize_pcs_open_call_payload c =
     as_bytes (oc_parent_task_id c) @ as_bytes (oc_sub_task_id c) @ as_bytes (oc_slice_id c) @
     as_bytes (oc_leaf_proof_hash c) @ be64 (oc_leaf_proof_bytes c) @ as_bytes (oc_cas_presigned_url c) @
     as_bytes (oc_r_pcs_planck c) @ be64 (oc_deadline_unix c) @ be64 (oc_issued_at_unix c) @
     (let refused = sort (oc_refused_builders c) in
      be32 (len_u32 refused) @ concat (map (\<lambda>i. len_block (as_bytes i)) refused))"

definition verify_pcs_open_call_signature ::
    "('s, 'k) crypto \<Rightarrow> pcs_open_call \<Rightarrow> string \<Rightarrow> string \<Rightarrow> string + unit" where
  "verify_pcs_open_call_signature cr c signature_b64 key =
     verify_orchestrator_signature cr (serialize_pcs_open_call_payload c) signature_b64 key ''pcs open call''"

definition serialize_pcs_bid_payload :: "pcs_bid \<Rightarrow> bytes" where
  "serialize_pcs_bid_payload b =
     as_bytes (pb_sub_task_id b) @ as_bytes (pb_node_id b) @ as_bytes (pb_leaf_proof_hash b) @
     as_bytes (pb_pcs_memory_policy b) @ be64 (pb_issued_at_unix b)"

definition build_signed_pcs_bid ::
    "(bytes \<Rightarrow> string) \<Rightarrow> (bytes \<Rightarrow> bytes) \<Rightarrow> nat option \<Rightarrow> pcs_open_call \<Rightarrow> string \<Rightarrow> pcs_bid_message" where
  "build_signed_pcs_bid b64_encode sign system_time open_call node_id =
     (let bid = \<lparr>pb_sub_task_id = oc_sub_task_id open_call, pb_node_id = node_id,
            pb_leaf_proof_hash = oc_leaf_proof_hash open_call,
            pb_pcs_memory_policy = PCS_MEMORY_POLICY_SPILL,
            pb_issued_at_unix = unix_secs system_time\<rparr>
      in \<lparr>bm_bid = bid, bm_signature = b64_encode (sign (serialize_pcs_bid_payload bid))\<rparr>)"

record open_call_pcs_source =
  os_leaf_proof_hash :: string
  os_cas_presigned_url :: string
  os_leaf_proof_bytes :: u64
  os_slice_id :: string

record pending_pcs_job =
  pj_sub_task_id :: string
  pj_proof :: proof_wire
  pj_requested :: bool
  pj_leaf_pcs_b64 :: "string option"
  pj_leaf_pcs_bytes :: "u64 option"
  pj_open_call :: "open_call_pcs_source option"

definition job_is_open_call :: "pending_pcs_job \<Rightarrow> bool" where
  "job_is_open_call j \<longleftrightarrow> pj_open_call j \<noteq> None"

section \<open>Signed channels\<close>

interpretation pcs_requests: signed_channel
  "\<lambda>m. verify_pcs_request_signature cr (rm_request m) (rm_signature m) key = Inr ()"
  "\<lambda>m. serialize_pcs_request_payload (rm_request m)" "verifies cr key"
  for cr :: "('s, 'k) crypto" and key
  by unfold_locales (auto simp: verify_pcs_request_signature_def intro: verify_ok_verifies)

interpretation pcs_open_calls: signed_channel
  "\<lambda>m. verify_pcs_open_call_signature cr (om_open_call m) (om_signature m) key = Inr ()"
  "\<lambda>m. serialize_pcs_open_call_payload (om_open_call m)" "verifies cr key"
  for cr :: "('s, 'k) crypto" and key
  by unfold_locales (auto simp: verify_pcs_open_call_signature_def intro: verify_ok_verifies)

text \<open>The texts before the list of refused builders have the same lengths.\<close>

definition same_text_lengths :: "pcs_open_call \<Rightarrow> pcs_open_call \<Rightarrow> bool" where
  "same_text_lengths c d \<longleftrightarrow>
     length (oc_parent_task_id c) = length (oc_parent_task_id d) \<and> length (oc_sub_task_id c) = length (oc_sub_task_id d) \<and>
     length (oc_slice_id c) = length (oc_slice_id d) \<and> length (oc_leaf_proof_hash c) = length (oc_leaf_proof_hash d) \<and>
     length (oc_cas_presigned_url c) = length (oc_cas_presigned_url d) \<and> length (oc_r_pcs_planck c) = length (oc_r_pcs_planck d)"

definition call_small :: "pcs_open_call \<Rightarrow> bool" where
  "call_small c \<longleftrightarrow> length (oc_refused_builders c) < 2 ^ 32 \<and> list_all (\<lambda>i. length i < 2 ^ 32) (oc_refused_builders c)"

lemma id_blocks_inject:
  assumes "length xs = length ys" "list_all (\<lambda>i. length i < 2 ^ 32) xs" "list_all (\<lambda>i. length i < 2 ^ 32) ys"
    and "concat (map (\<lambda>i. len_block (as_bytes i)) xs) = concat (map (\<lambda>i. len_block (as_bytes i)) ys)"
  shows "xs = ys"
  using assms by (induction xs ys rule: list_induct2) (auto simp: len_block_inject)

lemma open_call_payload_inject:
  assumes "same_text_lengths c d" "call_small c" "call_small d"
    and "serialize_pcs_open_call_payload c = serialize_pcs_open_call_payload d"
  shows "c\<lparr>oc_refused_builders := sort (oc_refused_builders c)\<rparr> = d\<lparr>oc_refused_builders := sort (oc_refused_builders d)\<rparr>"
proof -
  let ?ids = "\<lambda>c. concat (map (\<lambda>i. len_block (as_bytes i)) (sort (oc_refused_builders c)))"
  have f: "oc_parent_task_id c = oc_parent_task_id d \<and> oc_sub_task_id c = oc_sub_task_id d \<and> oc_slice_id c = oc_slice_id d \<and>
      oc_leaf_proof_hash c = oc_leaf_proof_hash d \<and> oc_leaf_proof_bytes c = oc_leaf_proof_bytes d \<and>
      oc_cas_presigned_url c = oc_cas_presigned_url d \<and> oc_r_pcs_planck c = oc_r_pcs_planck d \<and>
      oc_deadline_unix c = oc_deadline_unix d \<and> oc_issued_at_unix c = oc_issued_at_unix d \<and>
      len_u32 (sort (oc_refused_builders c)) = len_u32 (sort (oc_refused_builders d)) \<and> ?ids c = ?ids d"
    using assms(1,4) unfolding serialize_pcs_open_call_payload_def same_text_lengths_def Let_def
    by (simp add: bytes_prefix_inject)
  have "length (sort (oc_refused_builders c)) = length (sort (oc_refused_builders d))"
    using f assms(2,3) by (intro len_u32_inject) (simp_all add: call_small_def)
  then have "sort (oc_refused_builders c) = sort (oc_refused_builders d)"
    using f assms(2,3) by (intro id_blocks_inject) (simp_all add: call_small_def list_all_iff)
  with f show ?thesis by simp
qed

section \<open>Properties\<close>


definition demo_open_call :: "string list \<Rightarrow> pcs_open_call" where
  "demo_open_call refused = \<lparr>oc_parent_task_id = ''t1'', oc_sub_task_id = ''s1'', oc_slice_id = ''01'',
     oc_leaf_proof_hash = ''ab'', oc_leaf_proof_bytes = 9, oc_cas_presigned_url = ''http://cas/x'',
     oc_r_pcs_planck = ''5'', oc_deadline_unix = 200, oc_issued_at_unix = 100, oc_refused_builders = refused\<rparr>"


end
