(* ===== verification/Config.thy ===== *)
theory Config
  imports Memory_Budget Token Operator Models
begin

text \<open>
  The node's configuration of \<open>src/src/config.rs\<close>. The process environment is a function from names
  to values; the host's memory, the peer id of a key and the operator's key derivation are
  arguments. The signing key's type is left open.
\<close>

section \<open>Data\<close>

record 'k node_config =
  peer_id :: string
  core_url :: string
  max_qubits :: usize
  max_mps_qubits :: usize
  max_memory_gib :: f64
  requested_memory_gib :: "f64 option"
  host_total_memory_bytes :: u64
  memory_cap_src :: memory_cap_source
  vram_budget_gib :: "f64 option"
  compute_timeout_secs :: u64
  conf_tn_rates :: "tn_rates option"
  work_budget_margin :: f64
  work_overhead_secs :: f64
  work_unknown_secs :: f64
  pcs_timeout_secs :: u64
  signing_key :: 'k
  bootstrap_urls :: "string list"
  bootstrap_source_url :: "string option"
  bootstrap_peers :: "string list"
  p2p_listen_port :: u16
  p2p_idle_timeout_secs :: u64
  http_port :: u16
  database_url :: string
  stake_amount :: int
  orchestrator_peer_id :: "string option"
  orchestrator_public_key :: "string option"
  operator_id :: "string option"
  operator_signing_key :: "'k option"

record orchestrator_bootstrap =
  ob_source_url :: string
  ob_peer_id :: string
  ob_public_key_b64 :: string
  ob_multiaddrs :: "string list"

datatype config_error =
    Missing string
  | Not_a_number string
  | Out_of_range string
  | Bad_stake token_error
  | Bad_key string
  | Bad_peer_id err
  | Bad_operator operator_error
  | No_multiaddrs

section \<open>Parsing\<close>

text \<open>\<open>str::parse\<close> of an unsigned integer of \<open>w\<close> bits: an optional plus sign and digits, in range.\<close>

definition parse_uint :: "nat \<Rightarrow> string \<Rightarrow> nat option" where
  "parse_uint w s =
     (let ds = (case s of c # t \<Rightarrow> if c = CHR ''+'' then t else s | [] \<Rightarrow> []) in
      if ds \<noteq> [] \<and> list_all is_ascii_digit ds \<and> dec_val ds < 2 ^ w then Some (dec_val ds) else None)"

text \<open>
  \<open>str::parse\<close> of an \<open>f64\<close>: a sign, then \<open>inf\<close>, \<open>infinity\<close> or \<open>nan\<close> in any case, or digits with an
  optional fraction and exponent, correctly rounded.
\<close>

definition take_digits_prefix :: "string \<Rightarrow> string \<times> string" where
  "take_digits_prefix s = (takeWhile is_ascii_digit s, dropWhile is_ascii_digit s)"

definition parse_exponent :: "string \<Rightarrow> int option" where
  "parse_exponent s =
     (case s of
        [] \<Rightarrow> Some 0
      | c # t \<Rightarrow>
          if c = CHR ''e'' \<or> c = CHR ''E'' then
            (let (neg, ds) = (case t of d # u \<Rightarrow> if d = CHR ''-'' then (True, u)
                 else if d = CHR ''+'' then (False, u) else (False, t) | [] \<Rightarrow> (False, []))
             in if ds \<noteq> [] \<and> list_all is_ascii_digit ds
                then Some (if neg then - int (dec_val ds) else int (dec_val ds)) else None)
          else None)"

definition parse_unsigned_f64 :: "string \<Rightarrow> f64 option" where
  "parse_unsigned_f64 s =
     (if to_ascii_lowercase s \<in> {''inf'', ''infinity''} then Some (Inf False)
      else if to_ascii_lowercase s = ''nan'' then Some NaN
      else let (w, r) = take_digits_prefix s;
               (f, e) = (case r of c # t \<Rightarrow> if c = CHR ''.'' then take_digits_prefix t else ([], r) | [] \<Rightarrow> ([], []))
           in if w = [] \<and> f = [] then None
              else map_option (\<lambda>k. f64_of_rat (of_nat (dec_val (w @ f)) * 10 powi (k - int (length f)))) (parse_exponent e))"

definition parse_f64 :: "string \<Rightarrow> f64 option" where
  "parse_f64 s =
     (case s of
        [] \<Rightarrow> None
      | c # t \<Rightarrow> if c = CHR ''-'' then map_option f64_neg (parse_unsigned_f64 t)
                else if c = CHR ''+'' then parse_unsigned_f64 t else parse_unsigned_f64 s)"

section \<open>Loading\<close>

type_synonym environment = "string \<Rightarrow> string option"

definition env_or :: "environment \<Rightarrow> string \<Rightarrow> string \<Rightarrow> string" where
  "env_or env name default_value = (case env name of Some v \<Rightarrow> v | None \<Rightarrow> default_value)"

definition or_error :: "config_error \<Rightarrow> 'a option \<Rightarrow> config_error + 'a" where
  "or_error e x = (case x of Some v \<Rightarrow> Inr v | None \<Rightarrow> Inl e)"

definition env_uint :: "environment \<Rightarrow> nat \<Rightarrow> string \<Rightarrow> string \<Rightarrow> config_error + nat" where
  "env_uint env w name default_value = or_error (Not_a_number name) (parse_uint w (env_or env name default_value))"

definition env_f64 :: "environment \<Rightarrow> string \<Rightarrow> string \<Rightarrow> (f64 \<Rightarrow> bool) \<Rightarrow> config_error + f64" where
  "env_f64 env name default_value ok =
     and_then (or_error (Not_a_number name) (parse_f64 (env_or env name default_value))) (\<lambda>x.
       if ok x then Inr x else Inl (Out_of_range name))"

definition parse_requested_memory_gib :: "environment \<Rightarrow> config_error + f64 option" where
  "parse_requested_memory_gib env =
     (case env ''WQC_MAX_MEMORY_GB'' of
        None \<Rightarrow> Inr None
      | Some s \<Rightarrow>
          if trim s = [] then Inr None
          else and_then (or_error (Not_a_number ''WQC_MAX_MEMORY_GB'') (parse_f64 (trim s))) (\<lambda>x. Inr (Some x)))"

text \<open>Base64 and \<open>SigningKey::from_bytes\<close> are arguments.\<close>

definition load_signing_key_from_env ::
    "(string \<Rightarrow> err + bytes) \<Rightarrow> (bytes \<Rightarrow> 'k) \<Rightarrow> environment \<Rightarrow> config_error + 'k" where
  "load_signing_key_from_env b64 key_of env =
     (case env ''WQC_NODE_PRIVATE_KEY'' of
        None \<Rightarrow> Inl (Missing ''WQC_NODE_PRIVATE_KEY'')
      | Some key_b64 \<Rightarrow>
          (case b64 (trim key_b64) of
             Inl e \<Rightarrow> Inl (Bad_key e)
           | Inr key_bytes \<Rightarrow>
               if length key_bytes = 32 then Inr (key_of key_bytes) else Inl (Bad_key ''length'')))"

definition split_urls :: "string \<Rightarrow> string list" where
  "split_urls s = filter (\<lambda>u. u \<noteq> []) (map trim (split_char (CHR '','') s))"

text \<open>The packages \<open>from_env\<close> calls, and the host's memory. Deriving the operator key may not return.\<close>

record 'k config_deps =
  cd_host_memory :: u64
  cd_b64_decode :: "string \<Rightarrow> err + bytes"
  cd_key_of :: "bytes \<Rightarrow> 'k"
  cd_peer_id_of :: "'k \<Rightarrow> err + string"
  cd_bigint_parse :: "string \<Rightarrow> int option"
  cd_derive_operator :: "string \<Rightarrow> (operator_error + string \<times> 'k)"

definition load_operator ::
    "'k config_deps \<Rightarrow> environment \<Rightarrow> config_error + string option \<times> 'k option" where
  "load_operator d env =
     (case env ''WQC_TESTNET_NODE_KEY'' of
        Some node_key \<Rightarrow>
          if trim node_key \<noteq> [] then
            and_then (map_err Bad_operator (cd_derive_operator d (trim node_key)))
              (\<lambda>(operator_id, key). Inr (Some operator_id, Some key))
          else Inr (None, None)
      | None \<Rightarrow> Inr (None, None))"

definition config_from_env :: "'k config_deps \<Rightarrow> environment \<Rightarrow> config_error + 'k node_config" where
  "config_from_env d env =
     and_then (parse_requested_memory_gib env) (\<lambda>requested.
     and_then (env_uint env 64 ''WQC_COMPUTE_TIMEOUT_SECS'' ''300'') (\<lambda>compute_timeout.
     and_then (env_f64 env ''WQC_WORK_BUDGET_MARGIN'' ''0.5''
         (\<lambda>x. f64_less (f64_of_rat 0) x \<and> f64_le x (f64_of_rat 1))) (\<lambda>margin.
     and_then (env_f64 env ''WQC_WORK_OVERHEAD_SECS'' ''5''
         (\<lambda>x. f64_le (f64_of_rat 0) x \<and> f64_is_finite x)) (\<lambda>overhead.
     and_then (env_f64 env ''WQC_WORK_UNKNOWN_SECS'' ''30''
         (\<lambda>x. f64_le (f64_of_rat 0) x \<and> f64_is_finite x)) (\<lambda>unknown.
     and_then (env_uint env 64 ''WQC_PCS_TIMEOUT_SECS'' ''7200'') (\<lambda>pcs_timeout.
     and_then (load_signing_key_from_env (cd_b64_decode d) (cd_key_of d) env) (\<lambda>key.
     and_then (map_err Bad_peer_id (cd_peer_id_of d key)) (\<lambda>peer.
     and_then (or_error (Missing ''WQC_BOOTSTRAP_URLS'') (env ''WQC_BOOTSTRAP_URLS'')) (\<lambda>raw_urls.
     and_then (if split_urls raw_urls = [] then Inl (Missing ''WQC_BOOTSTRAP_URLS'') else Inr (split_urls raw_urls)) (\<lambda>urls.
     and_then (env_uint env 16 ''WQC_P2P_LISTEN_PORT'' ''4002'') (\<lambda>listen_port.
     and_then (env_uint env 64 ''WQC_P2P_IDLE_TIMEOUT_SECS'' ''60'') (\<lambda>idle.
     and_then (env_uint env 16 ''WQC_HTTP_PORT'' ''8080'') (\<lambda>http.
     and_then (map_err Bad_stake (parse_wqc_to_planck (cd_bigint_parse d) (env_or env ''WQC_NODE_STAKE_WQC'' ''0.05''))) (\<lambda>stake.
     and_then (load_operator d env) (\<lambda>(op_id, op_key).
       (let (qubits, mps, gib) = resolve_max_qubits_from_memory_gb requested (cd_host_memory d) in
        Inr \<lparr>peer_id = peer,
          core_url = env_or env ''WQC_CORE_URL'' ''http://localhost:3000'',
          max_qubits = word_of_nat qubits, max_mps_qubits = mps, max_memory_gib = gib,
          requested_memory_gib = requested, host_total_memory_bytes = cd_host_memory d,
          memory_cap_src = Ram, vram_budget_gib = None,
          compute_timeout_secs = word_of_nat compute_timeout, conf_tn_rates = None,
          work_budget_margin = margin, work_overhead_secs = overhead, work_unknown_secs = unknown,
          pcs_timeout_secs = word_of_nat pcs_timeout, signing_key = key,
          bootstrap_urls = urls, bootstrap_source_url = None, bootstrap_peers = [],
          p2p_listen_port = word_of_nat listen_port, p2p_idle_timeout_secs = word_of_nat idle,
          http_port = word_of_nat http,
          database_url = env_or env ''WQC_DATABASE_URL'' ''sqlite:wqc-node.db'',
          stake_amount = stake, orchestrator_peer_id = None, orchestrator_public_key = None,
          operator_id = op_id, operator_signing_key = op_key\<rparr>))))))))))))))))"

section \<open>What core and the orchestrator report\<close>

definition apply_core_sysinfo :: "'k node_config \<Rightarrow> core_system_info \<Rightarrow> 'k node_config" where
  "apply_core_sysinfo c info =
     (let tr = from_sysinfo (si_tn_seconds_per_byte info) (si_tn_seconds_per_flop info);
          ram_bytes = effective_memory_bytes (requested_memory_gib c) (host_total_memory_bytes c);
          vram_raw = (if eq_ignore_ascii_case (si_tn_backend_active info) ''webgpu''
                      then (case si_vram_budget_bytes info of Some b \<Rightarrow> if 0 < b then Some b else None | None \<Rightarrow> None)
                      else None);
          (qubits, mps, gib, source) = resolve_max_qubits_with_optional_vram ram_bytes vram_raw
      in c\<lparr>conf_tn_rates := tr,
           vram_budget_gib := map_option (\<lambda>b. f64_div (u64_as_f64 b) (f64_of_rat (1024 * 1024 * 1024))) vram_raw,
           max_qubits := word_of_nat qubits, max_mps_qubits := mps, max_memory_gib := gib,
           memory_cap_src := source\<rparr>)"

definition apply_orchestrator_bootstrap ::
    "'k node_config \<Rightarrow> orchestrator_bootstrap \<Rightarrow> config_error + 'k node_config" where
  "apply_orchestrator_bootstrap c b =
     (if ob_multiaddrs b = [] then Inl No_multiaddrs
      else Inr (c\<lparr>bootstrap_source_url := Some (ob_source_url b),
                  orchestrator_peer_id := Some (ob_peer_id b),
                  orchestrator_public_key := Some (ob_public_key_b64 b),
                  bootstrap_peers := ob_multiaddrs b\<rparr>))"

section \<open>Settings are proper numbers\<close>

lemma f64_rep_parse_unsigned: "parse_unsigned_f64 s = Some x \<Longrightarrow> f64_rep x"
  unfolding parse_unsigned_f64_def take_digits_prefix_def
  by (auto simp: Let_def split: if_splits list.splits)

lemma f64_rep_parse: "parse_f64 s = Some x \<Longrightarrow> f64_rep x"
  unfolding parse_f64_def
  by (auto simp: f64_rep_neg dest: f64_rep_parse_unsigned split: if_splits list.splits)

lemma env_f64_ok: "env_f64 env name dv ok = Inr x \<Longrightarrow> ok x \<and> f64_rep x"
  unfolding env_f64_def or_error_def
  by (auto simp: and_then_eq_Inr split: if_splits option.splits dest: f64_rep_parse)

lemma f64_nonneg_ge0: "f64_le (Fin False 0) x \<Longrightarrow> f64_nonneg x"
  by (cases x) (auto simp: f64_le_def split: if_splits)

lemma finite_between:
  assumes "f64_less (Fin False 0) x" "f64_le x (Fin False 1)"
  shows "f64_nonneg x" "f64_is_finite x"
  using assms by (cases x; auto simp: f64_le_def split: if_splits)+

lemma config_settings_ok:
  assumes "config_from_env d env = Inr c"
  shows "finite_ok (work_budget_margin c) \<and> finite_ok (work_overhead_secs c) \<and> finite_ok (work_unknown_secs c)"
  using assms unfolding config_from_env_def finite_ok_def
  by (auto simp: and_then_eq_Inr Let_def case_prod_beta
      dest!: env_f64_ok intro: f64_nonneg_ge0 finite_between)

section \<open>A configuration for the examples\<close>

definition demo_config :: "nat node_config" where
  "demo_config = \<lparr>peer_id = ''p'', core_url = ''http://127.0.0.1:8080'', max_qubits = 30, max_mps_qubits = 62,
     max_memory_gib = Fin False 16, requested_memory_gib = None, host_total_memory_bytes = 2 ^ 35,
     memory_cap_src = Ram, vram_budget_gib = None, compute_timeout_secs = 300, conf_tn_rates = None,
     work_budget_margin = Fin False (1/2), work_overhead_secs = Fin False 5, work_unknown_secs = Fin False 30,
     pcs_timeout_secs = 600, signing_key = 1, bootstrap_urls = [''http://o''], bootstrap_source_url = None,
     bootstrap_peers = [], p2p_listen_port = 4001, p2p_idle_timeout_secs = 60, http_port = 3000,
     database_url = ''sqlite:wqc.db'', stake_amount = 10, orchestrator_peer_id = None,
     orchestrator_public_key = None, operator_id = Some ''op'', operator_signing_key = Some 2\<rparr>"

end
