(* ===== verification/Geo.thy ===== *)
theory Geo
  imports Models
begin

text \<open>
  Egress location of \<open>src/src/domain/geo.rs\<close>: three providers tried in turn. The outcome of each
  HTTP request (\<open>reqwest\<close>) is an argument: no answer, or a status and what the body decodes to.
\<close>

definition GEO_CACHE_TTL_SECS :: int where "GEO_CACHE_TTL_SECS = 86400"

record geo_info =
  latitude :: f64
  longitude :: f64
  geo_country :: string
  geo_city :: string

record ip_api_json_response =
  ia_lat :: f64
  ia_lon :: f64
  ia_country :: string
  ia_city :: string
  ia_status :: string

record free_ip_api_response =
  fi_latitude :: f64
  fi_longitude :: f64
  fi_country_name :: string
  fi_city_name :: string

record ip_api_co_response =
  ic_latitude :: f64
  ic_longitude :: f64
  ic_country_name :: string
  ic_city :: string

text \<open>An answer: the HTTP status, and the decoded body if it decodes.\<close>

type_synonym 'b http_answer = "(nat \<times> 'b option) option"

definition http_is_success :: "nat \<Rightarrow> bool" where
  "http_is_success status \<longleftrightarrow> 200 \<le> status \<and> status < 300"

definition TOO_MANY_REQUESTS :: nat where "TOO_MANY_REQUESTS = 429"

definition try_ip_api :: "ip_api_json_response http_answer \<Rightarrow> geo_info option" where
  "try_ip_api answer =
     (case answer of
        None \<Rightarrow> None
      | Some (status, body) \<Rightarrow>
          if status = TOO_MANY_REQUESTS then None
          else if \<not> http_is_success status then None
          else (case body of
                  None \<Rightarrow> None
                | Some json \<Rightarrow>
                    if ia_status json \<noteq> ''success'' then None
                    else Some \<lparr>latitude = ia_lat json, longitude = ia_lon json,
                           geo_country = ia_country json, geo_city = ia_city json\<rparr>))"

definition try_free_ip_api :: "free_ip_api_response http_answer \<Rightarrow> geo_info option" where
  "try_free_ip_api answer =
     (case answer of
        None \<Rightarrow> None
      | Some (status, body) \<Rightarrow>
          if status = TOO_MANY_REQUESTS \<or> \<not> http_is_success status then None
          else map_option (\<lambda>json. \<lparr>latitude = fi_latitude json, longitude = fi_longitude json,
                 geo_country = fi_country_name json, geo_city = fi_city_name json\<rparr>) body)"

definition try_ipapi_co :: "ip_api_co_response http_answer \<Rightarrow> geo_info option" where
  "try_ipapi_co answer =
     (case answer of
        None \<Rightarrow> None
      | Some (status, body) \<Rightarrow>
          if status = TOO_MANY_REQUESTS \<or> \<not> http_is_success status then None
          else map_option (\<lambda>json. \<lparr>latitude = ic_latitude json, longitude = ic_longitude json,
                 geo_country = ic_country_name json, geo_city = ic_city json\<rparr>) body)"

record geo_answers =
  ans_ip_api :: "ip_api_json_response http_answer"
  ans_free_ip_api :: "free_ip_api_response http_answer"
  ans_ipapi_co :: "ip_api_co_response http_answer"

definition fetch_geolocation :: "geo_answers \<Rightarrow> geo_info option" where
  "fetch_geolocation a =
     (case try_ip_api (ans_ip_api a) of
        Some info \<Rightarrow> Some info
      | None \<Rightarrow>
          (case try_free_ip_api (ans_free_ip_api a) of
             Some info \<Rightarrow> Some info
           | None \<Rightarrow> try_ipapi_co (ans_ipapi_co a)))"

end
