(* ===== verification/Bid.thy ===== *)
theory Bid
  imports Config Geo P2P
begin

text \<open>
  Bids of \<open>src/src/domain/bid.rs\<close>: whether the node takes part in a round, the lottery it mines and
  the bid it signs. SHA-256 and the signing functions are arguments. The clock is a function of the
  number of the reading; the wall-clock seconds are an argument. The metrics snapshot is passed
  through, so its type is left open.
\<close>

section \<open>Definitions\<close>

definition NETWORK_MIN_QUBITS :: u32 where "NETWORK_MIN_QUBITS = 10"
definition LOTTERY_TIME_WINDOW_SECS :: nat where "LOTTERY_TIME_WINDOW_SECS = 10"

record 'm bid =
  bid_task_id :: string
  bid_node_id :: string
  bid_max_qubit_capability :: u32
  bid_max_mps_qubits :: u32
  bid_current_load_factors :: u32
  bid_timestamp :: i64
  bid_lottery_attempt :: u64
  bid_signature :: bytes
  bid_lottery_proof :: bytes
  bid_stake_amount :: int
  bid_supported_features :: u32
  bid_location :: "geo_info option"
  bid_operator_id :: "string option"
  bid_operator_sig :: "bytes option"
  bid_metrics_summary :: "'m option"

text \<open>\<open>as u32\<close> keeps the low 32 bits.\<close>

definition should_bid_on :: "task_announcement \<Rightarrow> 'k node_config \<Rightarrow> u32 \<Rightarrow> bool" where
  "should_bid_on a config supported_features =
     (if (ucast (max_qubits config) :: u32) < NETWORK_MIN_QUBITS then False
      else if supported_features = 0 then False
      else supports_required_features supported_features (an_required_features a))"

definition serialize_bid_payload :: "'m bid \<Rightarrow> bytes" where
  "serialize_bid_payload b =
     as_bytes (bid_task_id b) @ as_bytes (bid_node_id b) @ be32 (bid_max_qubit_capability b) @
     be32 (bid_current_load_factors b) @ be64 (bid_timestamp b) @ be64 (bid_lottery_attempt b) @
     bid_lottery_proof b @ be32 (bid_supported_features b)"

definition lottery_hash :: "(bytes \<Rightarrow> bytes) \<Rightarrow> string \<Rightarrow> u64 \<Rightarrow> i64 \<Rightarrow> u64 \<Rightarrow> bytes" where
  "lottery_hash sha256 node_id nonce timestamp attempt =
     sha256 (as_bytes node_id @ be64 nonce @ be64 timestamp @ be64 attempt)"

definition meets_difficulty :: "bytes \<Rightarrow> u32 \<Rightarrow> bool" where
  "meets_difficulty hash difficulty =
     (if difficulty = 0 then True
      else if length hash < unat difficulty then False
      else list_all (\<lambda>b. b = 0) (take (unat difficulty) hash))"

text \<open>
  The mining loop, from the reading of the clock with number \<open>k\<close>. The result \<open>None\<close> means that the
  loop does not end; \<open>Some None\<close> that the window closed without a proof.
\<close>

partial_function (option) mine_loop ::
    "(bytes \<Rightarrow> bytes) \<Rightarrow> (nat \<Rightarrow> instant) \<Rightarrow> instant \<Rightarrow> string \<Rightarrow> u64 \<Rightarrow> i64 \<Rightarrow> u32 \<Rightarrow> nat \<Rightarrow> u64
      \<Rightarrow> (i64 \<times> u64 \<times> bytes) option option" where
  "mine_loop sha256 clock deadline node_id nonce timestamp difficulty k attempt =
     (if clock k < deadline then
        if meets_difficulty (lottery_hash sha256 node_id nonce timestamp attempt) difficulty
        then Some (Some (timestamp, attempt, lottery_hash sha256 node_id nonce timestamp attempt))
        else mine_loop sha256 clock deadline node_id nonce timestamp difficulty (Suc k) (attempt + 1)
      else Some None)"

definition mine_lottery ::
    "(bytes \<Rightarrow> bytes) \<Rightarrow> (nat \<Rightarrow> instant) \<Rightarrow> i64 \<Rightarrow> string \<Rightarrow> u64 \<Rightarrow> u32 \<Rightarrow> (i64 \<times> u64 \<times> bytes) option option" where
  "mine_lottery sha256 clock timestamp node_id nonce difficulty =
     (if difficulty = 0 then Some (Some (timestamp, 0, lottery_hash sha256 node_id nonce timestamp 0))
      else mine_loop sha256 clock (clock 0 + from_secs LOTTERY_TIME_WINDOW_SECS) node_id nonce timestamp difficulty 1 0)"

definition chrono_lottery_timestamp :: "nat option \<Rightarrow> i64" where
  "chrono_lottery_timestamp system_time = (case system_time of Some s \<Rightarrow> word_of_nat s | None \<Rightarrow> 0)"

text \<open>\<open>u32::try_from(...).unwrap_or(u32::MAX)\<close>.\<close>

definition usize_to_u32_sat :: "usize \<Rightarrow> u32" where
  "usize_to_u32_sat w = (if unat w < 2 ^ 32 then ucast w else - 1)"

definition build_signed_bid ::
    "(bytes \<Rightarrow> bytes) \<Rightarrow> ('k \<Rightarrow> bytes \<Rightarrow> bytes) \<Rightarrow> (nat \<Rightarrow> instant) \<Rightarrow> nat option \<Rightarrow> task_announcement
      \<Rightarrow> 'k node_config \<Rightarrow> u32 \<Rightarrow> u32 \<Rightarrow> geo_info option \<Rightarrow> 'm option \<Rightarrow> 'm bid option option" where
  "build_signed_bid sha256 sign clock system_time a config current_load supported_features location metrics_summary =
     (case operator_id config of
        None \<Rightarrow> Some None
      | Some op_id \<Rightarrow>
          (case operator_signing_key config of
             None \<Rightarrow> Some None
           | Some op_key \<Rightarrow>
               (case mine_lottery sha256 clock (chrono_lottery_timestamp system_time) (peer_id config)
                       (an_nonce a) (an_bid_difficulty a) of
                  None \<Rightarrow> None
                | Some None \<Rightarrow> Some None
                | Some (Some (timestamp, lottery_attempt, lottery_proof)) \<Rightarrow>
                    (let b = \<lparr>bid_task_id = an_task_id a, bid_node_id = peer_id config,
                           bid_max_qubit_capability = ucast (max_qubits config),
                           bid_max_mps_qubits = usize_to_u32_sat (max_mps_qubits config),
                           bid_current_load_factors = current_load, bid_timestamp = timestamp,
                           bid_lottery_attempt = lottery_attempt, bid_signature = [],
                           bid_lottery_proof = lottery_proof, bid_stake_amount = stake_amount config,
                           bid_supported_features = supported_features, bid_location = location,
                           bid_operator_id = Some op_id, bid_operator_sig = None,
                           bid_metrics_summary = metrics_summary\<rparr>;
                         payload = serialize_bid_payload b;
                         operator_payload = serialize_operator_bid_payload op_id (bid_node_id b) (bid_task_id b)
                           (bid_stake_amount b)
                     in Some (Some (b\<lparr>bid_signature := sign (signing_key config) payload,
                                      bid_operator_sig := Some (sign op_key operator_payload)\<rparr>))))))"

section \<open>Mining\<close>

text \<open>
  What a run of the loop from attempt \<open>a\<close> found: the attempts before \<open>n\<close> were made in time and failed,
  and the last one succeeded, or the window closed.
\<close>

definition failed_before ::
    "(bytes \<Rightarrow> bytes) \<Rightarrow> (nat \<Rightarrow> instant) \<Rightarrow> instant \<Rightarrow> string \<Rightarrow> u64 \<Rightarrow> i64 \<Rightarrow> u32 \<Rightarrow> nat \<Rightarrow> u64 \<Rightarrow> nat \<Rightarrow> bool" where
  "failed_before sha256 clock deadline node nonce ts diff k a n \<longleftrightarrow>
     (\<forall>j < n. clock (k + j) < deadline \<and> \<not> meets_difficulty (lottery_hash sha256 node nonce ts (a + word_of_nat j)) diff)"

definition mined ::
    "(bytes \<Rightarrow> bytes) \<Rightarrow> (nat \<Rightarrow> instant) \<Rightarrow> instant \<Rightarrow> string \<Rightarrow> u64 \<Rightarrow> i64 \<Rightarrow> u32 \<Rightarrow> nat \<Rightarrow> u64
      \<Rightarrow> (i64 \<times> u64 \<times> bytes) option \<Rightarrow> bool" where
  "mined sha256 clock deadline node nonce ts diff k a r \<longleftrightarrow>
     (\<exists>n. failed_before sha256 clock deadline node nonce ts diff k a n \<and>
       (case r of
          Some (t, b, p) \<Rightarrow> t = ts \<and> b = a + word_of_nat n \<and> p = lottery_hash sha256 node nonce ts b \<and>
            meets_difficulty p diff \<and> clock (k + n) < deadline
        | None \<Rightarrow> \<not> clock (k + n) < deadline))"

lemma failed_before_0: "failed_before sha256 clock deadline node nonce ts diff k a 0"
  by (simp add: failed_before_def)

lemma failed_before_Suc:
  assumes "clock k < deadline" "\<not> meets_difficulty (lottery_hash sha256 node nonce ts a) diff"
    and "failed_before sha256 clock deadline node nonce ts diff (Suc k) (a + 1) n"
  shows "failed_before sha256 clock deadline node nonce ts diff k a (Suc n)"
  unfolding failed_before_def
proof (intro allI impI)
  fix j assume "j < Suc n"
  then show "clock (k + j) < deadline \<and> \<not> meets_difficulty (lottery_hash sha256 node nonce ts (a + word_of_nat j)) diff"
    using assms by (cases j) (simp_all add: failed_before_def algebra_simps)
qed

lemma mined_step:
  assumes "clock k < deadline" "\<not> meets_difficulty (lottery_hash sha256 node nonce ts a) diff"
    and "mined sha256 clock deadline node nonce ts diff (Suc k) (a + 1) r"
  shows "mined sha256 clock deadline node nonce ts diff k a r"
proof -
  obtain n where n: "failed_before sha256 clock deadline node nonce ts diff (Suc k) (a + 1) n"
      "case r of Some (t, b, p) \<Rightarrow> t = ts \<and> b = a + 1 + word_of_nat n \<and> p = lottery_hash sha256 node nonce ts b \<and>
            meets_difficulty p diff \<and> clock (Suc k + n) < deadline
        | None \<Rightarrow> \<not> clock (Suc k + n) < deadline"
    using assms(3) unfolding mined_def by blast
  have "a + word_of_nat (Suc n) = a + 1 + word_of_nat n" by (simp add: algebra_simps)
  moreover have "k + Suc n = Suc k + n" by simp
  ultimately show ?thesis
    unfolding mined_def using failed_before_Suc [OF assms(1,2) n(1)] n(2)
    by (intro exI [of _ "Suc n"]) (simp only: simp_thms)
qed

lemma mine_loop_result:
  assumes "mine_loop sha256 clock deadline node nonce ts diff k a = Some r"
  shows "mined sha256 clock deadline node nonce ts diff k a r"
proof (rule mine_loop.raw_induct [where P = mined, OF _ assms])
  fix loop sha256 clock deadline node nonce ts diff k a r
  assume ih: "\<And>sha256 clock deadline node nonce ts diff k a r.
      loop sha256 clock deadline node nonce ts diff k a = Some r \<Longrightarrow> mined sha256 clock deadline node nonce ts diff k a r"
    and r: "(if clock k < deadline
         then if meets_difficulty (lottery_hash sha256 node nonce ts a) diff
              then Some (Some (ts, a, lottery_hash sha256 node nonce ts a))
              else loop sha256 clock deadline node nonce ts diff (Suc k) (a + 1)
         else Some None) = Some r"
  show "mined sha256 clock deadline node nonce ts diff k a r"
  proof (cases "clock k < deadline \<and> \<not> meets_difficulty (lottery_hash sha256 node nonce ts a) diff")
    case True
    with r have "loop sha256 clock deadline node nonce ts diff (Suc k) (a + 1) = Some r" by simp
    from mined_step [OF _ _ ih [OF this]] True show ?thesis by blast
  next
    case False
    with r show ?thesis
      unfolding mined_def by (intro exI [of _ 0]) (auto simp: failed_before_0 split: if_splits)
  qed
qed

lemma mine_loop_ends:
  "\<not> clock (k + n) < deadline \<Longrightarrow> \<exists>r. mine_loop sha256 clock deadline node nonce ts diff k a = Some r"
proof (induction n arbitrary: k a)
  case 0
  then show ?case by (subst mine_loop.simps) simp
next
  case (Suc n)
  then show ?case by (subst mine_loop.simps) simp
qed

section \<open>Properties\<close>



text \<open>
  Property C26. A bid the node sends is signed over its final content: the payload recomputed from the
  sent bid is the one signed, the operator signature covers operator, node, task and stake, the
  lottery proof is the hash of the sent attempt, and the advertised MPS width never exceeds the
  node's.
\<close>

theorem signed_bid_consistent:
  assumes "build_signed_bid sha256 sign clock now a config load feats loc metrics = Some (Some b)"
  shows "bid_signature b = sign (signing_key config) (serialize_bid_payload b) \<and>
    (\<exists>oid key. operator_id config = Some oid \<and> operator_signing_key config = Some key \<and>
       bid_operator_id b = Some oid \<and> bid_operator_sig b = Some (sign key
         (serialize_operator_bid_payload oid (bid_node_id b) (bid_task_id b) (bid_stake_amount b)))) \<and>
    bid_lottery_proof b = lottery_hash sha256 (bid_node_id b) (an_nonce a) (bid_timestamp b) (bid_lottery_attempt b) \<and>
    meets_difficulty (bid_lottery_proof b) (an_bid_difficulty a) \<and>
    unat (bid_max_mps_qubits b) \<le> unat (max_mps_qubits config) \<and> bid_task_id b = an_task_id a"
proof -
  let ?ts = "chrono_lottery_timestamp now"
  obtain oid key t att p where ok: "operator_id config = Some oid" "operator_signing_key config = Some key"
      "mine_lottery sha256 clock ?ts (peer_id config) (an_nonce a) (an_bid_difficulty a) = Some (Some (t, att, p))"
    using assms unfolding build_signed_bid_def by (auto split: option.splits prod.splits)
  have lot: "t = ?ts \<and> p = lottery_hash sha256 (peer_id config) (an_nonce a) ?ts att \<and> meets_difficulty p (an_bid_difficulty a)"
  proof (cases "an_bid_difficulty a = 0")
    case True
    then show ?thesis using ok(3) by (auto simp: mine_lottery_def meets_difficulty_def)
  next
    case False
    with ok(3) have "mined sha256 clock (clock 0 + from_secs LOTTERY_TIME_WINDOW_SECS) (peer_id config)
        (an_nonce a) ?ts (an_bid_difficulty a) 1 0 (Some (t, att, p))"
      by (intro mine_loop_result) (simp add: mine_lottery_def)
    then show ?thesis by (auto simp: mined_def)
  qed
  have "unat (usize_to_u32_sat w) \<le> unat w" for w
    by (simp add: usize_to_u32_sat_def unsigned_ucast_eq take_bit_nat_less_eq_self)
  then show ?thesis
    using assms ok lot unfolding build_signed_bid_def
    by (auto simp: Let_def serialize_bid_payload_def)
qed

theorem signed_bid_consistent_witness:
  "\<exists>b :: unit bid.
     build_signed_bid (\<lambda>_. [0, 5]) (\<lambda>k p. of_nat k # p) (\<lambda>i. i * from_secs 6) (Some 1700000000)
       (demo_announcement\<lparr>an_bid_difficulty := 1\<rparr>) demo_config 3 0x11 None None = Some (Some b) \<and>
     bid_signature b = 1 # serialize_bid_payload b \<and>
     bid_operator_sig b = Some (2 # serialize_operator_bid_payload ''op'' ''p'' ''t1'' 10) \<and>
     meets_difficulty (bid_lottery_proof b) 1 \<and> bid_timestamp b = 1700000000"
proof -
  let ?sha = "\<lambda>_. [0, 5]" and ?clock = "\<lambda>i. i * from_secs 6"
  have mined: "mine_lottery ?sha ?clock 1700000000 ''p'' 42 1 = Some (Some (1700000000, 0, [0, 5]))"
    by (simp add: mine_lottery_def mine_loop.simps [of _ _ _ _ _ _ _ "Suc 0" 0] meets_difficulty_def lottery_hash_def
        from_secs_def LOTTERY_TIME_WINDOW_SECS_def)
  then obtain b :: "unit bid" where b: "build_signed_bid ?sha (\<lambda>k p. of_nat k # p) ?clock (Some 1700000000)
       (demo_announcement\<lparr>an_bid_difficulty := 1\<rparr>) demo_config 3 0x11 None None = Some (Some b)"
      and c: "bid_node_id b = ''p''" "bid_stake_amount b = 10" "bid_timestamp b = 1700000000"
    by (simp add: build_signed_bid_def demo_config_def demo_announcement_def chrono_lottery_timestamp_def Let_def)
  from signed_bid_consistent [OF b] c b show ?thesis
    by (auto simp: demo_config_def demo_announcement_def)
qed

end
