(* ===== verification/Storage.thy ===== *)
theory Storage
  imports Pcs Geo
begin

text \<open>
  The SQLite store of \<open>src/src/infra/storage.rs\<close>: the tables \<open>tasks\<close>, \<open>pending_results\<close> and
  \<open>pending_pcs\<close>, with their \<open>AUTOINCREMENT\<close> row numbers and \<open>UNIQUE\<close> keys, and the one-row table
  \<open>geo_cache\<close>. A table is the list of its rows in row order and the last number given out; a statement
  is the function SQL assigns to it.

  Every statement can fail in the engine (disk full, a busy file). \<open>st_fault\<close> says which of the
  statements executed on a connection fail and with what message, and \<open>st_calls\<close> counts them, so a
  theorem about an operation covers every pattern of failures. A failed statement changes no row.
  Writing and reading a task or a job as JSON is \<open>serde_json\<close>: an argument. Row numbers and attempts
  are natural numbers; SQLite keeps both in 64-bit integers.
\<close>

section \<open>Tables\<close>

record 'r table =
  tb_rows :: "'r list"
  tb_seq :: nat

definition empty_table :: "'r table" where "empty_table = \<lparr>tb_rows = [], tb_seq = 0\<rparr>"

definition tb_find :: "('r \<Rightarrow> 'k) \<Rightarrow> 'k \<Rightarrow> 'r table \<Rightarrow> 'r option" where
  "tb_find key k tb = find (\<lambda>r. key r = k) (tb_rows tb)"

definition tb_insert :: "(nat \<Rightarrow> 'r) \<Rightarrow> 'r table \<Rightarrow> 'r table" where
  "tb_insert mk tb = \<lparr>tb_rows = tb_rows tb @ [mk (Suc (tb_seq tb))], tb_seq = Suc (tb_seq tb)\<rparr>"

definition tb_update :: "('r \<Rightarrow> bool) \<Rightarrow> ('r \<Rightarrow> 'r) \<Rightarrow> 'r table \<Rightarrow> 'r table" where
  "tb_update p f tb = tb\<lparr>tb_rows := map (\<lambda>r. if p r then f r else r) (tb_rows tb)\<rparr>"

definition tb_delete :: "('r \<Rightarrow> bool) \<Rightarrow> 'r table \<Rightarrow> 'r table" where
  "tb_delete p tb = tb\<lparr>tb_rows := filter (\<lambda>r. \<not> p r) (tb_rows tb)\<rparr>"

text \<open>\<open>ORDER BY created_at ASC\<close>; rows of the same second stay in row order.\<close>

definition by_created :: "('r \<Rightarrow> i64) \<Rightarrow> 'r list \<Rightarrow> 'r list" where
  "by_created created = sort_key (\<lambda>r. sint (created r))"

section \<open>Rows and the store\<close>

record task_row =
  tk_id :: nat
  tk_pubkey :: string
  tk_task_id :: string
  tk_payload :: string
  tk_status :: string
  tk_created_at :: i64

text \<open>The rows of \<open>pending_results\<close> (the body is \<open>wire_body\<close>) and of \<open>pending_pcs\<close> (\<open>job_json\<close>).\<close>

record out_row =
  or_id :: nat
  or_pubkey :: string
  or_sub_task_id :: string
  or_body :: bytes
  or_attempts :: nat
  or_created_at :: i64

definition task_key :: "task_row \<Rightarrow> string \<times> string" where
  "task_key r = (tk_pubkey r, tk_task_id r)"

definition out_key :: "out_row \<Rightarrow> string \<times> string" where
  "out_key r = (or_pubkey r, or_sub_task_id r)"

record storage =
  st_tasks :: "task_row table"
  st_results :: "out_row table"
  st_pcs :: "out_row table"
  st_geo :: "(geo_info \<times> i64) option"
  st_calls :: nat
  st_fault :: "nat \<Rightarrow> err option"

text \<open>\<open>Storage::new\<close> on a fresh file: every \<open>CREATE TABLE IF NOT EXISTS\<close> makes an empty table.\<close>

definition new_storage :: "(nat \<Rightarrow> err option) \<Rightarrow> storage" where
  "new_storage fault = \<lparr>st_tasks = empty_table, st_results = empty_table, st_pcs = empty_table,
     st_geo = None, st_calls = 0, st_fault = fault\<rparr>"

text \<open>One statement: the engine may refuse it, otherwise it takes effect as a whole.\<close>

definition execute :: "(storage \<Rightarrow> (err + 'a) \<times> storage) \<Rightarrow> storage \<Rightarrow> (err + 'a) \<times> storage" where
  "execute stmt s =
     (let s' = s\<lparr>st_calls := Suc (st_calls s)\<rparr> in
      case st_fault s (st_calls s) of Some e \<Rightarrow> (Inl e, s') | None \<Rightarrow> stmt s')"

record pending_result =
  pres_id :: nat
  pres_pubkey :: string
  pres_sub_task_id :: string
  pres_wire_body :: bytes
  pres_attempts :: u32

record pending_pcs =
  pp_id :: nat
  pp_pubkey :: string
  pp_sub_task_id :: string
  pp_job_json :: bytes
  pp_attempts :: u32
  pp_created_at :: i64

definition result_of_row :: "out_row \<Rightarrow> pending_result" where
  "result_of_row r = \<lparr>pres_id = or_id r, pres_pubkey = or_pubkey r, pres_sub_task_id = or_sub_task_id r,
     pres_wire_body = or_body r, pres_attempts = word_of_nat (or_attempts r)\<rparr>"

definition pcs_of_row :: "out_row \<Rightarrow> pending_pcs" where
  "pcs_of_row r = \<lparr>pp_id = or_id r, pp_pubkey = or_pubkey r, pp_sub_task_id = or_sub_task_id r,
     pp_job_json = or_body r, pp_attempts = word_of_nat (or_attempts r), pp_created_at = or_created_at r\<rparr>"

text \<open>\<open>serde_json\<close> on stored values.\<close>

record ('v, 't) codec =
  enc :: "'v \<Rightarrow> err + 't"
  dec :: "'t \<Rightarrow> err + 'v"

type_synonym task_codec = "(compute_task, string) codec"
type_synonym job_codec = "(pending_pcs_job, bytes) codec"

section \<open>Tasks\<close>

definition unique_violation :: err where
  "unique_violation = ''UNIQUE constraint failed: tasks.orchestrator_pubkey, tasks.task_id''"

definition save_task :: "task_codec \<Rightarrow> nat option \<Rightarrow> compute_task \<Rightarrow> storage \<Rightarrow> (err + unit) \<times> storage" where
  "save_task c now task s =
     (case enc c task of
        Inl e \<Rightarrow> (Inl e, s)
      | Inr payload \<Rightarrow>
          let k = (ctk_orchestrator_pubkey task, cr_task_id (ctk_request task)) in
          execute (\<lambda>s.
            if tb_find task_key k (st_tasks s) \<noteq> None then (Inl unique_violation, s)
            else (Inr (), s\<lparr>st_tasks := tb_insert (\<lambda>i. \<lparr>tk_id = i, tk_pubkey = fst k, tk_task_id = snd k,
                   tk_payload = payload, tk_status = ''pending'', tk_created_at = unix_secs now\<rparr>) (st_tasks s)\<rparr>)) s)"

definition load_task :: "task_codec \<Rightarrow> string \<Rightarrow> string \<Rightarrow> storage \<Rightarrow> (err + compute_task option) \<times> storage" where
  "load_task c pubkey task_id =
     execute (\<lambda>s. (case tb_find task_key (pubkey, task_id) (st_tasks s) of
                     Some r \<Rightarrow> and_then (dec c (tk_payload r)) (\<lambda>t. Inr (Some t))
                   | None \<Rightarrow> Inr None, s))"

definition update_status :: "string \<Rightarrow> string \<Rightarrow> string \<Rightarrow> storage \<Rightarrow> (err + unit) \<times> storage" where
  "update_status pubkey task_id status =
     execute (\<lambda>s. (Inr (), s\<lparr>st_tasks :=
       tb_update (\<lambda>r. task_key r = (pubkey, task_id)) (\<lambda>r. r\<lparr>tk_status := status\<rparr>) (st_tasks s)\<rparr>))"

fun dec_all :: "('v, 't) codec \<Rightarrow> 't list \<Rightarrow> err + 'v list" where
  "dec_all c [] = Inr []"
| "dec_all c (p # ps) = and_then (dec c p) (\<lambda>v. and_then (dec_all c ps) (\<lambda>vs. Inr (v # vs)))"

definition get_pending_tasks :: "task_codec \<Rightarrow> storage \<Rightarrow> (err + compute_task list) \<times> storage" where
  "get_pending_tasks c =
     execute (\<lambda>s. (dec_all c (map tk_payload (by_created tk_created_at
       (filter (\<lambda>r. tk_status r = ''pending'') (tb_rows (st_tasks s))))), s))"

definition prunable :: "i64 \<Rightarrow> storage \<Rightarrow> task_row \<Rightarrow> bool" where
  "prunable older_than s r \<longleftrightarrow>
     (tk_status r = ''completed'' \<or> tk_status r = ''failed'') \<and> sint (tk_created_at r) < sint older_than \<and>
     \<not> list_ex (\<lambda>pr. out_key pr = task_key r) (tb_rows (st_results s))"

definition prune_terminal_tasks :: "i64 \<Rightarrow> storage \<Rightarrow> (err + u64) \<times> storage" where
  "prune_terminal_tasks older_than =
     execute (\<lambda>s. (Inr (word_of_nat (length (filter (prunable older_than s) (tb_rows (st_tasks s))))),
                   s\<lparr>st_tasks := tb_delete (prunable older_than s) (st_tasks s)\<rparr>))"

definition count_status :: "string \<Rightarrow> storage \<Rightarrow> u64" where
  "count_status status s = word_of_nat (length (filter (\<lambda>r. tk_status r = status) (tb_rows (st_tasks s))))"

definition count_tasks_by_status :: "storage \<Rightarrow> (err + u64 \<times> u64 \<times> u64) \<times> storage" where
  "count_tasks_by_status =
     execute (\<lambda>s. (Inr (count_status ''pending'' s, count_status ''completed'' s, count_status ''failed'' s), s))"

section \<open>Outboxes\<close>

text \<open>
  \<open>INSERT ... ON CONFLICT DO UPDATE\<close>: the outbox of results renews \<open>created_at\<close> of an existing row,
  the outbox of PCS jobs keeps it.
\<close>

definition upsert_row :: "bool \<Rightarrow> i64 \<Rightarrow> string \<times> string \<Rightarrow> bytes \<Rightarrow> out_row table \<Rightarrow> out_row table" where
  "upsert_row renew now k body tb =
     (if tb_find out_key k tb = None
      then tb_insert (\<lambda>i. \<lparr>or_id = i, or_pubkey = fst k, or_sub_task_id = snd k, or_body = body,
             or_attempts = 0, or_created_at = now\<rparr>) tb
      else tb_update (\<lambda>r. out_key r = k)
             (\<lambda>r. r\<lparr>or_body := body, or_attempts := 0, or_created_at := (if renew then now else or_created_at r)\<rparr>) tb)"

definition delete_row :: "string \<times> string \<Rightarrow> out_row table \<Rightarrow> out_row table" where
  "delete_row k = tb_delete (\<lambda>r. out_key r = k)"

definition upsert_pending_result :: "nat option \<Rightarrow> string \<Rightarrow> string \<Rightarrow> bytes \<Rightarrow> storage \<Rightarrow> (err + unit) \<times> storage" where
  "upsert_pending_result now pubkey sub_task_id wire_body =
     execute (\<lambda>s. (Inr (), s\<lparr>st_results := upsert_row True (unix_secs now) (pubkey, sub_task_id) wire_body (st_results s)\<rparr>))"

definition delete_pending_result :: "string \<Rightarrow> string \<Rightarrow> storage \<Rightarrow> (err + unit) \<times> storage" where
  "delete_pending_result pubkey sub_task_id =
     execute (\<lambda>s. (Inr (), s\<lparr>st_results := delete_row (pubkey, sub_task_id) (st_results s)\<rparr>))"

definition list_pending_results :: "storage \<Rightarrow> (err + pending_result list) \<times> storage" where
  "list_pending_results =
     execute (\<lambda>s. (Inr (map result_of_row (by_created or_created_at (tb_rows (st_results s)))), s))"

definition count_pending_results :: "storage \<Rightarrow> (err + usize) \<times> storage" where
  "count_pending_results = execute (\<lambda>s. (Inr (word_of_nat (length (tb_rows (st_results s)))), s))"

definition increment_pending_result_attempts :: "nat \<Rightarrow> storage \<Rightarrow> (err + unit) \<times> storage" where
  "increment_pending_result_attempts i =
     execute (\<lambda>s. (Inr (), s\<lparr>st_results :=
       tb_update (\<lambda>r. or_id r = i) (\<lambda>r. r\<lparr>or_attempts := or_attempts r + 1\<rparr>) (st_results s)\<rparr>))"

definition upsert_pending_pcs ::
    "job_codec \<Rightarrow> nat option \<Rightarrow> string \<Rightarrow> string \<Rightarrow> pending_pcs_job \<Rightarrow> storage \<Rightarrow> (err + unit) \<times> storage" where
  "upsert_pending_pcs c now pubkey sub_task_id job s =
     (case enc c job of
        Inl e \<Rightarrow> (Inl e, s)
      | Inr job_json \<Rightarrow>
          execute (\<lambda>s. (Inr (), s\<lparr>st_pcs := upsert_row False (unix_secs now) (pubkey, sub_task_id) job_json (st_pcs s)\<rparr>)) s)"

definition delete_pending_pcs :: "string \<Rightarrow> string \<Rightarrow> storage \<Rightarrow> (err + unit) \<times> storage" where
  "delete_pending_pcs pubkey sub_task_id =
     execute (\<lambda>s. (Inr (), s\<lparr>st_pcs := delete_row (pubkey, sub_task_id) (st_pcs s)\<rparr>))"

definition get_pending_pcs :: "string \<Rightarrow> string \<Rightarrow> storage \<Rightarrow> (err + pending_pcs option) \<times> storage" where
  "get_pending_pcs pubkey sub_task_id =
     execute (\<lambda>s. (Inr (map_option pcs_of_row (tb_find out_key (pubkey, sub_task_id) (st_pcs s))), s))"

definition list_pending_pcs :: "storage \<Rightarrow> (err + pending_pcs list) \<times> storage" where
  "list_pending_pcs =
     execute (\<lambda>s. (Inr (map pcs_of_row (by_created or_created_at (tb_rows (st_pcs s)))), s))"

definition delete_pending_pcs_by_id :: "nat \<Rightarrow> storage \<Rightarrow> (err + unit) \<times> storage" where
  "delete_pending_pcs_by_id i = execute (\<lambda>s. (Inr (), s\<lparr>st_pcs := tb_delete (\<lambda>r. or_id r = i) (st_pcs s)\<rparr>))"

definition increment_pending_pcs_attempts :: "nat \<Rightarrow> storage \<Rightarrow> (err + unit) \<times> storage" where
  "increment_pending_pcs_attempts i =
     execute (\<lambda>s. (Inr (), s\<lparr>st_pcs :=
       tb_update (\<lambda>r. or_id r = i) (\<lambda>r. r\<lparr>or_attempts := or_attempts r + 1\<rparr>) (st_pcs s)\<rparr>))"

section \<open>The location cache\<close>

definition get_cached_geo :: "nat option \<Rightarrow> storage \<Rightarrow> (err + geo_info option) \<times> storage" where
  "get_cached_geo now =
     execute (\<lambda>s. (Inr (case st_geo s of
         Some (g, updated_at) \<Rightarrow> if sint (unix_secs now) - sint updated_at < GEO_CACHE_TTL_SECS then Some g else None
       | None \<Rightarrow> None), s))"

text \<open>SQLite stores a NaN as \<open>NULL\<close>, which the columns refuse.\<close>

definition save_geo_cache :: "nat option \<Rightarrow> geo_info \<Rightarrow> storage \<Rightarrow> (err + unit) \<times> storage" where
  "save_geo_cache now g =
     execute (\<lambda>s. if f64_is_nan (latitude g) then (Inl ''NOT NULL constraint failed: geo_cache.latitude'', s)
                  else if f64_is_nan (longitude g) then (Inl ''NOT NULL constraint failed: geo_cache.longitude'', s)
                  else (Inr (), s\<lparr>st_geo := Some (g, unix_secs now)\<rparr>))"

section \<open>Tables with unique keys\<close>

definition table_ok :: "('r \<Rightarrow> 'k) \<Rightarrow> ('r \<Rightarrow> nat) \<Rightarrow> 'r table \<Rightarrow> bool" where
  "table_ok key rid tb \<longleftrightarrow> distinct (map key (tb_rows tb)) \<and> sorted_wrt (<) (map rid (tb_rows tb)) \<and>
     list_all (\<lambda>r. rid r \<le> tb_seq tb) (tb_rows tb)"

lemma tb_find_None: "tb_find key k tb = None \<longleftrightarrow> k \<notin> key ` set (tb_rows tb)"
  by (auto simp: tb_find_def find_None_iff)

lemma tb_find_SomeD: "tb_find key k tb = Some r \<Longrightarrow> r \<in> set (tb_rows tb) \<and> key r = k"
  by (auto simp: tb_find_def find_Some_iff)

lemma tb_find_member:
  assumes "distinct (map key (tb_rows tb))" "r \<in> set (tb_rows tb)"
  shows "tb_find key (key r) tb = Some r"
proof (cases "tb_find key (key r) tb")
  case None
  with assms(2) show ?thesis by (auto simp: tb_find_None)
next
  case (Some r')
  then have "r' \<in> set (tb_rows tb)" "key r' = key r" by (auto dest: tb_find_SomeD)
  with assms have "r' = r" by (auto simp: distinct_map inj_on_def)
  with Some show ?thesis by simp
qed

lemma find_snoc: "find p (xs @ [y]) = (case find p xs of None \<Rightarrow> if p y then Some y else None | Some r \<Rightarrow> Some r)"
  by (induction xs) auto

lemma tb_find_insert [table_simps]:
  assumes "tb_find key k tb = None" "key (mk (Suc (tb_seq tb))) = k"
  shows "tb_find key j (tb_insert mk tb) = (if j = k then Some (mk (Suc (tb_seq tb))) else tb_find key j tb)"
  using assms by (auto simp: tb_find_def tb_insert_def find_snoc split: option.splits)

lemma tb_find_update [table_simps]:
  assumes "\<And>r. key (f r) = key r"
  shows "tb_find key j (tb_update (\<lambda>r. key r = k) f tb) =
    (if j = k then map_option f (tb_find key j tb) else tb_find key j tb)"
proof -
  have "find (\<lambda>r. key r = j) (map (\<lambda>r. if key r = k then f r else r) xs) =
      (if j = k then map_option f (find (\<lambda>r. key r = j) xs) else find (\<lambda>r. key r = j) xs)" for xs
    by (induction xs) (auto simp: assms)
  then show ?thesis by (simp add: tb_find_def tb_update_def)
qed

lemma tb_find_delete [table_simps]:
  "tb_find key j (tb_delete (\<lambda>r. key r = k) tb) = (if j = k then None else tb_find key j tb)"
proof -
  have "find (\<lambda>r. key r = j) (filter (\<lambda>r. key r \<noteq> k) xs) = (if j = k then None else find (\<lambda>r. key r = j) xs)" for xs
    by (induction xs) auto
  then show ?thesis by (simp add: tb_find_def tb_delete_def)
qed

lemma tb_find_delete_where:
  assumes "distinct (map key (tb_rows tb))"
  shows "tb_find key k (tb_delete q tb) = (case tb_find key k tb of Some r \<Rightarrow> if q r then None else Some r | None \<Rightarrow> None)"
proof -
  have "find (\<lambda>r. key r = k) (filter (\<lambda>r. \<not> q r) xs) =
      (case find (\<lambda>r. key r = k) xs of Some r \<Rightarrow> if q r then None else Some r | None \<Rightarrow> None)"
    if "distinct (map key xs)" for xs
    using that by (induction xs) (auto simp: find_None_iff find_Some_iff in_set_conv_nth image_iff split: option.split, metis nth_mem)
  then show ?thesis using assms by (simp add: tb_find_def tb_delete_def)
qed

lemma table_ok_empty: "table_ok key rid empty_table"
  by (simp add: table_ok_def empty_table_def)

lemma table_ok_insert:
  assumes "table_ok key rid tb" "tb_find key (key (mk (Suc (tb_seq tb)))) tb = None" "rid (mk (Suc (tb_seq tb))) = Suc (tb_seq tb)"
  shows "table_ok key rid (tb_insert mk tb)"
  using assms
  by (auto simp: table_ok_def tb_insert_def tb_find_None sorted_wrt_append list_all_iff le_Suc_eq less_Suc_eq_le)

lemma table_ok_update:
  assumes "table_ok key rid tb" "\<And>r. key (f r) = key r" "\<And>r. rid (f r) = rid r"
  shows "table_ok key rid (tb_update p f tb)"
proof -
  have "key \<circ> (\<lambda>r. if p r then f r else r) = key" "rid \<circ> (\<lambda>r. if p r then f r else r) = rid"
    using assms(2,3) by auto
  then show ?thesis
    using assms by (auto simp: table_ok_def tb_update_def list_all_iff)
qed

lemma table_ok_delete: "table_ok key rid tb \<Longrightarrow> table_ok key rid (tb_delete p tb)"
  by (auto simp: table_ok_def tb_delete_def distinct_map_filter list_all_iff sorted_wrt_map sorted_wrt_filter)

lemma out_key_simps [simp]:
  "out_key (r\<lparr>or_body := b\<rparr>) = out_key r" "out_key (r\<lparr>or_attempts := n\<rparr>) = out_key r"
  "out_key (r\<lparr>or_created_at := t\<rparr>) = out_key r"
  "out_key \<lparr>or_id = i, or_pubkey = p, or_sub_task_id = st, or_body = b, or_attempts = n, or_created_at = t\<rparr> = (p, st)"
  by (simp_all add: out_key_def)

lemma task_key_simps [simp]:
  "task_key (r\<lparr>tk_status := st\<rparr>) = task_key r"
  "task_key \<lparr>tk_id = i, tk_pubkey = p, tk_task_id = t, tk_payload = b, tk_status = st, tk_created_at = c\<rparr> = (p, t)"
  by (simp_all add: task_key_def)

lemma table_ok_upsert: "table_ok out_key or_id tb \<Longrightarrow> table_ok out_key or_id (upsert_row renew now k body tb)"
  unfolding upsert_row_def
  by (auto intro!: table_ok_insert table_ok_update)

lemma table_ok_delete_row: "table_ok out_key or_id tb \<Longrightarrow> table_ok out_key or_id (delete_row k tb)"
  by (simp add: delete_row_def table_ok_delete)

text \<open>
  An outbox is a store of bodies by key: the contract of a keyed store holds for both tables,
  whatever the clock says and whether a renewed row keeps its time of creation.
\<close>

definition outbox_body :: "out_row table \<Rightarrow> string \<times> string \<Rightarrow> bytes option" where
  "outbox_body tb k = map_option or_body (tb_find out_key k tb)"

interpretation outbox: keyed_store empty_table outbox_body "upsert_row renew now" delete_row "table_ok out_key or_id"
  for renew now
proof unfold_locales
  fix k b and m :: "out_row table"
  show "outbox_body empty_table k = None" by (simp add: outbox_body_def tb_find_def empty_table_def)
  show "outbox_body (upsert_row renew now k b m) = (outbox_body m)(k := Some b)"
    by (auto simp: fun_eq_iff outbox_body_def upsert_row_def tb_find_insert tb_find_update option.map_comp comp_def)
  show "outbox_body (delete_row k m) = (outbox_body m)(k := None)"
    by (auto simp: fun_eq_iff outbox_body_def delete_row_def table_simps)
qed (simp_all add: table_ok_empty table_ok_upsert table_ok_delete_row)

section \<open>The invariant of the store\<close>

definition storage_ok :: "storage \<Rightarrow> bool" where
  "storage_ok s \<longleftrightarrow> table_ok task_key tk_id (st_tasks s) \<and> table_ok out_key or_id (st_results s) \<and>
     table_ok out_key or_id (st_pcs s)"

lemma storage_ok_calls [simp]: "storage_ok (s\<lparr>st_calls := n\<rparr>) = storage_ok s"
  by (simp add: storage_ok_def)

lemma execute_keeps:
  assumes "\<And>s. P s \<Longrightarrow> P (snd (stmt s))" "\<And>s n. P (s\<lparr>st_calls := n\<rparr>) = P s" "P s"
  shows "P (snd (execute stmt s))"
  using assms by (auto simp: execute_def Let_def split: option.split)

lemmas store_ok_rules = execute_keeps [where P = storage_ok, OF _ storage_ok_calls]

lemma save_task_ok: "storage_ok s \<Longrightarrow> storage_ok (snd (save_task c now t s))"
proof (cases "enc c t")
  case (Inr b)
  assume "storage_ok s"
  then show ?thesis
    unfolding save_task_def Let_def Inr sum.case
    by (rule store_ok_rules [rotated]) (auto simp: storage_ok_def intro!: table_ok_insert)
qed (simp add: save_task_def)

lemma load_task_ok: "storage_ok s \<Longrightarrow> storage_ok (snd (load_task c p t s))"
  unfolding load_task_def by (rule store_ok_rules) simp_all

lemma update_status_ok: "storage_ok s \<Longrightarrow> storage_ok (snd (update_status p t st s))"
  unfolding update_status_def
  by (rule store_ok_rules) (auto simp: storage_ok_def intro!: table_ok_update)

lemma get_pending_tasks_ok: "storage_ok s \<Longrightarrow> storage_ok (snd (get_pending_tasks c s))"
  unfolding get_pending_tasks_def by (rule store_ok_rules) simp_all

lemma prune_terminal_tasks_ok: "storage_ok s \<Longrightarrow> storage_ok (snd (prune_terminal_tasks t s))"
  unfolding prune_terminal_tasks_def
  by (rule store_ok_rules) (auto simp: storage_ok_def intro!: table_ok_delete)

lemma upsert_pending_result_ok: "storage_ok s \<Longrightarrow> storage_ok (snd (upsert_pending_result now p t b s))"
  unfolding upsert_pending_result_def
  by (rule store_ok_rules) (auto simp: storage_ok_def intro!: table_ok_upsert)

lemma delete_pending_result_ok: "storage_ok s \<Longrightarrow> storage_ok (snd (delete_pending_result p t s))"
  unfolding delete_pending_result_def
  by (rule store_ok_rules) (auto simp: storage_ok_def intro!: table_ok_delete_row)

lemma increment_pending_result_attempts_ok:
  "storage_ok s \<Longrightarrow> storage_ok (snd (increment_pending_result_attempts i s))"
  unfolding increment_pending_result_attempts_def
  by (rule store_ok_rules) (auto simp: storage_ok_def intro!: table_ok_update)

lemma upsert_pending_pcs_ok: "storage_ok s \<Longrightarrow> storage_ok (snd (upsert_pending_pcs c now p t j s))"
proof (cases "enc c j")
  case (Inr b)
  assume "storage_ok s"
  then show ?thesis
    unfolding upsert_pending_pcs_def Inr sum.case
    by (rule store_ok_rules [rotated]) (auto simp: storage_ok_def intro!: table_ok_upsert)
qed (simp add: upsert_pending_pcs_def)

lemma delete_pending_pcs_ok: "storage_ok s \<Longrightarrow> storage_ok (snd (delete_pending_pcs p t s))"
  unfolding delete_pending_pcs_def
  by (rule store_ok_rules) (auto simp: storage_ok_def intro!: table_ok_delete_row)

lemma delete_pending_pcs_by_id_ok: "storage_ok s \<Longrightarrow> storage_ok (snd (delete_pending_pcs_by_id i s))"
  unfolding delete_pending_pcs_by_id_def
  by (rule store_ok_rules) (auto simp: storage_ok_def intro!: table_ok_delete)

lemma increment_pending_pcs_attempts_ok:
  "storage_ok s \<Longrightarrow> storage_ok (snd (increment_pending_pcs_attempts i s))"
  unfolding increment_pending_pcs_attempts_def
  by (rule store_ok_rules) (auto simp: storage_ok_def intro!: table_ok_update)

lemma save_geo_cache_ok: "storage_ok s \<Longrightarrow> storage_ok (snd (save_geo_cache now g s))"
  unfolding save_geo_cache_def by (rule store_ok_rules) (auto simp: storage_ok_def)

lemma storage_queries_ok:
  assumes "storage_ok s"
  shows "storage_ok (snd (count_tasks_by_status s))" "storage_ok (snd (list_pending_results s))"
    "storage_ok (snd (count_pending_results s))" "storage_ok (snd (get_pending_pcs p t s))"
    "storage_ok (snd (list_pending_pcs s))" "storage_ok (snd (get_cached_geo now s))"
  unfolding count_tasks_by_status_def list_pending_results_def count_pending_results_def
    get_pending_pcs_def list_pending_pcs_def get_cached_geo_def
  by (rule store_ok_rules, simp, rule assms)+

lemmas storage_op_ok = save_task_ok load_task_ok update_status_ok get_pending_tasks_ok prune_terminal_tasks_ok
  upsert_pending_result_ok delete_pending_result_ok increment_pending_result_attempts_ok upsert_pending_pcs_ok
  delete_pending_pcs_ok delete_pending_pcs_by_id_ok increment_pending_pcs_attempts_ok
  save_geo_cache_ok storage_queries_ok

text \<open>Any operation, with any arguments and any engine failures, is a step of the store.\<close>

inductive storage_step :: "storage \<Rightarrow> storage \<Rightarrow> bool" where
  "storage_step s (snd (save_task c now t s))"
| "storage_step s (snd (load_task c p i s))"
| "storage_step s (snd (update_status p i st s))"
| "storage_step s (snd (get_pending_tasks c s))"
| "storage_step s (snd (prune_terminal_tasks u s))"
| "storage_step s (snd (count_tasks_by_status s))"
| "storage_step s (snd (upsert_pending_result now p i b s))"
| "storage_step s (snd (delete_pending_result p i s))"
| "storage_step s (snd (list_pending_results s))"
| "storage_step s (snd (count_pending_results s))"
| "storage_step s (snd (increment_pending_result_attempts n s))"
| "storage_step s (snd (upsert_pending_pcs cj now p i j s))"
| "storage_step s (snd (delete_pending_pcs p i s))"
| "storage_step s (snd (get_pending_pcs p i s))"
| "storage_step s (snd (list_pending_pcs s))"
| "storage_step s (snd (delete_pending_pcs_by_id n s))"
| "storage_step s (snd (increment_pending_pcs_attempts n s))"
| "storage_step s (snd (get_cached_geo now s))"
| "storage_step s (snd (save_geo_cache now g s))"

interpretation store: step_system "\<lambda>s. \<exists>fault. s = new_storage fault" storage_step storage_ok
proof unfold_locales
  fix s t
  show "\<exists>fault. s = new_storage fault \<Longrightarrow> storage_ok s"
    by (auto simp: new_storage_def storage_ok_def table_ok_empty)
  show "storage_step s t \<Longrightarrow> storage_ok s \<Longrightarrow> storage_ok t"
    by (induction rule: storage_step.induct) (auto intro: storage_op_ok)
qed

section \<open>Effects of the operations\<close>

definition results_map :: "storage \<Rightarrow> string \<times> string \<Rightarrow> bytes option" where
  "results_map s = outbox_body (st_results s)"

definition pcs_map :: "storage \<Rightarrow> string \<times> string \<Rightarrow> bytes option" where
  "pcs_map s = outbox_body (st_pcs s)"

definition task_at :: "storage \<Rightarrow> string \<times> string \<Rightarrow> task_row option" where
  "task_at s k = tb_find task_key k (st_tasks s)"

lemma views_calls [simp]:
  "results_map (s\<lparr>st_calls := n\<rparr>) = results_map s" "pcs_map (s\<lparr>st_calls := n\<rparr>) = pcs_map s"
  "task_at (s\<lparr>st_calls := n\<rparr>) = task_at s"
  by (simp_all add: results_map_def pcs_map_def task_at_def fun_eq_iff)

lemma execute_cases:
  "(\<exists>e. execute stmt s = (Inl e, s\<lparr>st_calls := Suc (st_calls s)\<rparr>)) \<or>
   execute stmt s = stmt (s\<lparr>st_calls := Suc (st_calls s)\<rparr>)"
  by (auto simp: execute_def Let_def split: option.split)

lemma execute_ok: "st_fault s (st_calls s) = None \<Longrightarrow> execute stmt s = stmt (s\<lparr>st_calls := Suc (st_calls s)\<rparr>)"
  by (simp add: execute_def)

lemmas storage_op_defs = save_task_def load_task_def update_status_def get_pending_tasks_def prune_terminal_tasks_def
  count_tasks_by_status_def upsert_pending_result_def delete_pending_result_def list_pending_results_def
  count_pending_results_def increment_pending_result_attempts_def upsert_pending_pcs_def delete_pending_pcs_def
  get_pending_pcs_def list_pending_pcs_def delete_pending_pcs_by_id_def increment_pending_pcs_attempts_def
  get_cached_geo_def save_geo_cache_def

lemma outbox_body_attempts:
  "outbox_body (tb_update p (\<lambda>r. r\<lparr>or_attempts := f r\<rparr>) tb) = outbox_body tb"
proof -
  have "map_option or_body (find (\<lambda>r. out_key r = k) (map (\<lambda>r. if p r then r\<lparr>or_attempts := f r\<rparr> else r) xs))
      = map_option or_body (find (\<lambda>r. out_key r = k) xs)" for k xs
    by (induction xs) auto
  then show ?thesis by (simp add: fun_eq_iff outbox_body_def tb_find_def tb_update_def)
qed

text \<open>What each operation does to the two outboxes.\<close>

lemma results_after [table_simps]:
  "results_map (snd (upsert_pending_result now p i b s)) =
     (if is_ok (fst (upsert_pending_result now p i b s)) then (results_map s)((p, i) \<mapsto> b) else results_map s)"
  "results_map (snd (delete_pending_result p i s)) =
     (if is_ok (fst (delete_pending_result p i s)) then (results_map s)((p, i) := None) else results_map s)"
  "results_map (snd (increment_pending_result_attempts n s)) = results_map s"
  "results_map (snd (update_status p i st s)) = results_map s"
  "results_map (snd (load_task c p i s)) = results_map s"
  "results_map (snd (save_task c now t s)) = results_map s"
  "results_map (snd (prune_terminal_tasks u s)) = results_map s"
  "results_map (snd (upsert_pending_pcs cj now p i j s)) = results_map s"
  "results_map (snd (delete_pending_pcs p i s)) = results_map s"
  "results_map (snd (get_pending_pcs p i s)) = results_map s"
  "results_map (snd (list_pending_results s)) = results_map s"
  by (auto simp: storage_op_defs execute_def Let_def results_map_def outbox.get_put outbox.get_del
      outbox_body_attempts split: option.split sum.split)

lemma pcs_after [table_simps]:
  "pcs_map (snd (upsert_pending_pcs cj now p i j s)) =
     (case fst (upsert_pending_pcs cj now p i j s) of Inr _ \<Rightarrow> (pcs_map s)((p, i) := (case enc cj j of Inr b \<Rightarrow> Some b | Inl _ \<Rightarrow> None))
      | Inl _ \<Rightarrow> pcs_map s)"
  "pcs_map (snd (delete_pending_pcs p i s)) =
     (if is_ok (fst (delete_pending_pcs p i s)) then (pcs_map s)((p, i) := None) else pcs_map s)"
  "pcs_map (snd (increment_pending_pcs_attempts n s)) = pcs_map s"
  "pcs_map (snd (get_pending_pcs p i s)) = pcs_map s"
  "pcs_map (snd (upsert_pending_result now p i b s)) = pcs_map s"
  "pcs_map (snd (delete_pending_result p i s)) = pcs_map s"
  "pcs_map (snd (update_status p i st s)) = pcs_map s"
  "pcs_map (snd (load_task c p i s)) = pcs_map s"
  "pcs_map (snd (save_task c now t s)) = pcs_map s"
  by (auto simp: storage_op_defs execute_def Let_def pcs_map_def outbox.get_put outbox.get_del
      outbox_body_attempts split: option.split sum.split)

lemma task_after [table_simps]:
  "task_at (snd (save_task c now t s)) =
     (case (fst (save_task c now t s), enc c t) of
        (Inr _, Inr b) \<Rightarrow> (task_at s)((ctk_orchestrator_pubkey t, cr_task_id (ctk_request t)) \<mapsto>
          \<lparr>tk_id = Suc (tb_seq (st_tasks s)), tk_pubkey = ctk_orchestrator_pubkey t, tk_task_id = cr_task_id (ctk_request t),
           tk_payload = b, tk_status = ''pending'', tk_created_at = unix_secs now\<rparr>)
      | _ \<Rightarrow> task_at s)"
  "task_at (snd (update_status p i st s)) =
     (if is_ok (fst (update_status p i st s))
      then (task_at s)((p, i) := map_option (\<lambda>r. r\<lparr>tk_status := st\<rparr>) (task_at s (p, i))) else task_at s)"
  "task_at (snd (load_task c p i s)) = task_at s"
  "task_at (snd (upsert_pending_result now p i b s)) = task_at s"
  "task_at (snd (delete_pending_result p i s)) = task_at s"
  "task_at (snd (upsert_pending_pcs cj now p i j s)) = task_at s"
  "task_at (snd (delete_pending_pcs p i s)) = task_at s"
  "task_at (snd (get_pending_pcs p i s)) = task_at s"
  by (auto simp: fun_eq_iff storage_op_defs execute_def Let_def task_at_def table_simps split: option.split sum.split)

lemma save_task_duplicate:
  assumes "task_at s (ctk_orchestrator_pubkey u, cr_task_id (ctk_request u)) \<noteq> None" "enc c u = Inr b"
    "st_fault s (st_calls s) = None"
  shows "fst (save_task c now u s) = Inl unique_violation"
  using assms by (simp add: save_task_def execute_ok task_at_def)

lemma prune_terminal_run:
  assumes "fst (prune_terminal_tasks cutoff s) = Inr n"
  shows "n = word_of_nat (length (filter (prunable cutoff s) (tb_rows (st_tasks s))))"
    and "snd (prune_terminal_tasks cutoff s) =
      s\<lparr>st_calls := Suc (st_calls s), st_tasks := tb_delete (prunable cutoff s) (st_tasks s)\<rparr>"
proof -
  have "prunable cutoff (s\<lparr>st_calls := m\<rparr>) = prunable cutoff s" for m by (simp add: prunable_def fun_eq_iff)
  then show "n = word_of_nat (length (filter (prunable cutoff s) (tb_rows (st_tasks s))))"
    and "snd (prune_terminal_tasks cutoff s) =
      s\<lparr>st_calls := Suc (st_calls s), st_tasks := tb_delete (prunable cutoff s) (st_tasks s)\<rparr>"
    using assms by (auto simp: prune_terminal_tasks_def execute_def Let_def split: option.splits)
qed

lemma prune_terminal_live:
  assumes "storage_ok s" "fst (prune_terminal_tasks cutoff s) = Inr n" "task_at s k = Some r"
  shows "task_at (snd (prune_terminal_tasks cutoff s)) k =
        (if (tk_status r = ''completed'' \<or> tk_status r = ''failed'') \<and> sint (tk_created_at r) < sint cutoff \<and>
            results_map s k = None then None else Some r)"
proof -
  have d: "distinct (map task_key (tb_rows (st_tasks s)))" using assms(1) by (simp add: storage_ok_def table_ok_def)
  have "list_ex (\<lambda>pr. out_key pr = k) (tb_rows (st_results s)) \<longleftrightarrow> results_map s k \<noteq> None"
    by (auto simp: results_map_def outbox_body_def tb_find_def list_ex_iff find_None_iff)
  moreover have "task_key r = k" using assms(3) by (auto simp: task_at_def dest: tb_find_SomeD)
  ultimately show ?thesis
    using assms(3) by (simp add: prune_terminal_run(2) [OF assms(2)] task_at_def tb_find_delete_where [OF d] prunable_def)
qed

lemma prune_terminal_absent:
  assumes "storage_ok s" "fst (prune_terminal_tasks cutoff s) = Inr n" "task_at s k = None"
  shows "task_at (snd (prune_terminal_tasks cutoff s)) k = None"
  using assms by (simp add: prune_terminal_run(2) [OF assms(2)] task_at_def tb_find_delete_where storage_ok_def table_ok_def)

section \<open>Properties\<close>

text \<open>
  Property C20. Whatever operations run on a fresh store and whichever of their statements the engine
  refuses, no two rows of a table share their unique key, and no two share their row number: a lookup
  by key or by number finds at most one row.
\<close>

theorem stored_keys_unique:
  assumes "storage_step\<^sup>*\<^sup>* (new_storage fault) s"
  shows "distinct (map task_key (tb_rows (st_tasks s))) \<and> distinct (map out_key (tb_rows (st_results s))) \<and>
    distinct (map out_key (tb_rows (st_pcs s))) \<and> distinct (map tk_id (tb_rows (st_tasks s))) \<and>
    distinct (map or_id (tb_rows (st_results s))) \<and> distinct (map or_id (tb_rows (st_pcs s)))"
proof -
  have "storage_ok s" using assms by (intro store.reachable_inv) auto
  then show ?thesis by (auto simp: storage_ok_def table_ok_def strict_sorted_iff)
qed

theorem stored_keys_unique_witness:
  "let s = snd (upsert_pending_result (Some 9) ''o'' ''t'' [7] (snd (upsert_pending_result (Some 5) ''o'' ''t'' [6]
       (new_storage (\<lambda>n. None)))))
   in length (tb_rows (st_results s)) = 1 \<and> distinct (map out_key (tb_rows (st_results s)))"
proof -
  let ?s1 = "snd (upsert_pending_result (Some 5) ''o'' ''t'' [6] (new_storage (\<lambda>n. None)))"
  let ?s2 = "snd (upsert_pending_result (Some 9) ''o'' ''t'' [7] ?s1)"
  have "storage_step\<^sup>*\<^sup>* (new_storage (\<lambda>n. None)) ?s2"
    by (meson rtranclp.intros storage_step.intros(7))
  from stored_keys_unique [OF this] show ?thesis
    by (simp add: upsert_pending_result_def execute_def new_storage_def upsert_row_def tb_find_def
        empty_table_def tb_insert_def tb_update_def)
qed

text \<open>
  Property C19. The outbox of results is a map from orchestrator and sub-task to the body to send:
  a successful \<open>upsert\<close> or \<open>delete\<close> changes exactly its entry, a refused one changes nothing, counting a
  failed attempt changes no body, and the listing of a well-formed store is the whole map, oldest entry first.
\<close>

theorem outbox_refines_map:
  assumes "storage_ok s"
  shows "results_map (snd (upsert_pending_result now p i b s)) =
      (if is_ok (fst (upsert_pending_result now p i b s)) then (results_map s)((p, i) \<mapsto> b) else results_map s) \<and>
    results_map (snd (delete_pending_result p i s)) =
      (if is_ok (fst (delete_pending_result p i s)) then (results_map s)((p, i) := None) else results_map s) \<and>
    results_map (snd (increment_pending_result_attempts n s)) = results_map s \<and>
    (case fst (list_pending_results s) of
       Inl _ \<Rightarrow> st_fault s (st_calls s) \<noteq> None
     | Inr l \<Rightarrow> map_of (map (\<lambda>r. ((pres_pubkey r, pres_sub_task_id r), pres_wire_body r)) l) = results_map s \<and>
         (\<exists>rows. l = map result_of_row rows \<and> mset rows = mset (tb_rows (st_results s)) \<and>
            sorted (map (\<lambda>r. sint (or_created_at r)) rows)))"
proof -
  let ?rows = "tb_rows (st_results s)" and ?sorted = "by_created or_created_at (tb_rows (st_results s))"
  have d: "distinct (map out_key ?rows)" using assms by (simp add: storage_ok_def table_ok_def)
  have ds: "distinct (map out_key ?sorted)" using d
    by (metis by_created_def distinct_map distinct_sort set_sort inj_on_cong)
  have "map_of (map (\<lambda>r. (out_key r, or_body r)) ?sorted) = map_of (map (\<lambda>r. (out_key r, or_body r)) ?rows)"
    using d ds by (subst map_of_inject_set) (auto simp: by_created_def comp_def)
  moreover have "map_of (map (\<lambda>r. (out_key r, or_body r)) xs) k = map_option or_body (find (\<lambda>r. out_key r = k) xs)" for xs k
    by (induction xs) auto
  ultimately have "map_of (map (\<lambda>r. (out_key r, or_body r)) ?sorted) = results_map s"
    by (simp add: fun_eq_iff results_map_def outbox_body_def tb_find_def)
  moreover have "mset ?sorted = mset ?rows" "sorted (map (\<lambda>r. sint (or_created_at r)) ?sorted)"
    by (simp_all add: by_created_def)
  ultimately show ?thesis
    by (auto simp: table_simps list_pending_results_def execute_def Let_def comp_def result_of_row_def
        out_key_def split: option.split)
qed

definition demo_store :: storage where
  "demo_store = (new_storage (\<lambda>n. None))\<lparr>st_results := \<lparr>tb_rows =
     [\<lparr>or_id = 1, or_pubkey = ''o'', or_sub_task_id = ''t1'', or_body = [6], or_attempts = 2, or_created_at = 50\<rparr>,
      \<lparr>or_id = 2, or_pubkey = ''o'', or_sub_task_id = ''t2'', or_body = [8], or_attempts = 0, or_created_at = 40\<rparr>],
     tb_seq = 2\<rparr>,
     st_tasks := \<lparr>tb_rows =
     [\<lparr>tk_id = 1, tk_pubkey = ''o'', tk_task_id = ''t0'', tk_payload = ''x'', tk_status = ''completed'', tk_created_at = 10\<rparr>,
      \<lparr>tk_id = 2, tk_pubkey = ''o'', tk_task_id = ''t1'', tk_payload = ''y'', tk_status = ''completed'', tk_created_at = 20\<rparr>,
      \<lparr>tk_id = 3, tk_pubkey = ''o'', tk_task_id = ''t3'', tk_payload = ''z'', tk_status = ''pending'', tk_created_at = 5\<rparr>],
     tb_seq = 3\<rparr>\<rparr>"

lemma demo_store_ok: "storage_ok demo_store"
  by (simp add: demo_store_def storage_ok_def table_ok_def new_storage_def empty_table_def task_key_def out_key_def)

theorem outbox_refines_map_witness:
  "storage_ok demo_store \<and>
   results_map (snd (delete_pending_result ''o'' ''t1'' demo_store)) = (results_map demo_store)((''o'', ''t1'') := None) \<and>
   results_map demo_store (''o'', ''t1'') = Some [6]"
proof -
  have "is_ok (fst (delete_pending_result ''o'' ''t1'' demo_store))"
    by (simp add: delete_pending_result_def execute_def demo_store_def new_storage_def)
  with outbox_refines_map [OF demo_store_ok, of None "''o''" "''t1''" "[]" 0] demo_store_ok show ?thesis
    by (simp add: results_map_def outbox_body_def tb_find_def demo_store_def)
qed

text \<open>
  Property C21. Pruning removes exactly the finished tasks older than the cut-off that owe no result: a
  pending task, a task whose result still waits in the outbox and a younger task stay as they are, the
  reported number is the number of rows gone (modulo \<open>2^64\<close>), and no outbox changes.
\<close>

theorem prune_keeps_live_tasks:
  assumes "storage_ok s" and "fst (prune_terminal_tasks cutoff s) = Inr n"
  shows "(\<forall>k r. task_at s k = Some r \<longrightarrow>
      task_at (snd (prune_terminal_tasks cutoff s)) k =
        (if (tk_status r = ''completed'' \<or> tk_status r = ''failed'') \<and> sint (tk_created_at r) < sint cutoff \<and>
            results_map s k = None then None else Some r)) \<and>
    (\<forall>k. task_at s k = None \<longrightarrow> task_at (snd (prune_terminal_tasks cutoff s)) k = None) \<and>
    n = word_of_nat (length (tb_rows (st_tasks s)) - length (tb_rows (st_tasks (snd (prune_terminal_tasks cutoff s))))) \<and>
    results_map (snd (prune_terminal_tasks cutoff s)) = results_map s"
proof -
  have "length (filter (prunable cutoff s) xs) = length xs - length (filter (\<lambda>r. \<not> prunable cutoff s r) xs)" for xs
    using sum_length_filter_compl [of "prunable cutoff s" xs] by simp
  then have "n = word_of_nat (length (tb_rows (st_tasks s)) - length (tb_rows (st_tasks (snd (prune_terminal_tasks cutoff s)))))"
    using prune_terminal_run [OF assms(2)] by (simp add: tb_delete_def)
  then show ?thesis
    using prune_terminal_live [OF assms] prune_terminal_absent [OF assms] results_after(7) by blast
qed

theorem prune_keeps_live_tasks_witness:
  "storage_ok demo_store \<and> fst (prune_terminal_tasks 30 demo_store) = Inr 1 \<and>
   task_at (snd (prune_terminal_tasks 30 demo_store)) (''o'', ''t0'') = None \<and>
   task_at (snd (prune_terminal_tasks 30 demo_store)) (''o'', ''t1'') \<noteq> None \<and>
   task_at (snd (prune_terminal_tasks 30 demo_store)) (''o'', ''t3'') \<noteq> None"
proof -
  have n: "fst (prune_terminal_tasks 30 demo_store) = Inr 1"
    by (simp add: prune_terminal_tasks_def execute_def demo_store_def new_storage_def prunable_def task_key_def out_key_def)
  have rows: "\<exists>r. task_at demo_store (''o'', ''t0'') = Some r \<and> tk_status r = ''completed'' \<and> tk_created_at r = 10"
    "\<exists>r. task_at demo_store (''o'', ''t1'') = Some r" "\<exists>r. task_at demo_store (''o'', ''t3'') = Some r \<and> tk_status r = ''pending''"
    by (simp_all add: task_at_def tb_find_def demo_store_def task_key_def)
  have out: "results_map demo_store (''o'', ''t0'') = None" "results_map demo_store (''o'', ''t1'') \<noteq> None"
    by (simp_all add: results_map_def outbox_body_def tb_find_def demo_store_def out_key_def)
  show ?thesis
    using prune_keeps_live_tasks [OF demo_store_ok n] demo_store_ok n rows out by fastforce
qed

text \<open>
  A stored task is found again: after a successful \<open>save_task\<close> the lookup under its keys
  returns the task whenever the JSON of the task reads back and the engine answers, every other lookup
  is unchanged, and a second task under the same keys is refused with the unique-key message that the
  caller tests for, leaving the stored one in place.
\<close>

theorem saved_task_loads:
  assumes "fst (save_task c now t s) = Inr ()" and "\<And>b. enc c t = Inr b \<Longrightarrow> dec c b = Inr t"
    and "\<And>n. st_fault s n = None"
  shows "fst (load_task c (ctk_orchestrator_pubkey t) (cr_task_id (ctk_request t)) (snd (save_task c now t s))) = Inr (Some t) \<and>
    ((p, i) \<noteq> (ctk_orchestrator_pubkey t, cr_task_id (ctk_request t)) \<longrightarrow>
       fst (load_task c p i (snd (save_task c now t s))) = fst (load_task c p i s)) \<and>
    (\<forall>u b. ctk_orchestrator_pubkey u = ctk_orchestrator_pubkey t \<and> cr_task_id (ctk_request u) = cr_task_id (ctk_request t) \<and>
       enc c u = Inr b \<longrightarrow>
       fst (save_task c now u (snd (save_task c now t s))) = Inl unique_violation \<and>
       task_at (snd (save_task c now u (snd (save_task c now t s)))) = task_at (snd (save_task c now t s)))"
proof -
  let ?k = "(ctk_orchestrator_pubkey t, cr_task_id (ctk_request t))" and ?s = "snd (save_task c now t s)"
  have nofault: "st_fault ?s n = None" for n
    using assms(3) by (auto simp: save_task_def execute_def Let_def split: sum.split option.split)
  obtain b where b: "enc c t = Inr b" using assms(1) by (auto simp: save_task_def split: sum.splits)
  have load: "fst (load_task c p i s') = (case task_at s' (p, i) of
      Some r \<Rightarrow> and_then (dec c (tk_payload r)) (\<lambda>t. Inr (Some t)) | None \<Rightarrow> Inr None)"
    if "\<And>n. st_fault s' n = None" for s' p i
    by (simp add: load_task_def execute_ok that task_at_def)
  have there: "\<exists>r. task_at ?s ?k = Some r \<and> tk_payload r = b"
    and others: "k \<noteq> ?k \<Longrightarrow> task_at ?s k = task_at s k" for k
    using assms(1) b by (simp_all add: table_simps)
  have "fst (save_task c now u ?s) = Inl unique_violation"
    if "ctk_orchestrator_pubkey u = ctk_orchestrator_pubkey t" "cr_task_id (ctk_request u) = cr_task_id (ctk_request t)" "enc c u = Inr b'"
    for u b'
    using there that by (intro save_task_duplicate nofault) auto
  then show ?thesis
    using there others assms(2) [OF b] by (auto simp: load nofault assms(3) task_after(1) split: sum.split)
qed

definition demo_task :: "string \<Rightarrow> compute_task" where
  "demo_task i = \<lparr>ctk_request = (into_compute_request demo_sub_task ''p'')\<lparr>cr_task_id := i\<rparr>,
     ctk_orchestrator_pubkey = ''o'', ctk_budget = None, ctk_accepted_at_ms = 0\<rparr>"

definition demo_task_codec :: task_codec where
  "demo_task_codec = \<lparr>enc = (\<lambda>t. Inr (cr_task_id (ctk_request t))), dec = (\<lambda>p. Inr (demo_task p))\<rparr>"

lemma demo_task_simps [simp]:
  "cr_task_id (ctk_request (demo_task i)) = i" "ctk_orchestrator_pubkey (demo_task i) = ''o''"
  "ctk_budget (demo_task i) = None"
  by (simp_all add: demo_task_def)

lemma demo_codec_simps [simp]:
  "enc demo_task_codec t = Inr (cr_task_id (ctk_request t))" "dec demo_task_codec p = Inr (demo_task p)"
  by (simp_all add: demo_task_codec_def)

theorem saved_task_loads_witness:
  "fst (load_task demo_task_codec ''o'' ''t9'' (snd (save_task demo_task_codec (Some 60) (demo_task ''t9'') demo_store)))
     = Inr (Some (demo_task ''t9'')) \<and>
   fst (save_task demo_task_codec (Some 60) (demo_task ''t9'')
     (snd (save_task demo_task_codec (Some 60) (demo_task ''t9'') demo_store))) = Inl unique_violation"
proof -
  have "fst (save_task demo_task_codec (Some 60) (demo_task ''t9'') demo_store) = Inr ()"
    by (simp add: save_task_def execute_def demo_store_def new_storage_def tb_find_def task_key_def)
  from saved_task_loads [OF this] show ?thesis
    by (auto simp: demo_store_def new_storage_def)
qed

text \<open>
  The location cache: a location saved at one time is returned by every read less than a
  day later (a clock that ran back included), and by none later; a location with a NaN coordinate is
  never stored.
\<close>

theorem geo_cache_ttl:
  assumes "\<And>n. st_fault s n = None"
  shows "(if f64_is_nan (latitude g) \<or> f64_is_nan (longitude g)
     then \<not> is_ok (fst (save_geo_cache now g s)) \<and> st_geo (snd (save_geo_cache now g s)) = st_geo s
     else fst (save_geo_cache now g s) = Inr () \<and>
       fst (get_cached_geo later (snd (save_geo_cache now g s))) =
         Inr (if sint (unix_secs later) - sint (unix_secs now) < 86400 then Some g else None))"
  using assms
  by (simp add: save_geo_cache_def get_cached_geo_def execute_ok GEO_CACHE_TTL_SECS_def)

definition demo_geo :: geo_info where
  "demo_geo = \<lparr>latitude = Fin False 35, longitude = Fin False 139, geo_country = ''Japan'', geo_city = ''Tokyo''\<rparr>"

theorem geo_cache_ttl_witness:
  "fst (get_cached_geo (Some 86499) (snd (save_geo_cache (Some 100) demo_geo demo_store))) = Inr (Some demo_geo) \<and>
   fst (get_cached_geo (Some 86500) (snd (save_geo_cache (Some 100) demo_geo demo_store))) = Inr None"
proof -
  have "\<And>n. st_fault demo_store n = None" by (simp add: demo_store_def new_storage_def)
  from geo_cache_ttl [OF this, of demo_geo "Some 100" "Some 86499"] geo_cache_ttl [OF this, of demo_geo "Some 100" "Some 86500"]
  show ?thesis by (simp add: demo_geo_def unix_secs_def)
qed

end
