(* ===== verification/Task_Prune.thy ===== *)
theory Task_Prune
  imports Storage Config
begin

text \<open>
  The background pruning of finished tasks, \<open>src/src/application/task_prune.rs\<close>: its settings from the
  environment and one round. The loop only sleeps between rounds; \<open>prune_rounds\<close> is its state after a
  list of wake-ups, each with the reading of the system clock.
\<close>

definition DEFAULT_RETENTION_SECS :: nat where "DEFAULT_RETENTION_SECS = 86400"
definition DEFAULT_PRUNE_INTERVAL_SECS :: nat where "DEFAULT_PRUNE_INTERVAL_SECS = 3600"

text \<open>\<open>env::var(..).ok().and_then(|v| v.parse().ok()).unwrap_or(default)\<close> for a \<open>u64\<close>.\<close>

definition env_or_default :: "environment \<Rightarrow> string \<Rightarrow> nat \<Rightarrow> nat" where
  "env_or_default env name dflt =
     (case env name of None \<Rightarrow> dflt
      | Some v \<Rightarrow> (case parse_uint 64 v of None \<Rightarrow> dflt | Some n \<Rightarrow> n))"

text \<open>Retention and interval, or \<open>None\<close> when a retention of zero disables the loop.\<close>

definition prune_settings :: "environment \<Rightarrow> (u64 \<times> u64) option" where
  "prune_settings env =
     (let retention_secs = env_or_default env ''WQC_TASK_RETENTION_SECS'' DEFAULT_RETENTION_SECS;
          interval_secs = max (env_or_default env ''WQC_TASK_PRUNE_INTERVAL_SECS'' DEFAULT_PRUNE_INTERVAL_SECS) 1
      in if retention_secs = 0 then None else Some (word_of_nat retention_secs, word_of_nat interval_secs))"

text \<open>\<open>i64::saturating_sub\<close>.\<close>

definition i64_sat_sub :: "i64 \<Rightarrow> i64 \<Rightarrow> i64" where
  "i64_sat_sub a b = word_of_int (max (- (2 ^ 63)) (min (2 ^ 63 - 1) (sint a - sint b)))"

text \<open>The second component is what the round adds to the counter of pruned tasks.\<close>

definition run_prune :: "nat option \<Rightarrow> u64 \<Rightarrow> storage \<Rightarrow> storage \<times> u64" where
  "run_prune now retention_secs s =
     (let cutoff = i64_sat_sub (unix_secs now) retention_secs in
      case prune_terminal_tasks cutoff s of
        (Inr deleted, s') \<Rightarrow> (s', if deleted = 0 then 0 else deleted)
      | (Inl _, s') \<Rightarrow> (s', 0))"

fun prune_rounds :: "u64 \<Rightarrow> nat option list \<Rightarrow> storage \<Rightarrow> storage" where
  "prune_rounds retention [] s = s"
| "prune_rounds retention (now # ts) s = prune_rounds retention ts (fst (run_prune now retention s))"

definition spawn_prune_loop :: "environment \<Rightarrow> nat option list \<Rightarrow> storage \<Rightarrow> storage" where
  "spawn_prune_loop env wakeups s =
     (case prune_settings env of None \<Rightarrow> s | Some (retention, _) \<Rightarrow> prune_rounds retention wakeups s)"

section \<open>Lemmas\<close>

lemma sint_i64_bounds: "- (2 ^ 63) \<le> sint (x :: i64)" "sint (x :: i64) < 2 ^ 63"
  using sint_greater_eq [of x] sint_less [of x] by simp_all

lemma sint_i64_of_int: "- (2 ^ 63) \<le> k \<Longrightarrow> k < 2 ^ 63 \<Longrightarrow> sint (word_of_int k :: i64) = k"
  by (simp add: sint_sbintrunc' signed_take_bit_eq_take_bit_shift take_bit_int_eq_self)

lemma sint_i64_sat_sub: "sint (i64_sat_sub a b) = max (- (2 ^ 63)) (min (2 ^ 63 - 1) (sint a - sint b))"
  unfolding i64_sat_sub_def by (rule sint_i64_of_int) auto

lemma sint_u64:
  "sint (r :: u64) = (if unat r < 2 ^ 63 then int (unat r) else int (unat r) - 2 ^ 64)"
proof -
  have sint: "sint r = (uint r + 2 ^ 63) mod 2 ^ 64 - 2 ^ 63"
    by (simp add: sint_uint signed_take_bit_eq_take_bit_shift take_bit_eq_mod)
  have bounds: "0 \<le> uint r" "uint r < 2 ^ 64" using uint_lt2p [of r] by simp_all
  have u: "uint r = int (unat r)" by (rule uint_nat)
  have half: "unat r < 2 ^ 63 \<longleftrightarrow> uint r < 2 ^ 63"
    unfolding u by (metis of_nat_less_iff of_nat_numeral of_nat_power)
  show ?thesis
  proof (cases "uint r < 2 ^ 63")
    case True
    with bounds have "(uint r + 2 ^ 63) mod 2 ^ 64 = uint r + 2 ^ 63" by (intro mod_pos_pos_trivial) simp_all
    moreover have "unat r < 2 ^ 63" using True half by blast
    ultimately show ?thesis using sint by simp
  next
    case False
    with bounds have "(uint r - 2 ^ 63) mod 2 ^ 64 = uint r - 2 ^ 63" by (intro mod_pos_pos_trivial) simp_all
    moreover have "(uint r - 2 ^ 63 + 2 ^ 64) mod 2 ^ 64 = (uint r - 2 ^ 63) mod 2 ^ 64" by (rule mod_add_self2)
    moreover have "uint r - 2 ^ 63 + 2 ^ 64 = uint r + 2 ^ 63" by simp
    moreover have "\<not> unat r < 2 ^ 63" using False half by blast
    ultimately show ?thesis using sint by (simp add: add.commute)
  qed
qed

section \<open>Properties\<close>



end
