(* ===== verification/Metrics.thy ===== *)
theory Metrics
  imports Storage
begin

text \<open>
  The process metrics of \<open>src/src/infra/metrics.rs\<close>: the counters, gauges and histograms the other
  parts write, the summary that travels on bids, and the refresh of the gauges. A counter is a
  number, a labelled one a function of its label, a histogram the list of what was observed.
  Encoding for the \<open>/metrics\<close> endpoint is left to the \<open>prometheus\<close> package.
\<close>

record node_metrics =
  started_at :: "instant option"
  orchestrator_connected :: bool
  connected_peers :: u64
  core_timeouts :: u64
  g_uptime_seconds :: i64
  g_pending_tasks :: i64
  g_outbox_pending :: i64
  g_p2p_connected_peers :: i64
  g_p2p_orchestrator_connected :: i64
  core_compute_duration_seconds :: "f64 list"
  core_prove_duration_seconds :: "f64 list"
  core_request_duration_seconds :: "f64 list"
  core_requests_total :: "string \<Rightarrow> u64"
  core_timeouts_total :: u64
  tasks_total :: "string \<Rightarrow> u64"
  result_deliveries_total :: "string \<times> string \<Rightarrow> u64"
  tasks_pruned_total :: u64
  tasks_rows :: "string \<Rightarrow> i64"

definition init_metrics :: "instant \<Rightarrow> node_metrics" where
  "init_metrics now = \<lparr>started_at = Some now, orchestrator_connected = False, connected_peers = 0, core_timeouts = 0,
     g_uptime_seconds = 0, g_pending_tasks = 0, g_outbox_pending = 0, g_p2p_connected_peers = 0,
     g_p2p_orchestrator_connected = 0, core_compute_duration_seconds = [], core_prove_duration_seconds = [],
     core_request_duration_seconds = [], core_requests_total = (\<lambda>_. 0), core_timeouts_total = 0,
     tasks_total = (\<lambda>_. 0), result_deliveries_total = (\<lambda>_. 0), tasks_pruned_total = 0, tasks_rows = (\<lambda>_. 0)\<rparr>"

record metrics_summary =
  ms_pending_tasks :: u64
  ms_outbox_pending :: u64
  ms_p2p_connected_peers :: u64
  ms_p2p_orchestrator_connected :: u8
  ms_core_timeouts_total :: u64
  ms_uptime_seconds :: u64

definition set_orchestrator_connected :: "bool \<Rightarrow> node_metrics \<Rightarrow> node_metrics" where
  "set_orchestrator_connected up m =
     m\<lparr>orchestrator_connected := up, g_p2p_orchestrator_connected := (if up then 1 else 0)\<rparr>"

definition set_connected_peers :: "usize \<Rightarrow> node_metrics \<Rightarrow> node_metrics" where
  "set_connected_peers n m = m\<lparr>connected_peers := n, g_p2p_connected_peers := n\<rparr>"

definition uptime_secs :: "instant \<Rightarrow> node_metrics \<Rightarrow> u64" where
  "uptime_secs now m =
     (case started_at m of Some t \<Rightarrow> word_of_nat (duration_since now t div 1000000000) | None \<Rightarrow> 0)"

definition ok_or :: "'a \<Rightarrow> 'e + 'a \<Rightarrow> 'a" where
  "ok_or d r = (case r of Inr x \<Rightarrow> x | Inl _ \<Rightarrow> d)"

definition snapshot_for_bid :: "instant \<Rightarrow> usize \<Rightarrow> node_metrics \<Rightarrow> storage \<Rightarrow> metrics_summary \<times> storage" where
  "snapshot_for_bid now pending m s =
     (case count_pending_results s of (n, s') \<Rightarrow>
        (\<lparr>ms_pending_tasks = pending, ms_outbox_pending = ok_or 0 n, ms_p2p_connected_peers = connected_peers m,
          ms_p2p_orchestrator_connected = (if orchestrator_connected m then 1 else 0),
          ms_core_timeouts_total = core_timeouts m, ms_uptime_seconds = uptime_secs now m\<rparr>, s'))"

text \<open>\<open>report.compute_wall_ms as f64 / 1000.0\<close>.\<close>

definition ms_to_secs :: "u64 \<Rightarrow> f64" where
  "ms_to_secs n = f64_div (u64_as_f64 n) (Fin False 1000)"

definition observe_wall :: "u64 \<Rightarrow> f64 list \<Rightarrow> f64 list" where
  "observe_wall n h = (if 0 < n then h @ [ms_to_secs n] else h)"

definition inc :: "'l \<Rightarrow> ('l \<Rightarrow> u64) \<Rightarrow> ('l \<Rightarrow> u64)" where
  "inc l f = f(l := f l + 1)"

definition record_core_success :: "duration \<Rightarrow> work_report option \<Rightarrow> node_metrics \<Rightarrow> node_metrics" where
  "record_core_success elapsed report m =
     (let m = m\<lparr>core_requests_total := inc ''ok'' (core_requests_total m),
                core_request_duration_seconds := core_request_duration_seconds m @ [as_secs_f64 elapsed]\<rparr>
      in case report of
           None \<Rightarrow> m
         | Some r \<Rightarrow> m\<lparr>core_compute_duration_seconds := observe_wall (wr_compute_wall_ms r) (core_compute_duration_seconds m),
                       core_prove_duration_seconds := observe_wall (wr_prove_wall_ms r) (core_prove_duration_seconds m)\<rparr>)"

definition record_core_error :: "bool \<Rightarrow> node_metrics \<Rightarrow> node_metrics" where
  "record_core_error is_timeout m =
     (if is_timeout
      then m\<lparr>core_timeouts := core_timeouts m + 1, core_requests_total := inc ''timeout'' (core_requests_total m),
             core_timeouts_total := core_timeouts_total m + 1\<rparr>
      else m\<lparr>core_requests_total := inc ''error'' (core_requests_total m)\<rparr>)"

definition record_task_status :: "string \<Rightarrow> node_metrics \<Rightarrow> node_metrics" where
  "record_task_status status m = m\<lparr>tasks_total := inc status (tasks_total m)\<rparr>"

definition record_result_delivery :: "string \<Rightarrow> string \<Rightarrow> node_metrics \<Rightarrow> node_metrics" where
  "record_result_delivery attempt result m =
     m\<lparr>result_deliveries_total := inc (attempt, result) (result_deliveries_total m)\<rparr>"

definition record_tasks_pruned :: "u64 \<Rightarrow> node_metrics \<Rightarrow> node_metrics" where
  "record_tasks_pruned n m =
     (if n = 0 then m else m\<lparr>tasks_pruned_total := tasks_pruned_total m + n\<rparr>)"

definition refresh_gauges :: "instant \<Rightarrow> usize \<Rightarrow> node_metrics \<Rightarrow> storage \<Rightarrow> node_metrics \<times> storage" where
  "refresh_gauges now pending m s =
     (case count_pending_results s of (outbox, s1) \<Rightarrow>
      case count_tasks_by_status s1 of (rows, s2) \<Rightarrow>
        let m1 = m\<lparr>g_uptime_seconds := uptime_secs now m, g_pending_tasks := pending,
                   g_outbox_pending := ok_or 0 outbox,
                   g_p2p_orchestrator_connected := (if orchestrator_connected m then 1 else 0)\<rparr>
        in (case rows of
              Inl _ \<Rightarrow> m1
            | Inr (pending_rows, completed, failed) \<Rightarrow>
                m1\<lparr>tasks_rows := (tasks_rows m1)(''pending'' := pending_rows, ''completed'' := completed, ''failed'' := failed)\<rparr>, s2))"

section \<open>Lemmas\<close>

text \<open>The timeout counter of the summary and the exported one never part.\<close>

definition timeouts_agree :: "node_metrics \<Rightarrow> bool" where
  "timeouts_agree m \<longleftrightarrow> core_timeouts m = core_timeouts_total m \<and> core_timeouts m = core_requests_total m ''timeout''"

lemma timeouts_agree_kept:
  assumes "timeouts_agree m"
  shows "timeouts_agree (record_core_error b m)" "timeouts_agree (record_core_success d r m)"
    "timeouts_agree (record_task_status st m)" "timeouts_agree (record_result_delivery a b' m)"
    "timeouts_agree (record_tasks_pruned n m)" "timeouts_agree (fst (refresh_gauges now p m s))"
    "timeouts_agree (set_orchestrator_connected c m)" "timeouts_agree (set_connected_peers k m)"
  using assms
  by (auto simp: timeouts_agree_def record_core_error_def record_core_success_def record_task_status_def
      record_result_delivery_def record_tasks_pruned_def refresh_gauges_def set_orchestrator_connected_def
      set_connected_peers_def inc_def Let_def split: option.split sum.split prod.split)

lemma snapshot_storage_ok: "storage_ok s \<Longrightarrow> storage_ok (snd (snapshot_for_bid now p m s))"
  using storage_queries_ok(3) [of s] by (auto simp: snapshot_for_bid_def split: prod.split)

end
