(* ===== verification/Core_Client.thy ===== *)
theory Core_Client
  imports Metrics Config
begin

text \<open>
  The HTTP client of the compute core, \<open>src/src/infra/core_client.rs\<close>: the health gate that stops
  calling a core after repeated unreachable errors, and the requests behind it.

  What comes back from the core is an argument: an answer is a transport error of \<open>reqwest\<close> with its
  classification, or a status (with the text it prints as), the outcome of decoding the body, and the
  body as text. An operation that reads the monotonic clock at several points takes one reading per point.
\<close>

section \<open>Answers\<close>

record http_error =
  he_text :: string
  he_timeout :: bool
  he_body :: bool
  he_decode :: bool
  he_connect :: bool
  he_request :: bool

datatype 'b response =
    No_response http_error
  | Response (status: nat) (status_text: string) (decoded: "err + 'b") (body_text: "string option")

section \<open>The client\<close>

definition DEFAULT_FAIL_THRESHOLD :: u32 where "DEFAULT_FAIL_THRESHOLD = 3"
definition DEFAULT_BACKOFF_SECS :: nat where "DEFAULT_BACKOFF_SECS = 30"
definition SKIP_LOG_INTERVAL :: duration where "SKIP_LOG_INTERVAL = from_secs 30"

record core_client =
  cc_base_url :: string
  cc_compute_timeout :: duration
  cc_pcs_timeout :: duration
  cc_fail_threshold :: u32
  cc_backoff :: duration
  cc_consecutive_failures :: u32
  cc_unhealthy_until :: "instant option"
  cc_last_skip_log :: "instant option"

record leaf_pcs_response =
  lp_leaf_pcs_b64 :: string
  lp_bytes :: u64

definition env_parsed :: "environment \<Rightarrow> nat \<Rightarrow> string \<Rightarrow> nat option" where
  "env_parsed env bits name = (case env name of None \<Rightarrow> None | Some v \<Rightarrow> parse_uint bits v)"

fun strip_all_prefixes :: "nat \<Rightarrow> string \<Rightarrow> string \<Rightarrow> string" where
  "strip_all_prefixes 0 p s = s"
| "strip_all_prefixes (Suc n) p s = (case strip_prefix p s of None \<Rightarrow> s | Some r \<Rightarrow> strip_all_prefixes n p r)"

text \<open>
  \<open>WqcCoreClient::new\<close>; the second component is the Unix socket the HTTP client connects to, if any.
  \<open>trim_start_matches\<close> with a string pattern strips it repeatedly.
\<close>

definition new_core_client :: "environment \<Rightarrow> string \<Rightarrow> duration \<Rightarrow> duration \<Rightarrow> core_client \<times> string option" where
  "new_core_client env url compute_limit pcs_limit =
     (let fail_threshold = (case env_parsed env 32 ''WQC_CORE_HEALTH_FAIL_THRESHOLD'' of
             Some n \<Rightarrow> word_of_nat n | None \<Rightarrow> DEFAULT_FAIL_THRESHOLD);
          backoff_secs = (case env_parsed env 64 ''WQC_CORE_HEALTH_BACKOFF_SECS'' of
             Some n \<Rightarrow> n | None \<Rightarrow> DEFAULT_BACKOFF_SECS);
          client = \<lparr>cc_base_url = (if starts_with ''unix:'' url then ''http://localhost''
                                   else trim_end_matches (CHR ''/'') url),
             cc_compute_timeout = compute_limit, cc_pcs_timeout = pcs_limit, cc_fail_threshold = fail_threshold,
             cc_backoff = from_secs backoff_secs, cc_consecutive_failures = 0, cc_unhealthy_until = None,
             cc_last_skip_log = None\<rparr>
      in (client, if starts_with ''unix:'' url then Some (strip_all_prefixes (length url) ''unix:'' url) else None))"

definition is_in_backoff :: "instant \<Rightarrow> core_client \<Rightarrow> bool" where
  "is_in_backoff now c = (case cc_unhealthy_until c of Some until \<Rightarrow> now < until | None \<Rightarrow> False)"

definition is_unreachable :: "http_error \<Rightarrow> bool" where
  "is_unreachable e = (if he_timeout e \<or> he_body e \<or> he_decode e then False else he_connect e \<or> he_request e)"

definition mark_healthy :: "core_client \<Rightarrow> core_client" where
  "mark_healthy c = c\<lparr>cc_consecutive_failures := 0, cc_unhealthy_until := None\<rparr>"

definition record_unreachable :: "instant \<Rightarrow> core_client \<Rightarrow> core_client" where
  "record_unreachable now c =
     (let n = cc_consecutive_failures c + 1;
          c = c\<lparr>cc_consecutive_failures := cc_consecutive_failures c + 1\<rparr>
      in if cc_fail_threshold c \<le> n
         then c\<lparr>cc_unhealthy_until := Some (now + cc_backoff c), cc_consecutive_failures := 0\<rparr>
         else c)"

definition log_skip :: "instant \<Rightarrow> core_client \<Rightarrow> core_client" where
  "log_skip now c =
     (if (case cc_last_skip_log c of None \<Rightarrow> True | Some t \<Rightarrow> SKIP_LOG_INTERVAL \<le> duration_since now t)
      then c\<lparr>cc_last_skip_log := Some now\<rparr> else c)"

definition probe_health :: "unit response \<Rightarrow> err + unit" where
  "probe_health answer =
     (case answer of
        No_response e \<Rightarrow> with_context ''Failed to reach wqc-core /health'' (Inl (he_text e))
      | Response st txt _ _ \<Rightarrow>
          if \<not> http_is_success st then Inl (''wqc-core /health returned '' @ txt) else Inr ())"

definition ensure_ready :: "instant \<Rightarrow> instant \<Rightarrow> unit response \<Rightarrow> core_client \<Rightarrow> (err + unit) \<times> core_client" where
  "ensure_ready t0 t1 health c =
     (if is_in_backoff t0 c
      then (Inl ''wqc-core unhealthy (backoff); skipping request'', log_skip t0 c)
      else case probe_health health of
             Inr _ \<Rightarrow> (Inr (), mark_healthy c)
           | Inl e \<Rightarrow> (with_context ''wqc-core health check failed'' (Inl e), record_unreachable t1 c))"

text \<open>
  The answers of \<open>/health\<close> and the clock after each probe, from number \<open>k\<close> on; \<open>None\<close> would be a wait
  that never ends.
\<close>

partial_function (option) wait_loop :: "(nat \<Rightarrow> unit response) \<Rightarrow> (nat \<Rightarrow> instant) \<Rightarrow> instant \<Rightarrow> nat \<Rightarrow> bool option" where
  "wait_loop health clock deadline k =
     (if is_ok (probe_health (health k)) then Some True
      else if deadline \<le> clock k then Some False
      else wait_loop health clock deadline (Suc k))"

definition wait_until_up :: "(nat \<Rightarrow> unit response) \<Rightarrow> (nat \<Rightarrow> instant) \<Rightarrow> instant \<Rightarrow> duration \<Rightarrow> bool option" where
  "wait_until_up health clock now limit = wait_loop health clock (now + limit) 0"

text \<open>The clock readings and answers of one guarded request: at the gate, after a failed probe, when sent, after the answer.\<close>

record 'b core_call =
  cl_at_gate :: instant
  cl_after_probe :: instant
  cl_sent :: instant
  cl_answered :: instant
  cl_health :: "unit response"
  cl_post :: "duration \<Rightarrow> 'b response"

definition dispatch_task ::
    "compute_response core_call \<Rightarrow> duration \<Rightarrow> core_client \<Rightarrow> node_metrics \<Rightarrow> (err + compute_response) \<times> core_client \<times> node_metrics" where
  "dispatch_task call timeout c m =
     (case ensure_ready (cl_at_gate call) (cl_after_probe call) (cl_health call) c of
        (Inl e, c) \<Rightarrow> (Inl e, c, m)
      | (Inr _, c) \<Rightarrow>
          (case cl_post call (min timeout (cc_compute_timeout c)) of
             No_response e \<Rightarrow>
               (with_context ''Failed to send request to wqc-core'' (Inl (he_text e)),
                if is_unreachable e then record_unreachable (cl_answered call) c else c,
                record_core_error (he_timeout e) m)
           | Response st txt body text \<Rightarrow>
               if st = 200 then
                 (case body of
                    Inl e \<Rightarrow> (with_context ''Failed to parse success response body'' (Inl e), c, m)
                  | Inr rsp \<Rightarrow> (Inr rsp, mark_healthy c,
                      record_core_success (duration_since (cl_answered call) (cl_sent call)) (rsp_work_report rsp) m))
               else (Inl (''wqc-core returned error status: '' @ txt @ '' - '' @ (case text of Some t \<Rightarrow> t | None \<Rightarrow> [])),
                     c, record_core_error False m)))"

definition post_leaf_pcs :: "leaf_pcs_response core_call \<Rightarrow> core_client \<Rightarrow> (err + leaf_pcs_response) \<times> core_client" where
  "post_leaf_pcs call c =
     (case ensure_ready (cl_at_gate call) (cl_after_probe call) (cl_health call) c of
        (Inl e, c) \<Rightarrow> (Inl e, c)
      | (Inr _, c) \<Rightarrow>
          (case cl_post call (cc_pcs_timeout c) of
             No_response e \<Rightarrow>
               (with_context ''Failed to send leaf_pcs request to wqc-core'' (Inl (he_text e)),
                if is_unreachable e then record_unreachable (cl_answered call) c else c)
           | Response st txt body text \<Rightarrow>
               if st = 200 then (with_context ''Failed to parse leaf_pcs response'' body, mark_healthy c)
               else (Inl (''wqc-core leaf_pcs error status: '' @ txt @ '' - '' @ (case text of Some t \<Rightarrow> t | None \<Rightarrow> [])), c)))"

text \<open>The answer of the core depends on the request: the proof is an argument of the call.\<close>

definition build_leaf_pcs ::
    "(proof_wire \<Rightarrow> leaf_pcs_response core_call) \<Rightarrow> proof_wire \<Rightarrow> core_client \<Rightarrow> (err + leaf_pcs_response) \<times> core_client" where
  "build_leaf_pcs core proof c = post_leaf_pcs (core proof) c"

definition build_leaf_pcs_from_proof_bytes ::
    "(bytes \<Rightarrow> string) \<Rightarrow> (proof_wire \<Rightarrow> leaf_pcs_response core_call) \<Rightarrow> bytes \<Rightarrow> string \<Rightarrow> string \<Rightarrow> string
      \<Rightarrow> core_client \<Rightarrow> (err + leaf_pcs_response) \<times> core_client" where
  "build_leaf_pcs_from_proof_bytes b64_encode core proof_bytes sub_task_id node_id slice_id c =
     build_leaf_pcs core
       \<lparr>pf_public_inputs = \<lparr>pi_circuit_id = [], pi_sub_task_id = sub_task_id, pi_node_id = node_id,
            pi_slice_id = slice_id, pi_output_result_hash = [], pi_measurement_spec_hash = [], pi_security_level = []\<rparr>,
        pf_stark_proof_b64 = b64_encode proof_bytes\<rparr> c"

definition get_json :: "string \<Rightarrow> string \<Rightarrow> 'b response \<Rightarrow> err + 'b" where
  "get_json url what answer =
     (case answer of
        No_response e \<Rightarrow> with_context (''Could not connect to wqc-core at '' @ url) (Inl (he_text e))
      | Response _ _ body _ \<Rightarrow> with_context what body)"

definition get_supported_gates :: "string list response \<Rightarrow> core_client \<Rightarrow> err + string list" where
  "get_supported_gates answer c = get_json (cc_base_url c @ ''/gates'') ''Failed to parse gate list from core'' answer"

definition get_system_info :: "core_system_info response \<Rightarrow> core_client \<Rightarrow> err + core_system_info" where
  "get_system_info answer c = get_json (cc_base_url c @ ''/sysinfo'') ''Failed to parse system info from core'' answer"

section \<open>The health gate\<close>

text \<open>The counter stays below the threshold, so it never wraps and the gate opens on time.\<close>

definition gate_ok :: "core_client \<Rightarrow> bool" where
  "gate_ok c \<longleftrightarrow> cc_consecutive_failures c = 0 \<or> cc_consecutive_failures c < cc_fail_threshold c"

lemma gate_ok_healthy: "gate_ok c \<Longrightarrow> gate_ok (mark_healthy c)"
  by (simp add: gate_ok_def mark_healthy_def)

lemma gate_ok_unreachable: "gate_ok c \<Longrightarrow> gate_ok (record_unreachable t c)"
  by (auto simp: gate_ok_def record_unreachable_def Let_def not_le)

lemma gate_ok_log: "gate_ok (log_skip t c) = gate_ok c"
  by (simp add: gate_ok_def log_skip_def)

lemma gate_ok_ready: "gate_ok c \<Longrightarrow> gate_ok (snd (ensure_ready t0 t1 h c))"
  by (simp add: ensure_ready_def gate_ok_log gate_ok_healthy gate_ok_unreachable split: sum.split)

text \<open>One request, and its effect on the gate: every way the client changes is one of these.\<close>

inductive gate_step :: "core_client \<Rightarrow> core_client \<Rightarrow> bool" where
  "gate_step c (snd (ensure_ready t0 t1 h c))"
| "gate_step c (fst (snd (dispatch_task call timeout c m)))"
| "gate_step c (snd (post_leaf_pcs pcs_call c))"

lemma gate_ok_step: "gate_step c c' \<Longrightarrow> gate_ok c \<Longrightarrow> gate_ok c'"
proof (induction rule: gate_step.induct)
  case (2 c call timeout m)
  then show ?case
    using gate_ok_ready [of c "cl_at_gate call" "cl_after_probe call" "cl_health call"]
    by (auto simp: dispatch_task_def gate_ok_healthy gate_ok_unreachable split: prod.split sum.split response.split)
next
  case (3 c call)
  then show ?case
    using gate_ok_ready [of c "cl_at_gate call" "cl_after_probe call" "cl_health call"]
    by (auto simp: post_leaf_pcs_def gate_ok_healthy gate_ok_unreachable split: prod.split sum.split response.split)
qed (rule gate_ok_ready)

interpretation gate: step_system "\<lambda>c. \<exists>env url t p. c = fst (new_core_client env url t p)" gate_step gate_ok
proof unfold_locales
  fix c c'
  show "\<exists>env url t p. c = fst (new_core_client env url t p) \<Longrightarrow> gate_ok c"
    by (auto simp: new_core_client_def gate_ok_def Let_def)
  show "gate_step c c' \<Longrightarrow> gate_ok c \<Longrightarrow> gate_ok c'" by (rule gate_ok_step)
qed

text \<open>A run of unreachable errors at given times.\<close>

definition unreachable_run :: "instant list \<Rightarrow> core_client \<Rightarrow> core_client" where
  "unreachable_run ts c = foldl (\<lambda>c t. record_unreachable t c) c ts"

lemma unat_of_nat_self: "word_of_nat (unat w) = (w :: 'a::len word)"
  by simp

lemma unreachable_run_below:
  assumes "cc_consecutive_failures c = 0" "length ts < unat (cc_fail_threshold c)"
  shows "unreachable_run ts c = c\<lparr>cc_consecutive_failures := word_of_nat (length ts)\<rparr>"
  using assms(2)
proof (induction ts rule: rev_induct)
  case Nil
  with assms(1) show ?case by (simp add: unreachable_run_def)
next
  case (snoc t ts)
  let ?n = "length ts"
  have "Suc ?n < 2 ^ 32" using snoc.prems unsigned_less [of "cc_fail_threshold c", where ?'a = nat] by simp
  moreover have "unat (word_of_nat k :: u32) = k" if "k < 2 ^ 32" for k
    using that by (simp add: unat_of_nat take_bit_nat_eq_self)
  ultimately have "unat (word_of_nat (Suc ?n) :: u32) = Suc ?n" by blast
  then have "\<not> cc_fail_threshold c \<le> word_of_nat ?n + 1"
    using snoc.prems by (simp add: word_le_nat_alt add.commute)
  with snoc show ?case by (simp add: unreachable_run_def record_unreachable_def Let_def add.commute)
qed

lemma wait_loop_result:
  assumes "\<not> clock (k + n) < deadline"
  shows "\<exists>b. wait_loop health clock deadline k = Some b \<and>
    (b \<longleftrightarrow> (\<exists>j. is_ok (probe_health (health (k + j))) \<and> (\<forall>i < j. clock (k + i) < deadline)))"
proof -
  have stop: "(\<exists>j. is_ok (probe_health (health (k + j))) \<and> (\<forall>i < j. clock (k + i) < deadline)) \<longleftrightarrow>
      is_ok (probe_health (health k))" if "is_ok (probe_health (health k)) \<or> deadline \<le> clock k" for k
    using that by (metis add_0_right gr0I leD not_less_zero)
  show ?thesis using assms
proof (induction n arbitrary: k)
  case 0
  then show ?case
    using stop [of k] by (subst wait_loop.simps) (simp add: not_less)
next
  case (Suc n)
  show ?case
  proof (cases "is_ok (probe_health (health k)) \<or> deadline \<le> clock k")
    case True
    then show ?thesis using stop [of k] by (subst wait_loop.simps) auto
  next
    case False
    have all: "(\<forall>i < Suc j. P i) \<longleftrightarrow> P 0 \<and> (\<forall>i < j. P (Suc i))" for P :: "nat \<Rightarrow> bool" and j
      by (auto simp: less_Suc_eq_0_disj)
    have ex: "(\<exists>j. P j) \<longleftrightarrow> P 0 \<or> (\<exists>j. P (Suc j))" for P :: "nat \<Rightarrow> bool"
      by (metis not0_implies_Suc)
    from Suc.IH [of "Suc k"] Suc.prems False show ?thesis
      by (subst wait_loop.simps, subst ex) (simp add: all)
  qed
qed
qed

section \<open>Properties\<close>

text \<open>
  Property C22. The health gate of the core client: from a healthy state, fewer unreachable errors in a
  row than the threshold never close it; the error that reaches the threshold closes it for exactly the
  back-off, during which a request is refused without contacting the core, changing no counter and no
  metric; after that the next successful probe opens it again.
\<close>

theorem health_gate:
  assumes "cc_consecutive_failures c = 0" "cc_unhealthy_until c = None" "Suc (length ts) = unat (cc_fail_threshold c)"
  shows "(\<forall>us now. length us < unat (cc_fail_threshold c) \<longrightarrow> \<not> is_in_backoff now (unreachable_run us c)) \<and>
    (let c' = unreachable_run (ts @ [t]) c; until = t + cc_backoff c in
      (\<forall>now. is_in_backoff now c' \<longleftrightarrow> now < until) \<and>
      (\<forall>call timeout m. cl_at_gate call < until \<longrightarrow>
         dispatch_task call timeout c' m =
           (Inl ''wqc-core unhealthy (backoff); skipping request'', log_skip (cl_at_gate call) c', m) \<and>
         (\<forall>now. is_in_backoff now (log_skip (cl_at_gate call) c') \<longleftrightarrow> now < until)) \<and>
      (\<forall>now t1 h. until \<le> now \<and> probe_health h = Inr () \<longrightarrow>
         fst (ensure_ready now t1 h c') = Inr () \<and> (\<forall>now'. \<not> is_in_backoff now' (snd (ensure_ready now t1 h c')))))"
proof -
  have below: "unreachable_run us c = c\<lparr>cc_consecutive_failures := word_of_nat (length us)\<rparr>"
    if "length us < unat (cc_fail_threshold c)" for us
    using unreachable_run_below [OF assms(1) that] .
  have "cc_fail_threshold c = word_of_nat (length ts) + 1"
    by (metis assms(3) of_nat_Suc add.commute unat_of_nat_self)
  then have last: "unreachable_run (ts @ [t]) c = c\<lparr>cc_unhealthy_until := Some (t + cc_backoff c), cc_consecutive_failures := 0\<rparr>"
    using below [of ts] assms(3) by (simp add: unreachable_run_def record_unreachable_def Let_def)
  show ?thesis
    unfolding Let_def last
    by (auto simp: below is_in_backoff_def assms(2) dispatch_task_def ensure_ready_def log_skip_def mark_healthy_def)
qed

definition demo_client :: core_client where
  "demo_client = fst (new_core_client (\<lambda>_. None) ''http://core/'' (from_secs 300) (from_secs 600))"

theorem health_gate_witness:
  "\<not> is_in_backoff 99 (unreachable_run [5, 6] demo_client) \<and>
   is_in_backoff (from_secs 20) (unreachable_run ([5, 6] @ [7]) demo_client) \<and>
   \<not> is_in_backoff (from_secs 40) (unreachable_run ([5, 6] @ [7]) demo_client)"
proof -
  have "cc_consecutive_failures demo_client = 0" "cc_unhealthy_until demo_client = None"
    "Suc (length [5, 6 :: nat]) = unat (cc_fail_threshold demo_client)" "cc_backoff demo_client = from_secs 30"
    by (simp_all add: demo_client_def new_core_client_def Let_def env_parsed_def DEFAULT_FAIL_THRESHOLD_def DEFAULT_BACKOFF_SECS_def)
  note this(3,4) health_gate [OF this(1-3), of 7, unfolded Let_def]
  then show ?thesis by (simp add: from_secs_def flip: One_nat_def)
qed

text \<open>
  Property C36. Waiting for the core at startup ends as soon as the clock passes the limit, and reports
  success exactly when some probe succeeds while every reading before it was within the limit.
\<close>

theorem wait_until_up_decides:
  assumes "now + limit \<le> clock n"
  shows "\<exists>b. wait_until_up health clock now limit = Some b \<and>
    (b \<longleftrightarrow> (\<exists>j. is_ok (probe_health (health j)) \<and> (\<forall>i < j. clock i < now + limit)))"
  using wait_loop_result [of clock 0 n "now + limit" health] assms by (simp add: wait_until_up_def)

theorem wait_until_up_decides_witness:
  "wait_until_up (\<lambda>j. if j = 2 then Response 200 ''200 OK'' (Inr ()) None else Response 503 ''503'' (Inr ()) None)
     (\<lambda>i. i * 10) 0 100 = Some True"
proof -
  have "(0 :: nat) + 100 \<le> 10 * 10" by simp
  from wait_until_up_decides [of 0 100 "\<lambda>i. i * 10" 10
      "\<lambda>j. if j = 2 then Response 200 ''200 OK'' (Inr ()) None else Response 503 ''503'' (Inr ()) None"]
  show ?thesis
    by (auto simp: probe_health_def http_is_success_def dest!: spec [of _ 2])
qed

end
