(* ===== verification/Bootstrap.thy ===== *)
theory Bootstrap
  imports Core_Client
begin

text \<open>
  Fetching from the outside over HTTP: content-addressed proofs (\<open>src/src/infra/cas_client.rs\<close>) and the
  discovery of the orchestrator (\<open>src/src/infra/orchestrator.rs\<close>). SHA-256, hex and the parsers of
  libp2p identities and addresses are packages: arguments. A peer identity is its text form.
\<close>

section \<open>Content-addressed storage\<close>

definition sha256_hex :: "(bytes \<Rightarrow> bytes) \<Rightarrow> (bytes \<Rightarrow> string) \<Rightarrow> bytes \<Rightarrow> string" where
  "sha256_hex sha256 hex data = hex (sha256 data)"

definition verify_cas_blob :: "(bytes \<Rightarrow> bytes) \<Rightarrow> (bytes \<Rightarrow> string) \<Rightarrow> bytes \<Rightarrow> string \<Rightarrow> err + unit" where
  "verify_cas_blob sha256 hex data expected_hash =
     (let got = sha256_hex sha256 hex data in
      if \<not> eq_ignore_ascii_case got (trim expected_hash)
      then Inl (''CAS leaf proof hash mismatch: got '' @ got @ '' want '' @ trim expected_hash)
      else Inr ())"

text \<open>A size that differs from the announced one is only logged.\<close>

definition fetch_and_verify ::
    "(bytes \<Rightarrow> bytes) \<Rightarrow> (bytes \<Rightarrow> string) \<Rightarrow> (string \<Rightarrow> bytes response) \<Rightarrow> string \<Rightarrow> string \<Rightarrow> u64 option \<Rightarrow> err + bytes" where
  "fetch_and_verify sha256 hex http url expected_hash expected_bytes =
     (case http url of
        No_response e \<Rightarrow> with_context (''CAS GET failed for '' @ url) (Inl (he_text e))
      | Response st txt body text \<Rightarrow>
          if \<not> http_is_success st
          then Inl (''CAS GET status '' @ txt @ '': '' @ (case text of Some t \<Rightarrow> t | None \<Rightarrow> []))
          else and_then (with_context ''CAS GET body read failed'' body) (\<lambda>data.
               and_then (verify_cas_blob sha256 hex data expected_hash) (\<lambda>_. Inr data)))"

section \<open>Orchestrator discovery\<close>

record bootstrap_response =
  br_peer_id :: string
  br_public_key_b64 :: string
  br_multiaddrs :: "string list"

datatype protocol = P2p string | Other_protocol string

fun peer_id_from_multiaddr :: "protocol list \<Rightarrow> string option" where
  "peer_id_from_multiaddr [] = None"
| "peer_id_from_multiaddr (P2p peer # ps) = Some peer"
| "peer_id_from_multiaddr (Other_protocol _ # ps) = peer_id_from_multiaddr ps"

record addr_parsers =
  parse_peer :: "string \<Rightarrow> err + string"
  parse_multiaddr :: "string \<Rightarrow> err + protocol list"

fun check_multiaddrs :: "addr_parsers \<Rightarrow> string \<Rightarrow> string list \<Rightarrow> err + string list" where
  "check_multiaddrs ps peer [] = Inr []"
| "check_multiaddrs ps peer (raw # raws) =
     and_then (with_context (''invalid bootstrap multiaddr '' @ raw) (parse_multiaddr ps raw)) (\<lambda>addr.
       case peer_id_from_multiaddr addr of
         None \<Rightarrow> Inl (''bootstrap multiaddr missing /p2p: '' @ raw)
       | Some addr_peer \<Rightarrow>
           if addr_peer \<noteq> peer
           then Inl (''bootstrap peer_id mismatch: field='' @ peer @ '', multiaddr='' @ addr_peer @ '' ('' @ raw @ '')'')
           else and_then (check_multiaddrs ps peer raws) (\<lambda>rest. Inr (raw # rest)))"

definition validate_bootstrap :: "addr_parsers \<Rightarrow> string \<Rightarrow> bootstrap_response \<Rightarrow> err + orchestrator_bootstrap" where
  "validate_bootstrap ps source_url payload =
     (if trim (br_public_key_b64 payload) = [] then Inl ''bootstrap response missing public_key_b64''
      else if br_multiaddrs payload = [] then Inl ''bootstrap response missing multiaddrs''
      else and_then (with_context (''invalid peer_id '' @ br_peer_id payload) (parse_peer ps (br_peer_id payload))) (\<lambda>peer.
           and_then (check_multiaddrs ps peer (br_multiaddrs payload)) (\<lambda>addrs.
             Inr \<lparr>ob_source_url = source_url, ob_peer_id = peer,
                  ob_public_key_b64 = trim (br_public_key_b64 payload), ob_multiaddrs = addrs\<rparr>)))"

definition fetch_bootstrap :: "addr_parsers \<Rightarrow> bootstrap_response response \<Rightarrow> string \<Rightarrow> err + orchestrator_bootstrap" where
  "fetch_bootstrap ps answer raw_endpoint =
     (let endpoint = trim raw_endpoint in
      if endpoint = [] then Inl ''bootstrap URL is empty''
      else case answer of
             No_response e \<Rightarrow> with_context (''GET '' @ endpoint @ '' failed'') (Inl (he_text e))
           | Response st txt body _ \<Rightarrow>
               if 400 \<le> st \<and> st < 600
               then with_context (''GET '' @ endpoint @ '' returned error status'') (Inl txt)
               else and_then (with_context (''decode bootstrap JSON from '' @ endpoint) body) (validate_bootstrap ps endpoint))"

text \<open>The answer to the request for the URL with number \<open>k\<close> of the list is \<open>http k\<close>.\<close>

fun resolve_loop ::
    "addr_parsers \<Rightarrow> (nat \<Rightarrow> bootstrap_response response) \<Rightarrow> nat \<Rightarrow> err option \<Rightarrow> string list \<Rightarrow> err + orchestrator_bootstrap" where
  "resolve_loop ps http k last_err [] =
     Inl (case last_err of Some e \<Rightarrow> e | None \<Rightarrow> ''no bootstrap URLs provided in WQC_BOOTSTRAP_URLS'')"
| "resolve_loop ps http k last_err (raw_url # urls) =
     (let url = trim raw_url in
      if url = [] then resolve_loop ps http (Suc k) last_err urls
      else case fetch_bootstrap ps (http k) url of
             Inr bootstrap \<Rightarrow> Inr bootstrap
           | Inl e \<Rightarrow> resolve_loop ps http (Suc k) (Some e) urls)"

definition resolve_bootstrap ::
    "addr_parsers \<Rightarrow> (nat \<Rightarrow> bootstrap_response response) \<Rightarrow> string list \<Rightarrow> err + orchestrator_bootstrap" where
  "resolve_bootstrap ps http urls =
     (if urls = [] then Inl ''WQC_BOOTSTRAP_URLS must include at least one HTTP(S) URL''
      else resolve_loop ps http 0 None urls)"

section \<open>Lemmas\<close>

lemma fetch_and_verify_hash:
  "fetch_and_verify sha256 hex http url h n = Inr data \<Longrightarrow> eq_ignore_ascii_case (hex (sha256 data)) (trim h)"
  by (auto simp: fetch_and_verify_def verify_cas_blob_def sha256_hex_def and_then_eq_Inr Let_def
      split: response.splits if_splits)

lemma check_multiaddrs_sound:
  "check_multiaddrs ps peer raws = Inr addrs \<Longrightarrow>
     addrs = raws \<and> (\<forall>raw \<in> set raws. \<exists>a. parse_multiaddr ps raw = Inr a \<and> peer_id_from_multiaddr a = Some peer)"
  by (induction raws arbitrary: addrs) (auto simp: and_then_eq_Inr split: option.splits if_splits)

text \<open>What the node may rely on after discovery.\<close>

definition bootstrap_ok :: "addr_parsers \<Rightarrow> orchestrator_bootstrap \<Rightarrow> bool" where
  "bootstrap_ok ps b \<longleftrightarrow> ob_public_key_b64 b \<noteq> [] \<and> ob_multiaddrs b \<noteq> [] \<and>
     (\<exists>raw. parse_peer ps raw = Inr (ob_peer_id b)) \<and>
     (\<forall>raw \<in> set (ob_multiaddrs b). \<exists>a. parse_multiaddr ps raw = Inr a \<and> peer_id_from_multiaddr a = Some (ob_peer_id b))"

lemma fetch_bootstrap_sound:
  assumes "fetch_bootstrap ps answer url = Inr b"
  shows "bootstrap_ok ps b \<and> ob_source_url b = trim url"
  using assms unfolding fetch_bootstrap_def validate_bootstrap_def bootstrap_ok_def
  by (auto simp: Let_def and_then_eq_Inr split: response.splits if_splits dest!: check_multiaddrs_sound)

lemma resolve_loop_first:
  "resolve_loop ps http k e urls = Inr b \<longleftrightarrow>
     (\<exists>i < length urls. trim (urls ! i) \<noteq> [] \<and> fetch_bootstrap ps (http (k + i)) (trim (urls ! i)) = Inr b \<and>
        (\<forall>j < i. trim (urls ! j) = [] \<or> \<not> is_ok (fetch_bootstrap ps (http (k + j)) (trim (urls ! j)))))"
proof (induction urls arbitrary: k e)
  case (Cons u urls)
  have ex: "(\<exists>i < length (u # urls). P i) \<longleftrightarrow> P 0 \<or> (\<exists>i < length urls. P (Suc i))" for P
    by (auto simp: less_Suc_eq_0_disj)
  have all: "(\<forall>i < Suc j. P i) \<longleftrightarrow> P 0 \<and> (\<forall>i < j. P (Suc i))" for P :: "nat \<Rightarrow> bool" and j
    by (auto simp: less_Suc_eq_0_disj)
  show ?case
    by (subst ex) (auto simp: Cons.IH Let_def all split: sum.split)
qed simp

section \<open>Properties\<close>

text \<open>
  Property C28. Discovery takes the first configured URL, in order, whose answer is valid, and fails only
  when every non-blank URL fails. What it returns is consistent: a non-empty key, and at least one
  address, each of which names the very peer identity of the answer.
\<close>

theorem bootstrap_failover:
  "(resolve_bootstrap ps http urls = Inr b \<longleftrightarrow>
     (\<exists>i < length urls. trim (urls ! i) \<noteq> [] \<and> fetch_bootstrap ps (http i) (trim (urls ! i)) = Inr b \<and>
        (\<forall>j < i. trim (urls ! j) = [] \<or> \<not> is_ok (fetch_bootstrap ps (http j) (trim (urls ! j)))))) \<and>
   (resolve_bootstrap ps http urls = Inr b \<longrightarrow> bootstrap_ok ps b)"
proof -
  have "resolve_bootstrap ps http urls = Inr b \<longleftrightarrow>
     (\<exists>i < length urls. trim (urls ! i) \<noteq> [] \<and> fetch_bootstrap ps (http i) (trim (urls ! i)) = Inr b \<and>
        (\<forall>j < i. trim (urls ! j) = [] \<or> \<not> is_ok (fetch_bootstrap ps (http j) (trim (urls ! j)))))"
    using resolve_loop_first [of ps http 0 None urls b] by (auto simp: resolve_bootstrap_def)
  then show ?thesis using fetch_bootstrap_sound by blast
qed

definition demo_parsers :: addr_parsers where
  "demo_parsers = \<lparr>parse_peer = Inr, parse_multiaddr = (\<lambda>s. Inr [Other_protocol ''tcp'', P2p ''orch''])\<rparr>"

definition demo_bootstrap :: orchestrator_bootstrap where
  "demo_bootstrap = \<lparr>ob_source_url = ''b'', ob_peer_id = ''orch'', ob_public_key_b64 = ''key'', ob_multiaddrs = [''m'']\<rparr>"

theorem bootstrap_failover_witness:
  "resolve_bootstrap demo_parsers
     (\<lambda>k. if k = 2 then Response 200 ''200 OK'' (Inr \<lparr>br_peer_id = ''orch'', br_public_key_b64 = ''key'', br_multiaddrs = [''m'']\<rparr>) None
           else Response 500 ''500'' (Inl ''no json'') None) [[], ''a'', ''b''] = Inr demo_bootstrap \<and>
   bootstrap_ok demo_parsers demo_bootstrap"
proof -
  let ?http = "\<lambda>k. if k = 2 then Response 200 ''200 OK'' (Inr \<lparr>br_peer_id = ''orch'', br_public_key_b64 = ''key'', br_multiaddrs = [''m'']\<rparr>) None
           else Response 500 ''500'' (Inl ''no json'') None"
  have trims: "trim [] = []" "trim ''a'' = ''a''" "trim ''b'' = ''b''" "trim ''key'' = ''key''" by code_simp+
  have "resolve_bootstrap demo_parsers ?http [[], ''a'', ''b''] = Inr demo_bootstrap"
    by (simp add: resolve_bootstrap_def trims fetch_bootstrap_def validate_bootstrap_def demo_parsers_def
        demo_bootstrap_def with_context_def numeral_2_eq_2)
  with bootstrap_failover [of demo_parsers ?http "[[], ''a'', ''b'']" demo_bootstrap] show ?thesis by blast
qed

end
