(* ===== verification/Result.thy ===== *)
theory Result
  imports P2P
begin

text \<open>
  The result message of \<open>src/src/domain/result.rs\<close>, and its construction from a worker's payload
  (\<open>build_result_wire_body\<close> of \<open>src/src/transport/p2p/result_delivery.rs\<close>). Numbers are written in the
  orchestrator's canonical form; strings, the proof and the work report are written by \<open>serde_json\<close>, an argument.
\<close>

definition PROTOCOL_RESULT :: string where "PROTOCOL_RESULT = ''/wqc/tensor-result/1.0.0''"

record result_message =
  rm_sub_task_id :: string
  rm_node_id :: string
  rm_result_type :: string
  rm_complex_result :: complex_result
  rm_sample_result :: "sample_result option"
  rm_expectation_result :: "expectation_result option"
  rm_proof :: proof_wire
  rm_work_report :: "work_report option"
  rm_error :: "string option"

record result_writers =
  js_str :: "string \<Rightarrow> err + string"
  js_proof :: "proof_wire \<Rightarrow> err + string"
  js_report :: "work_report \<Rightarrow> err + string"

definition format_go_complex_result_json :: "complex_result \<Rightarrow> string" where
  "format_go_complex_result_json v =
     ''{\"real\":'' @ format_go_float (cx_real v) @ '',\"imag\":'' @ format_go_float (cx_imag v) @ ''}''"

fun expectation_pairs :: "string \<Rightarrow> complex_result btree_map \<Rightarrow> string" where
  "expectation_pairs pairs [] = pairs"
| "expectation_pairs pairs ((i, r) # vs) =
     expectation_pairs ((if pairs \<noteq> [] then pairs @ '','' else pairs) @ ''\"'' @ i @ ''\":'' @ format_go_complex_result_json r) vs"

definition format_go_expectation_result_json :: "expectation_result \<Rightarrow> string" where
  "format_go_expectation_result_json v = ''{\"values\":{'' @ expectation_pairs [] (er_values v) @ ''}}''"

fun counts_pairs :: "string \<Rightarrow> u64 btree_map \<Rightarrow> string" where
  "counts_pairs pairs [] = pairs"
| "counts_pairs pairs ((k, n) # vs) =
     counts_pairs ((if pairs \<noteq> [] then pairs @ '','' else pairs) @ ''\"'' @ k @ ''\":'' @ show_nat (unat n)) vs"

definition format_go_sample_result_json :: "sample_result \<Rightarrow> string" where
  "format_go_sample_result_json v =
     ''{\"counts\":{'' @ counts_pairs [] (sr_counts v) @ ''},\"shots\":'' @ show_nat (unat (sr_shots v)) @ ''}''"

definition failure_json_bytes :: "result_writers \<Rightarrow> string \<Rightarrow> string \<Rightarrow> string \<Rightarrow> err + bytes" where
  "failure_json_bytes w sub_task_id node_id msg =
     and_then (js_str w sub_task_id) (\<lambda>s. and_then (js_str w node_id) (\<lambda>n. and_then (js_str w msg) (\<lambda>e.
       Inr (as_bytes (''{\"sub_task_id\":'' @ s @ '',\"node_id\":'' @ n @ '',\"error\":'' @ e @ ''}'')))))"

definition or_null :: "('a \<Rightarrow> err + string) \<Rightarrow> 'a option \<Rightarrow> err + string" where
  "or_null f v = (case v of Some x \<Rightarrow> f x | None \<Rightarrow> Inr ''null'')"

definition to_json_bytes :: "result_writers \<Rightarrow> result_message \<Rightarrow> err + bytes" where
  "to_json_bytes w m =
     (let complex_json = format_go_complex_result_json (rm_complex_result m);
          sample_json = (case rm_sample_result m of Some s \<Rightarrow> format_go_sample_result_json s | None \<Rightarrow> ''null'');
          expectation_json = (case rm_expectation_result m of Some e \<Rightarrow> format_go_expectation_result_json e | None \<Rightarrow> ''null'')
      in and_then (js_proof w (rm_proof m)) (\<lambda>proof_json.
         and_then (or_null (js_report w) (rm_work_report m)) (\<lambda>work_report_json.
         and_then (or_null (js_str w) (rm_error m)) (\<lambda>error_json.
         and_then (js_str w (rm_result_type m)) (\<lambda>result_type_json.
         and_then (js_str w (rm_sub_task_id m)) (\<lambda>sub_task_json.
         and_then (js_str w (rm_node_id m)) (\<lambda>node_json.
           Inr (as_bytes (''{\"sub_task_id\":'' @ sub_task_json @ '',\"node_id\":'' @ node_json @
             '',\"result_type\":'' @ result_type_json @ '',\"complex_result\":'' @ complex_json @
             '',\"sample_result\":'' @ sample_json @ '',\"expectation_result\":'' @ expectation_json @
             '',\"proof\":'' @ proof_json @ '',\"work_report\":'' @ work_report_json @
             '',\"error\":'' @ error_json @ ''}'')))))))))"

definition build_result_wire_body :: "result_writers \<Rightarrow> compute_task \<Rightarrow> task_result_payload \<Rightarrow> string \<Rightarrow> err + bytes" where
  "build_result_wire_body w task payload node_id =
     (if tp_status payload \<noteq> ''success''
      then failure_json_bytes w (cr_task_id (ctk_request task)) node_id
             (case tp_error payload of Some e \<Rightarrow> e | None \<Rightarrow> ''compute failed'')
      else case tp_complex_result payload of
             None \<Rightarrow> Inl ''missing complex_result for successful task''
           | Some cx \<Rightarrow>
               (case tp_proof payload of
                  None \<Rightarrow> Inl ''missing proof for successful task''
                | Some pf \<Rightarrow>
                    to_json_bytes w
                      \<lparr>rm_sub_task_id = cr_task_id (ctk_request task), rm_node_id = node_id,
                       rm_result_type = (if tp_result_type payload = [] then ''statevector_scalar'' else tp_result_type payload),
                       rm_complex_result = cx, rm_sample_result = tp_sample_result payload,
                       rm_expectation_result = tp_expectation_result payload, rm_proof = pf,
                       rm_work_report = tp_work_report payload, rm_error = None\<rparr>))"

section \<open>Lemmas\<close>

lemma expectation_pairs_join:
  assumes "pairs \<noteq> []"
  shows "expectation_pairs pairs vs =
    pairs @ concat (map (\<lambda>(i, r). '','' @ ''\"'' @ i @ ''\":'' @ format_go_complex_result_json r) vs)"
  using assms by (induction pairs vs rule: expectation_pairs.induct) auto

text \<open>The canonical text of the values is the comma-separated list of the entries in key order.\<close>

lemma expectation_pairs_text:
  "expectation_pairs [] vs = join_str '','' (map (\<lambda>(i, r). ''\"'' @ i @ ''\":'' @ format_go_complex_result_json r) vs)"
proof -
  have join: "join_str '','' (p # ps) = p @ concat (map (\<lambda>q. '','' @ q) ps)" for p ps
    by (induction ps arbitrary: p) auto
  show ?thesis
    by (cases vs) (auto simp: expectation_pairs_join join split_def comp_def)
qed

lemma is_ok_projr: "is_ok r \<Longrightarrow> r = Inr (projr r)"
  by (cases r) auto

text \<open>A successful payload with result and proof has a body as soon as the writers succeed; an error always does.\<close>

lemma build_result_wire_body_ok:
  assumes "\<And>s. is_ok (js_str w s)" "\<And>p. is_ok (js_proof w p)" "\<And>r. is_ok (js_report w r)"
    and "tp_status payload = ''success'' \<Longrightarrow> tp_complex_result payload \<noteq> None \<and> tp_proof payload \<noteq> None"
  shows "\<exists>b. build_result_wire_body w task payload node = Inr b"
proof -
  have w: "js_str w s = Inr (projr (js_str w s))" "js_proof w p = Inr (projr (js_proof w p))"
    "js_report w r = Inr (projr (js_report w r))" for s p r
    using is_ok_projr assms(1-3) by blast+
  obtain str pf rep where w: "\<And>s. js_str w s = Inr (str s)" "\<And>p. js_proof w p = Inr (pf p)" "\<And>r. js_report w r = Inr (rep r)"
    by (rule that) (rule w)+
  have "\<exists>y. or_null (js_report w) v = Inr y" for v by (cases v) (auto simp: or_null_def w)
  then obtain r where "or_null (js_report w) (tp_work_report payload) = Inr r" by blast
  then show ?thesis
    using assms(4)
    by (auto simp: build_result_wire_body_def failure_json_bytes_def to_json_bytes_def Let_def w or_null_def [of "js_str w"]
        split: option.split)
qed

end
