(* ===== verification/App_State.thy ===== *)
theory App_State
  imports Validation Bootstrap Result Task_Prune
begin

text \<open>
  The shared state of the node (\<open>src/src/application/state.rs\<close>) and its streams to other peers
  (\<open>src/src/transport/p2p/stream_io.rs\<close>, \<open>result_delivery.rs\<close>, \<open>pcs_delivery.rs\<close>).

  The network is part of the state: \<open>nw_answer\<close> says how each outbound stream ends, \<open>nw_calls\<close> counts
  them and \<open>nw_received\<close> is what the peers have got in full, so a theorem covers every pattern of
  failures and can speak of what was delivered. A stream may fail after the peer has read everything,
  for instance while closing.
\<close>

section \<open>Streams\<close>

datatype stream_answer =
    Open_failed err
  | Write_failed err bool
  | Read_failed err
  | Answered bytes

record network =
  nw_calls :: nat
  nw_answer :: "nat \<Rightarrow> stream_answer"
  nw_received :: "(string \<times> string \<times> bytes) list"

definition deliver_bytes :: "string \<Rightarrow> string \<Rightarrow> bytes \<Rightarrow> network \<Rightarrow> network" where
  "deliver_bytes peer protocol payload n = n\<lparr>nw_received := nw_received n @ [(peer, protocol, payload)]\<rparr>"

definition next_answer :: "network \<Rightarrow> stream_answer \<times> network" where
  "next_answer n = (nw_answer n (nw_calls n), n\<lparr>nw_calls := Suc (nw_calls n)\<rparr>)"

definition open_failure :: "string \<Rightarrow> string \<Rightarrow> err \<Rightarrow> err" where
  "open_failure peer protocol e = ''failed to open stream to '' @ peer @ '' on '' @ protocol @ '': '' @ e"

definition write_outbound_stream :: "string \<Rightarrow> string \<Rightarrow> bytes \<Rightarrow> network \<Rightarrow> (err + unit) \<times> network" where
  "write_outbound_stream peer protocol payload n =
     (case next_answer n of
        (Open_failed e, n) \<Rightarrow> (Inl (open_failure peer protocol e), n)
      | (Write_failed e arrived, n) \<Rightarrow> (Inl e, if arrived then deliver_bytes peer protocol payload n else n)
      | (_, n) \<Rightarrow> (Inr (), deliver_bytes peer protocol payload n))"

text \<open>\<open>Value::get\<close> and \<open>as_bool\<close>; \<open>serde_json::from_slice\<close> is an argument.\<close>

fun as_bool :: "json \<Rightarrow> bool option" where
  "as_bool (JBool b) = Some b"
| "as_bool _ = None"

fun json_get :: "json \<Rightarrow> string \<Rightarrow> json option" where
  "json_get (JObj m) k = map_of m k"
| "json_get _ k = None"

definition check_ack :: "(bytes \<Rightarrow> err + json) \<Rightarrow> (bytes \<Rightarrow> string) \<Rightarrow> string \<Rightarrow> bytes \<Rightarrow> err + unit" where
  "check_ack parse lossy protocol resp =
     (case parse resp of
        Inl e \<Rightarrow> Inl (''invalid ack on '' @ protocol @ '': '' @ e @ ''; body='' @ lossy resp)
      | Inr ack \<Rightarrow>
          if Option.bind (json_get ack ''ok'') as_bool = Some True then Inr ()
          else Inl (protocol @ '' rejected: '' @
                 (case Option.bind (json_get ack ''error'') as_str of Some e \<Rightarrow> e | None \<Rightarrow> ''orchestrator rejected stream'')))"

definition write_outbound_stream_expect_ack ::
    "(bytes \<Rightarrow> err + json) \<Rightarrow> (bytes \<Rightarrow> string) \<Rightarrow> string \<Rightarrow> string \<Rightarrow> bytes \<Rightarrow> network \<Rightarrow> (err + unit) \<times> network" where
  "write_outbound_stream_expect_ack parse lossy peer protocol payload n =
     (case next_answer n of
        (Open_failed e, n) \<Rightarrow> (Inl (open_failure peer protocol e), n)
      | (Write_failed e arrived, n) \<Rightarrow> (Inl e, if arrived then deliver_bytes peer protocol payload n else n)
      | (Read_failed e, n) \<Rightarrow> (Inl (''failed to read ack on '' @ protocol @ '': '' @ e), deliver_bytes peer protocol payload n)
      | (Answered resp, n) \<Rightarrow> (check_ack parse lossy protocol resp, deliver_bytes peer protocol payload n))"

section \<open>The state\<close>

text \<open>
  The queue is the bounded channel to the worker; \<open>app_rx_open\<close> says whether its receiver is alive.
  \<open>app_in_flight\<close> is the process-wide set of sub-tasks whose PCS build runs, of \<open>pcs_outbox.rs\<close>, and
  \<open>app_spawned\<close> holds the builds handed to \<open>tokio::spawn\<close> that have not begun.
\<close>

record 'k app =
  app_queue :: "compute_task list"
  app_rx_open :: bool
  app_pending_tasks :: usize
  app_core :: core_client
  app_config :: "'k node_config"
  app_supported_gates :: "string list"
  app_storage :: storage
  app_stream_ready :: bool
  app_network :: network
  app_open_calls :: "(string, pcs_open_call) hash_map"
  app_work :: work_ledger
  app_in_flight :: "string list"
  app_spawned :: "(string \<times> string \<times> pending_pcs_job) list"
  app_metrics :: node_metrics

definition QUEUE_CAPACITY :: nat where "QUEUE_CAPACITY = 100"

text \<open>The packages the handlers call: JSON, hashing, base64.\<close>

record app_env =
  ev_tasks :: task_codec
  ev_jobs :: job_codec
  ev_request_json :: "compute_request \<Rightarrow> err + bytes"
  ev_gate_of_json :: "json \<Rightarrow> string + gate"
  ev_writers :: result_writers
  ev_pcs_json :: "pcs_message \<Rightarrow> err + bytes"
  ev_parse_json :: "bytes \<Rightarrow> err + json"
  ev_lossy :: "bytes \<Rightarrow> string"
  ev_proof_of_json :: "json \<Rightarrow> err + proof_wire"
  ev_sha256 :: "bytes \<Rightarrow> bytes"
  ev_hex :: "bytes \<Rightarrow> string"
  ev_b64 :: "bytes \<Rightarrow> string"

text \<open>
  \<open>enqueue\<close>: the channel refuses a task only when its receiver is gone. When it is full the sender
  waits, and the call has not returned: \<open>None\<close>.
\<close>

definition enqueue :: "compute_task \<Rightarrow> 'k app \<Rightarrow> (string + unit) option \<times> 'k app" where
  "enqueue task a =
     (if \<not> app_rx_open a then (Some (Inl ''Worker queue is full''), a)
      else if length (app_queue a) < QUEUE_CAPACITY then (Some (Inr ()), a\<lparr>app_queue := app_queue a @ [task]\<rparr>)
      else (None, a))"

text \<open>An operation of the store, of the network or of the metrics, lifted to the whole state.\<close>

definition on_storage :: "(storage \<Rightarrow> 'a \<times> storage) \<Rightarrow> 'k app \<Rightarrow> 'a \<times> 'k app" where
  "on_storage f a = (case f (app_storage a) of (r, s) \<Rightarrow> (r, a\<lparr>app_storage := s\<rparr>))"

definition on_network :: "(network \<Rightarrow> 'a \<times> network) \<Rightarrow> 'k app \<Rightarrow> 'a \<times> 'k app" where
  "on_network f a = (case f (app_network a) of (r, n) \<Rightarrow> (r, a\<lparr>app_network := n\<rparr>))"

definition count_metric :: "(node_metrics \<Rightarrow> node_metrics) \<Rightarrow> 'k app \<Rightarrow> 'k app" where
  "count_metric f a = a\<lparr>app_metrics := f (app_metrics a)\<rparr>"

section \<open>Delivery to the orchestrator\<close>

definition PROTOCOL_PCS :: string where "PROTOCOL_PCS = ''/wqc/tensor-pcs/1.0.0''"

text \<open>The common prefix of \<open>send_result_wire\<close> and \<open>send_pcs_wire\<close>: the peer must be known and the streams ready.\<close>

definition orchestrator_stream :: "'k app \<Rightarrow> err + string" where
  "orchestrator_stream a =
     (case orchestrator_peer_id (app_config a) of
        None \<Rightarrow> Inl ''orchestrator peer id not configured''
      | Some peer \<Rightarrow> if app_stream_ready a then Inr peer else Inl ''P2P stream control is not ready yet'')"

definition send_result_wire :: "bytes \<Rightarrow> 'k app \<Rightarrow> (err + unit) \<times> 'k app" where
  "send_result_wire wire_body a =
     (case orchestrator_stream a of
        Inl e \<Rightarrow> (Inl e, a)
      | Inr peer \<Rightarrow> on_network (write_outbound_stream peer PROTOCOL_RESULT wire_body) a)"

definition send_pcs_wire :: "app_env \<Rightarrow> bytes \<Rightarrow> 'k app \<Rightarrow> (err + unit) \<times> 'k app" where
  "send_pcs_wire ev wire_body a =
     (case orchestrator_stream a of
        Inl e \<Rightarrow> (Inl e, a)
      | Inr peer \<Rightarrow> on_network (write_outbound_stream_expect_ack (ev_parse_json ev) (ev_lossy ev) peer PROTOCOL_PCS wire_body) a)"

definition build_pcs_wire_body :: "app_env \<Rightarrow> string \<Rightarrow> string \<Rightarrow> string \<Rightarrow> err + bytes" where
  "build_pcs_wire_body ev sub_task_id node_id leaf_pcs_b64 =
     ev_pcs_json ev \<lparr>pm_sub_task_id = sub_task_id, pm_node_id = node_id, pm_leaf_pcs_b64 = leaf_pcs_b64,
       pm_refused = False, pm_refuse_reason = None\<rparr>"

definition build_pcs_refusal_wire_body :: "app_env \<Rightarrow> string \<Rightarrow> string \<Rightarrow> string \<Rightarrow> err + bytes" where
  "build_pcs_refusal_wire_body ev sub_task_id node_id reason =
     ev_pcs_json ev \<lparr>pm_sub_task_id = sub_task_id, pm_node_id = node_id, pm_leaf_pcs_b64 = [],
       pm_refused = True, pm_refuse_reason = Some reason\<rparr>"

section \<open>Lemmas\<close>

definition received :: "'k app \<Rightarrow> (string \<times> string \<times> bytes) set" where
  "received a = set (nw_received (app_network a))"

lemma write_outbound_stream_got:
  "fst (write_outbound_stream p pr b n) = Inr () \<Longrightarrow> (p, pr, b) \<in> set (nw_received (snd (write_outbound_stream p pr b n)))"
  "set (nw_received n) \<subseteq> set (nw_received (snd (write_outbound_stream p pr b n)))"
  by (auto simp: write_outbound_stream_def next_answer_def deliver_bytes_def split: stream_answer.split)

lemma write_ack_got:
  "fst (write_outbound_stream_expect_ack ps lo p pr b n) = Inr () \<Longrightarrow>
     (p, pr, b) \<in> set (nw_received (snd (write_outbound_stream_expect_ack ps lo p pr b n)))"
  "set (nw_received n) \<subseteq> set (nw_received (snd (write_outbound_stream_expect_ack ps lo p pr b n)))"
  by (auto simp: write_outbound_stream_expect_ack_def next_answer_def deliver_bytes_def split: stream_answer.split)

lemma orchestrator_stream_peer: "orchestrator_stream a = Inr peer \<Longrightarrow> orchestrator_peer_id (app_config a) = Some peer"
  by (auto simp: orchestrator_stream_def split: option.splits if_splits)

lemma on_network_simps [simp]:
  "fst (on_network f a) = fst (f (app_network a))" "app_network (snd (on_network f a)) = snd (f (app_network a))"
  by (simp_all add: on_network_def split: prod.split)

lemma send_result_wire_got:
  "fst (send_result_wire b a) = Inr () \<Longrightarrow>
     \<exists>peer. orchestrator_peer_id (app_config a) = Some peer \<and> (peer, PROTOCOL_RESULT, b) \<in> received (snd (send_result_wire b a))"
  "received a \<subseteq> received (snd (send_result_wire b a))"
  by (cases "orchestrator_stream a";
      auto simp: send_result_wire_def received_def dest: orchestrator_stream_peer
        write_outbound_stream_got(1) write_outbound_stream_got(2) [THEN subsetD])+

lemma send_pcs_wire_got:
  "fst (send_pcs_wire ev b a) = Inr () \<Longrightarrow>
     \<exists>peer. orchestrator_peer_id (app_config a) = Some peer \<and> (peer, PROTOCOL_PCS, b) \<in> received (snd (send_pcs_wire ev b a))"
  "received a \<subseteq> received (snd (send_pcs_wire ev b a))"
  by (cases "orchestrator_stream a";
      auto simp: send_pcs_wire_def received_def dest: orchestrator_stream_peer
        write_ack_got(1) write_ack_got(2) [THEN subsetD])+

text \<open>Sending touches the network only.\<close>

lemma send_result_wire_frame: "\<exists>n. snd (send_result_wire b a) = a\<lparr>app_network := n\<rparr>"
  by (cases a) (auto simp: send_result_wire_def on_network_def split: sum.split prod.split)

lemma send_pcs_wire_frame: "\<exists>n. snd (send_pcs_wire ev b a) = a\<lparr>app_network := n\<rparr>"
  by (cases a) (auto simp: send_pcs_wire_def on_network_def split: sum.split prod.split)

lemma on_storage_eq: "on_storage f a = (fst (f (app_storage a)), a\<lparr>app_storage := snd (f (app_storage a))\<rparr>)"
  by (simp add: on_storage_def split: prod.split)

text \<open>Views of the store, lifted.\<close>

definition app_task :: "'k app \<Rightarrow> string \<times> string \<Rightarrow> task_row option" where
  "app_task a = task_at (app_storage a)"

definition healthy_db :: "'k app \<Rightarrow> bool" where
  "healthy_db a \<longleftrightarrow> (\<forall>n. st_fault (app_storage a) n = None)"

lemma st_fault_kept [simp]:
  "st_fault (snd (execute stmt s)) = st_fault s" if "\<And>s. st_fault (snd (stmt s)) = st_fault s"
  using that by (auto simp: execute_def Let_def split: option.split)

lemma st_fault_ops [simp]:
  "st_fault (snd (load_task c p i s)) = st_fault s"
  "st_fault (snd (save_task c now t s)) = st_fault s"
  "st_fault (snd (update_status p i st s)) = st_fault s"
  "st_fault (snd (upsert_pending_result now p i b s)) = st_fault s"
  "st_fault (snd (delete_pending_result p i s)) = st_fault s"
  "st_fault (snd (upsert_pending_pcs cj now p i j s)) = st_fault s"
  "st_fault (snd (delete_pending_pcs p i s)) = st_fault s"
  "st_fault (snd (get_pending_pcs p i s)) = st_fault s"
  by (auto simp: storage_op_defs execute_def Let_def split: option.split sum.split)

text \<open>Lookups on a healthy store.\<close>

lemma load_task_healthy:
  assumes "\<And>n. st_fault s n = None"
  shows "fst (load_task c p i s) = (case task_at s (p, i) of
     Some r \<Rightarrow> and_then (dec c (tk_payload r)) (\<lambda>t. Inr (Some t)) | None \<Rightarrow> Inr None)"
    and "snd (load_task c p i s) = s\<lparr>st_calls := Suc (st_calls s)\<rparr>"
  by (simp_all add: load_task_def execute_ok assms task_at_def)

section \<open>A state for the examples\<close>

definition demo_app :: "nat app" where
  "demo_app = \<lparr>app_queue = [], app_rx_open = True, app_pending_tasks = 0, app_core = demo_client,
     app_config = demo_config\<lparr>orchestrator_peer_id := Some ''orch''\<rparr>, app_supported_gates = [''H''],
     app_storage = new_storage (\<lambda>n. None), app_stream_ready = True,
     app_network = \<lparr>nw_calls = 0, nw_answer = (\<lambda>n. Answered []), nw_received = []\<rparr>, app_open_calls = [],
     app_work = empty_ledger, app_in_flight = [], app_spawned = [], app_metrics = init_metrics 0\<rparr>"

definition demo_env :: "compute_task \<Rightarrow> pending_pcs_job \<Rightarrow> app_env" where
  "demo_env t j = \<lparr>ev_tasks = \<lparr>enc = (\<lambda>_. Inr ''task''), dec = (\<lambda>_. Inr t)\<rparr>,
     ev_jobs = \<lparr>enc = (\<lambda>_. Inr [1]), dec = (\<lambda>_. Inr j)\<rparr>,
     ev_request_json = (\<lambda>r. Inr (as_bytes (cr_task_id r))), ev_gate_of_json = decode_gate,
     ev_writers = \<lparr>js_str = Inr, js_proof = (\<lambda>_. Inr ''{}''), js_report = (\<lambda>_. Inr ''{}'')\<rparr>,
     ev_pcs_json = (\<lambda>m. Inr (as_bytes (pm_sub_task_id m))), ev_parse_json = (\<lambda>_. Inr (JObj [(''ok'', JBool True)])), ev_lossy = (\<lambda>b. []),
     ev_proof_of_json = (\<lambda>_. Inl ''no proof''), ev_sha256 = (\<lambda>b. b), ev_hex = (\<lambda>b. []), ev_b64 = (\<lambda>b. [])\<rparr>"

definition demo_proof :: proof_wire where
  "demo_proof = \<lparr>pf_public_inputs = \<lparr>pi_circuit_id = ''c1'', pi_sub_task_id = ''s1'', pi_node_id = ''p'', pi_slice_id = ''01'',
     pi_output_result_hash = ''h'', pi_measurement_spec_hash = [], pi_security_level = ''low''\<rparr>, pf_stark_proof_b64 = ''AAAA''\<rparr>"

definition demo_job :: "bool \<Rightarrow> string option \<Rightarrow> pending_pcs_job" where
  "demo_job requested cached = \<lparr>pj_sub_task_id = ''s1'', pj_proof = demo_proof, pj_requested = requested,
     pj_leaf_pcs_b64 = cached, pj_leaf_pcs_bytes = None, pj_open_call = None\<rparr>"

definition demo_request :: compute_request where
  "demo_request = (into_compute_request demo_sub_task ''p'')
     \<lparr>cr_circuit := [\<lparr>gate_type = ''H'', gate_params = JArr [JNum (PosInt 1)]\<rparr>]\<rparr>"

end
