(* ===== verification/Accept_Task.thy ===== *)
theory Accept_Task
  imports App_State
begin

text \<open>
  Accepting a dispatched sub-task, \<open>src/src/application/accept_task.rs\<close>: limits, validation,
  normalisation, the duplicate test against the store, and the hand-over to the worker's queue.

  Dispatches are handled concurrently. Between the lookup of an existing row and the insertion of the
  new one other handlers may run: \<open>others\<close> is whatever they do to the state there, the identity for a
  handler that is alone.
\<close>

datatype accept_error = Validation_failed string | Storage_failed string | QueueFull

fun show_accept_error :: "accept_error \<Rightarrow> string" where
  "show_accept_error (Validation_failed msg) = msg"
| "show_accept_error (Storage_failed msg) = msg"
| "show_accept_error QueueFull = ''worker queue is full''"

definition compact_qubit_limit :: "string \<Rightarrow> usize \<Rightarrow> usize \<Rightarrow> usize" where
  "compact_qubit_limit output_mode max_q max_mps =
     (if (output_mode = [] \<or> output_mode = ''statevector_scalar'') \<and> 0 < max_mps then max_mps else max_q)"

definition dispatch_payload_matches :: "(compute_request \<Rightarrow> err + bytes) \<Rightarrow> compute_task \<Rightarrow> compute_task \<Rightarrow> bool" where
  "dispatch_payload_matches to_vec existing incoming =
     (if ctk_orchestrator_pubkey existing \<noteq> ctk_orchestrator_pubkey incoming then False
      else case (to_vec ((ctk_request existing)\<lparr>cr_node_id := None\<rparr>), to_vec ((ctk_request incoming)\<lparr>cr_node_id := None\<rparr>)) of
             (Inr x, Inr y) \<Rightarrow> x = y
           | _ \<Rightarrow> False)"

definition unix_now_ms :: "nat option \<Rightarrow> u64" where
  "unix_now_ms t = (case t of Some ms \<Rightarrow> word_of_nat ms | None \<Rightarrow> 0)"

definition is_unique_violation :: "err \<Rightarrow> bool" where
  "is_unique_violation e = str_contains ''UNIQUE constraint failed'' e"

text \<open>The last part of \<open>accept_compute_task\<close>, after the row is stored.\<close>

definition hand_over :: "compute_task \<Rightarrow> 'k app \<Rightarrow> (accept_error + unit) option \<times> 'k app" where
  "hand_over task a =
     (let sub_task_id = cr_task_id (ctk_request task);
          a = a\<lparr>app_pending_tasks := app_pending_tasks a + 1,
                app_work := hold (app_work a) sub_task_id (cr_parent_task_id (ctk_request task)) (ctk_budget task)\<rparr>
      in case enqueue task a of
           (Some (Inr _), a) \<Rightarrow> (Some (Inr ()), a)
         | (Some (Inl _), a) \<Rightarrow>
             (Some (Inl QueueFull),
              a\<lparr>app_pending_tasks := app_pending_tasks a - 1, app_work := release (app_work a) sub_task_id\<rparr>)
         | (None, a) \<Rightarrow> (None, a))"

text \<open>The middle part: duplicate test and insertion.\<close>

definition store_and_hand_over ::
    "app_env \<Rightarrow> ('k app \<Rightarrow> 'k app) \<Rightarrow> nat option \<Rightarrow> compute_task \<Rightarrow> 'k app \<Rightarrow> (accept_error + unit) option \<times> 'k app" where
  "store_and_hand_over ev others now task a =
     (let pubkey = ctk_orchestrator_pubkey task; task_id = cr_task_id (ctk_request task) in
      case on_storage (load_task (ev_tasks ev) pubkey task_id) a of
        (Inl e, a) \<Rightarrow> (Some (Inl (Storage_failed (''task lookup failed: '' @ e))), a)
      | (Inr (Some existing), a) \<Rightarrow>
          if dispatch_payload_matches (ev_request_json ev) existing task then (Some (Inr ()), a)
          else (Some (Inl (Storage_failed (''task_id '' @ task_id @ '' already exists with a different payload''))), a)
      | (Inr None, a) \<Rightarrow>
          (case on_storage (save_task (ev_tasks ev) now task) (others a) of
             (Inr _, a) \<Rightarrow> hand_over task a
           | (Inl e, a) \<Rightarrow>
               if is_unique_violation e then
                 (case on_storage (load_task (ev_tasks ev) pubkey task_id) a of
                    (Inr (Some existing), a) \<Rightarrow>
                      if dispatch_payload_matches (ev_request_json ev) existing task then (Some (Inr ()), a)
                      else (Some (Inl (Storage_failed (''storage error: '' @ e))), a)
                  | (_, a) \<Rightarrow> (Some (Inl (Storage_failed (''storage error: '' @ e))), a))
               else (Some (Inl (Storage_failed (''storage error: '' @ e))), a)))"

text \<open>
  The whole handler. The result is \<open>None\<close> while it has not returned: it waits for room in the queue,
  or validation does not end.
\<close>

definition accept_compute_task ::
    "app_env \<Rightarrow> ('k app \<Rightarrow> 'k app) \<Rightarrow> nat option \<Rightarrow> nat option \<Rightarrow> compute_request \<Rightarrow> string \<Rightarrow> budget option
      \<Rightarrow> 'k app \<Rightarrow> (accept_error + unit) option \<times> 'k app" where
  "accept_compute_task ev others now_ms now request pubkey b a =
     (if unat (compact_qubit_limit (cr_output_mode request) (max_qubits (app_config a)) (max_mps_qubits (app_config a)))
           < unat (cr_qubit_count request)
      then (Some (Inl (Validation_failed ''Requested qubit_count exceeds node limit'')), a)
      else case validate_circuit_logic (ev_gate_of_json ev) (cr_circuit request) (cr_qubit_count request) (app_supported_gates a) of
             None \<Rightarrow> (None, a)
           | Some (Inl msg) \<Rightarrow> (Some (Inl (Validation_failed msg)), a)
           | Some (Inr _) \<Rightarrow>
               store_and_hand_over ev others now
                 \<lparr>ctk_request = request\<lparr>cr_circuit := normalize_gate_params (cr_circuit request),
                                        cr_node_id := Some (peer_id (app_config a))\<rparr>,
                  ctk_orchestrator_pubkey = pubkey, ctk_budget = b, ctk_accepted_at_ms = unix_now_ms now_ms\<rparr> a)"

section \<open>Lemmas\<close>

text \<open>The task a dispatch is turned into.\<close>

definition prepared :: "'k app \<Rightarrow> nat option \<Rightarrow> compute_request \<Rightarrow> string \<Rightarrow> budget option \<Rightarrow> compute_task" where
  "prepared a now_ms request pubkey b =
     \<lparr>ctk_request = request\<lparr>cr_circuit := normalize_gate_params (cr_circuit request), cr_node_id := Some (peer_id (app_config a))\<rparr>,
      ctk_orchestrator_pubkey = pubkey, ctk_budget = b, ctk_accepted_at_ms = unix_now_ms now_ms\<rparr>"

definition admissible :: "app_env \<Rightarrow> compute_request \<Rightarrow> 'k app \<Rightarrow> bool" where
  "admissible ev request a \<longleftrightarrow>
     unat (cr_qubit_count request) \<le>
       unat (compact_qubit_limit (cr_output_mode request) (max_qubits (app_config a)) (max_mps_qubits (app_config a))) \<and>
     validate_circuit_logic (ev_gate_of_json ev) (cr_circuit request) (cr_qubit_count request) (app_supported_gates a) = Some (Inr ())"

definition task_slot :: "compute_task \<Rightarrow> string \<times> string" where
  "task_slot t = (ctk_orchestrator_pubkey t, cr_task_id (ctk_request t))"

lemma accept_admissible:
  "admissible ev request a \<Longrightarrow>
     accept_compute_task ev others now_ms now request pubkey b a =
       store_and_hand_over ev others now (prepared a now_ms request pubkey b) a"
  by (simp add: accept_compute_task_def admissible_def prepared_def)

lemma prepared_simps [simp]:
  "ctk_orchestrator_pubkey (prepared a t r p b) = p" "cr_task_id (ctk_request (prepared a t r p b)) = cr_task_id r"
  "cr_parent_task_id (ctk_request (prepared a t r p b)) = cr_parent_task_id r"
  "cr_circuit (ctk_request (prepared a t r p b)) = normalize_gate_params (cr_circuit r)"
  "cr_qubit_count (ctk_request (prepared a t r p b)) = cr_qubit_count r"
  "ctk_budget (prepared a t r p b) = b" "task_slot (prepared a t r p b) = (p, cr_task_id r)"
  by (simp_all add: prepared_def task_slot_def)

lemma prepared_request:
  "(ctk_request (prepared a t r p b))\<lparr>cr_node_id := None\<rparr> = r\<lparr>cr_circuit := normalize_gate_params (cr_circuit r), cr_node_id := None\<rparr>"
  by (simp add: prepared_def)

lemma payload_matches_iff:
  "dispatch_payload_matches to_vec e t \<longleftrightarrow> ctk_orchestrator_pubkey e = ctk_orchestrator_pubkey t \<and>
     (\<exists>x. to_vec ((ctk_request e)\<lparr>cr_node_id := None\<rparr>) = Inr x \<and> to_vec ((ctk_request t)\<lparr>cr_node_id := None\<rparr>) = Inr x)"
  by (auto simp: dispatch_payload_matches_def split: sum.splits)

text \<open>Two preparations of one request carry the same payload, whenever they were made.\<close>

lemma prepared_matches:
  assumes "is_ok (ev_request_json ev ((ctk_request (prepared a t r p b))\<lparr>cr_node_id := None\<rparr>))"
    and "dispatch_payload_matches (ev_request_json ev) existing (prepared a t r p b) \<or> existing = prepared a t r p b"
  shows "dispatch_payload_matches (ev_request_json ev) existing (prepared a' t' r p b')"
  using assms by (cases "ev_request_json ev (r\<lparr>cr_circuit := normalize_gate_params (cr_circuit r), cr_node_id := None\<rparr>)")
    (auto simp: payload_matches_iff prepared_request)

lemma hand_over_frame:
  "app_storage (snd (hand_over t a)) = app_storage a" "app_config (snd (hand_over t a)) = app_config a"
  "app_supported_gates (snd (hand_over t a)) = app_supported_gates a" "app_rx_open (snd (hand_over t a)) = app_rx_open a"
  by (auto simp: hand_over_def enqueue_def Let_def)

lemma hand_over_done: "fst (hand_over t a) = Some (Inr ()) \<Longrightarrow>
    snd (hand_over t a) = a\<lparr>app_pending_tasks := app_pending_tasks a + 1,
      app_work := hold (app_work a) (cr_task_id (ctk_request t)) (cr_parent_task_id (ctk_request t)) (ctk_budget t),
      app_queue := app_queue a @ [t]\<rparr>"
  by (auto simp: hand_over_def enqueue_def Let_def split: if_splits)

text \<open>What the store holds after a run on a healthy store that no other handler disturbs.\<close>

lemma store_new:
  assumes "healthy_db a" "app_task a (task_slot t) = None" "enc (ev_tasks ev) t = Inr payload"
  shows "\<exists>s. store_and_hand_over ev (\<lambda>a. a) now t a = hand_over t (a\<lparr>app_storage := s\<rparr>) \<and>
    task_at s = (task_at (app_storage a))(task_slot t \<mapsto> \<lparr>tk_id = Suc (tb_seq (st_tasks (app_storage a))),
      tk_pubkey = ctk_orchestrator_pubkey t, tk_task_id = cr_task_id (ctk_request t), tk_payload = payload,
      tk_status = ''pending'', tk_created_at = unix_secs now\<rparr>) \<and>
    st_fault s = st_fault (app_storage a) \<and> results_map s = results_map (app_storage a) \<and> pcs_map s = pcs_map (app_storage a)"
proof -
  let ?c = "ev_tasks ev" and ?s = "app_storage a"
  let ?l = "load_task ?c (ctk_orchestrator_pubkey t) (cr_task_id (ctk_request t))"
  have h: "\<And>n. st_fault ?s n = None" using assms(1) by (simp add: healthy_db_def)
  have load: "?l ?s = (Inr None, ?s\<lparr>st_calls := Suc (st_calls ?s)\<rparr>)"
    using assms(2) load_task_healthy [OF h, of ?c]
    by (simp add: prod_eq_iff app_task_def task_slot_def)
  let ?s1 = "?s\<lparr>st_calls := Suc (st_calls ?s)\<rparr>"
  have "task_at ?s1 (task_slot t) = None" using assms(2) by (simp add: app_task_def)
  then have saved: "fst (save_task ?c now t ?s1) = Inr ()"
    using assms(3) h by (simp add: save_task_def execute_ok task_at_def task_slot_def)
  have "store_and_hand_over ev (\<lambda>a. a) now t a = hand_over t (a\<lparr>app_storage := snd (save_task ?c now t ?s1)\<rparr>)"
    using saved by (simp add: store_and_hand_over_def on_storage_eq load Let_def)
  moreover have "task_at (snd (save_task ?c now t ?s1)) = (task_at ?s)(task_slot t \<mapsto> \<lparr>tk_id = Suc (tb_seq (st_tasks ?s)),
      tk_pubkey = ctk_orchestrator_pubkey t, tk_task_id = cr_task_id (ctk_request t), tk_payload = payload,
      tk_status = ''pending'', tk_created_at = unix_secs now\<rparr>)"
    using saved assms(3) by (simp add: task_after task_slot_def)
  ultimately show ?thesis by (auto simp: table_simps)
qed

lemma store_existing:
  assumes "healthy_db a" "app_task a (task_slot t) = Some r" "dec (ev_tasks ev) (tk_payload r) = Inr existing"
  shows "store_and_hand_over ev others now t a =
    (Some (if dispatch_payload_matches (ev_request_json ev) existing t then Inr ()
       else Inl (Storage_failed (''task_id '' @ cr_task_id (ctk_request t) @ '' already exists with a different payload''))),
     a\<lparr>app_storage := (app_storage a)\<lparr>st_calls := Suc (st_calls (app_storage a))\<rparr>\<rparr>)"
proof -
  have h: "\<And>n. st_fault (app_storage a) n = None" using assms(1) by (simp add: healthy_db_def)
  show ?thesis
    using assms(2,3) by (simp add: store_and_hand_over_def on_storage_eq load_task_healthy [OF h] app_task_def task_slot_def Let_def)
qed

lemma unique_violation_recognised: "is_unique_violation unique_violation"
  by (simp add: is_unique_violation_def unique_violation_def starts_with_def)

section \<open>Properties\<close>

text \<open>
  Property C8. A dispatch within the qubit limit and with a valid circuit, for which no row exists, is
  accepted: one row with status \<open>pending\<close> appears under its key and no other row changes, exactly this
  task is appended to the worker's queue, the load counter and the work ledger account for it, and the
  circuit that is stored and queued, normalised, is valid as well.
\<close>

theorem accept_new_task:
  assumes "gate_decoder (ev_gate_of_json ev)" "admissible ev request a" "healthy_db a"
    and "app_task a (pubkey, cr_task_id request) = None" "app_rx_open a" "length (app_queue a) < 100"
    and "enc (ev_tasks ev) (prepared a now_ms request pubkey b) = Inr payload"
  shows "let t = prepared a now_ms request pubkey b;
             a' = snd (accept_compute_task ev (\<lambda>a. a) now_ms now request pubkey b a)
    in fst (accept_compute_task ev (\<lambda>a. a) now_ms now request pubkey b a) = Some (Inr ()) \<and>
       app_queue a' = app_queue a @ [t] \<and> app_pending_tasks a' = app_pending_tasks a + 1 \<and>
       app_work a' = hold (app_work a) (cr_task_id request) (cr_parent_task_id request) b \<and>
       (\<exists>i. app_task a' = (app_task a)((pubkey, cr_task_id request) \<mapsto> \<lparr>tk_id = i, tk_pubkey = pubkey,
          tk_task_id = cr_task_id request, tk_payload = payload, tk_status = ''pending'', tk_created_at = unix_secs now\<rparr>)) \<and>
       validate_circuit_logic (ev_gate_of_json ev) (cr_circuit (ctk_request t)) (cr_qubit_count (ctk_request t))
         (app_supported_gates a) = Some (Inr ())"
proof -
  let ?t = "prepared a now_ms request pubkey b"
  obtain s where s: "store_and_hand_over ev (\<lambda>a. a) now ?t a = hand_over ?t (a\<lparr>app_storage := s\<rparr>)"
    "task_at s = (task_at (app_storage a))((pubkey, cr_task_id request) \<mapsto> \<lparr>tk_id = Suc (tb_seq (st_tasks (app_storage a))),
       tk_pubkey = pubkey, tk_task_id = cr_task_id request, tk_payload = payload,
       tk_status = ''pending'', tk_created_at = unix_secs now\<rparr>)"
    using store_new [OF assms(3), of ?t ev payload now] assms(4,7) by auto
  have run: "fst (hand_over ?t (a\<lparr>app_storage := s\<rparr>)) = Some (Inr ())"
    using assms(5,6) by (simp add: hand_over_def enqueue_def Let_def QUEUE_CAPACITY_def)
  have "validate_circuit_logic (ev_gate_of_json ev) (normalize_gate_params (cr_circuit request)) (cr_qubit_count request)
      (app_supported_gates a) = Some (Inr ())"
    using normalized_still_valid [OF assms(1)] assms(2) by (simp add: admissible_def)
  then show ?thesis
    using s(2) by (auto simp: Let_def accept_admissible [OF assms(2)] s(1) run hand_over_done [OF run] app_task_def)
qed

text \<open>
  Property C7. A repeated dispatch is harmless: once a dispatch has been accepted, dispatching the same
  request again, at any later time and with any budget, is accepted as well and adds nothing to the
  queue, the load counter, the work ledger or the rows.
\<close>

theorem accept_once:
  assumes "healthy_db a" "is_ok (ev_request_json ev (request\<lparr>cr_circuit := normalize_gate_params (cr_circuit request), cr_node_id := None\<rparr>))"
    and "\<And>payload. enc (ev_tasks ev) (prepared a now_ms request pubkey b) = Inr payload \<Longrightarrow>
           dec (ev_tasks ev) payload = Inr (prepared a now_ms request pubkey b)"
    and "accept_compute_task ev (\<lambda>a. a) now_ms now request pubkey b a = (Some (Inr ()), a')"
  shows "let again = accept_compute_task ev (\<lambda>a. a) now_ms' now' request pubkey b' a' in
    fst again = Some (Inr ()) \<and> app_queue (snd again) = app_queue a' \<and> app_pending_tasks (snd again) = app_pending_tasks a' \<and>
    app_work (snd again) = app_work a' \<and> app_task (snd again) = app_task a'"
proof -
  let ?t = "prepared a now_ms request pubkey b" and ?k = "(pubkey, cr_task_id request)"
  have adm: "admissible ev request a"
    using assms(4) by (auto simp: accept_compute_task_def admissible_def not_less split: if_splits option.splits sum.splits)
  have run: "store_and_hand_over ev (\<lambda>a. a) now ?t a = (Some (Inr ()), a')"
    using assms(4) accept_admissible [OF adm] by metis
  have stored: "healthy_db a' \<and> admissible ev request a' \<and> (\<exists>r existing. app_task a' ?k = Some r \<and>
      dec (ev_tasks ev) (tk_payload r) = Inr existing \<and>
      (dispatch_payload_matches (ev_request_json ev) existing ?t \<or> existing = ?t))"
  proof (cases "app_task a ?k")
    case (Some r)
    show ?thesis
    proof (cases "dec (ev_tasks ev) (tk_payload r)")
      case (Inr existing)
      have "healthy_db a' = healthy_db a" "app_task a' = app_task a" "admissible ev request a' = admissible ev request a"
        "dispatch_payload_matches (ev_request_json ev) existing ?t"
        using run store_existing [OF assms(1), of ?t r ev existing "\<lambda>a. a" now] Some Inr
        by (auto simp: healthy_db_def app_task_def admissible_def split: if_splits)
      with Some Inr adm assms(1) show ?thesis by auto
    next
      case (Inl e)
      then show ?thesis
        using run Some assms(1) by (auto simp: store_and_hand_over_def on_storage_eq healthy_db_def load_task_healthy app_task_def Let_def)
    qed
  next
    case None
    then obtain payload where p: "enc (ev_tasks ev) ?t = Inr payload"
      using run assms(1) by (cases "enc (ev_tasks ev) ?t")
        (auto simp: store_and_hand_over_def on_storage_eq healthy_db_def load_task_healthy app_task_def Let_def save_task_def
          split: if_splits)
    obtain s where s: "store_and_hand_over ev (\<lambda>a. a) now ?t a = hand_over ?t (a\<lparr>app_storage := s\<rparr>)"
      "task_at s ?k = Some \<lparr>tk_id = Suc (tb_seq (st_tasks (app_storage a))), tk_pubkey = pubkey, tk_task_id = cr_task_id request,
         tk_payload = payload, tk_status = ''pending'', tk_created_at = unix_secs now\<rparr>" "st_fault s = st_fault (app_storage a)"
      using store_new [OF assms(1), of ?t ev payload now] None p by auto
    have "a' = snd (hand_over ?t (a\<lparr>app_storage := s\<rparr>))" using run s(1) by simp
    then have "app_storage a' = s" "app_config a' = app_config a" "app_supported_gates a' = app_supported_gates a"
      by (simp_all add: hand_over_frame)
    then show ?thesis
      using s(2,3) adm assms(1) assms(3) [OF p] by (auto simp: healthy_db_def app_task_def admissible_def)
  qed
  then obtain r existing where r: "app_task a' ?k = Some r" "dec (ev_tasks ev) (tk_payload r) = Inr existing"
    "dispatch_payload_matches (ev_request_json ev) existing ?t \<or> existing = ?t" by blast
  have "dispatch_payload_matches (ev_request_json ev) existing (prepared a' now_ms' request pubkey b')"
    using prepared_matches [OF _ r(3)] assms(2) by (simp add: prepared_request)
  then show ?thesis
    using stored r store_existing [of a' "prepared a' now_ms' request pubkey b'" r ev existing "\<lambda>a. a" now']
    by (simp add: Let_def accept_admissible app_task_def)
qed

section \<open>Witnesses\<close>

lemma demo_request_admissible: "admissible (demo_env t j) demo_request demo_app"
  by (simp add: admissible_def demo_request_def demo_app_def demo_env_def demo_config_def into_compute_request_def
      demo_sub_task_def compact_qubit_limit_def validate_circuit_logic_def validate_gate.simps validate_qubit_params_def
      is_rotation_def qubit_index_def ensure_in_range_def)

lemma demo_request_id: "cr_task_id demo_request = ''s1''"
  by (simp add: demo_request_def into_compute_request_def demo_sub_task_def)

lemma demo_app_empty: "healthy_db demo_app" "app_task demo_app k = None" "app_rx_open demo_app" "app_queue demo_app = []"
  by (simp_all add: healthy_db_def app_task_def task_at_def tb_find_def empty_table_def demo_app_def new_storage_def)

definition demo_accepted :: compute_task where
  "demo_accepted = prepared demo_app (Some 1000) demo_request ''o'' None"

theorem accept_new_task_witness:
  "fst (accept_compute_task (demo_env demo_accepted (demo_job False None)) (\<lambda>a. a) (Some 1000) (Some 1) demo_request ''o'' None demo_app)
     = Some (Inr ()) \<and>
   app_queue (snd (accept_compute_task (demo_env demo_accepted (demo_job False None)) (\<lambda>a. a) (Some 1000) (Some 1) demo_request ''o'' None demo_app))
     = [demo_accepted]"
proof -
  let ?ev = "demo_env demo_accepted (demo_job False None)"
  have "gate_decoder (ev_gate_of_json ?ev)" "enc (ev_tasks ?ev) (prepared demo_app (Some 1000) demo_request ''o'' None) = Inr ''task''"
    by (simp_all add: demo_env_def decode_gate_ok)
  from accept_new_task [OF this(1) demo_request_admissible demo_app_empty(1) demo_app_empty(2) demo_app_empty(3) _ this(2)]
  show ?thesis by (simp add: Let_def demo_app_empty demo_accepted_def)
qed

theorem accept_once_witness:
  "\<exists>a'. accept_compute_task (demo_env demo_accepted (demo_job False None)) (\<lambda>a. a) (Some 1000) (Some 1) demo_request ''o'' None demo_app
     = (Some (Inr ()), a') \<and> length (app_queue a') = 1 \<and>
   fst (accept_compute_task (demo_env demo_accepted (demo_job False None)) (\<lambda>a. a) (Some 2000) (Some 2) demo_request ''o'' None a') = Some (Inr ()) \<and>
   length (app_queue (snd (accept_compute_task (demo_env demo_accepted (demo_job False None)) (\<lambda>a. a) (Some 2000) (Some 2) demo_request ''o'' None a'))) = 1"
proof -
  let ?ev = "demo_env demo_accepted (demo_job False None)"
  let ?run = "accept_compute_task ?ev (\<lambda>a. a) (Some 1000) (Some 1) demo_request ''o'' None demo_app"
  obtain s where "store_and_hand_over ?ev (\<lambda>a. a) (Some 1) demo_accepted demo_app = hand_over demo_accepted (demo_app\<lparr>app_storage := s\<rparr>)"
    using store_new [OF demo_app_empty(1) demo_app_empty(2), of ?ev demo_accepted "''task''" "Some 1"] by (auto simp: demo_env_def)
  then have run: "?run = (Some (Inr ()), snd ?run)" "length (app_queue (snd ?run)) = 1"
    by (simp_all add: accept_admissible demo_request_admissible demo_accepted_def hand_over_def enqueue_def Let_def
        QUEUE_CAPACITY_def demo_app_empty)
  have "is_ok (ev_request_json ?ev r)" "dec (ev_tasks ?ev) payload = Inr (prepared demo_app (Some 1000) demo_request ''o'' None)" for r payload
    by (simp_all add: demo_env_def demo_accepted_def)
  from accept_once [OF demo_app_empty(1) this run(1), of "Some 2000" "Some 2" None] run show ?thesis
    by (intro exI [of _ "snd ?run"]) (simp add: Let_def)
qed

section \<open>Concurrent dispatches and a closed queue\<close>

text \<open>
  Property C18. Two handlers of the same dispatch: when another handler stores the sub-task after this
  one looked it up, the unique key turns the insertion into the duplicate test. With the same payload
  the dispatch is accepted, with another one it is refused, and in both cases nothing is queued,
  counted or stored a second time.
\<close>

theorem accept_race:
  assumes "admissible ev request a" "healthy_db a" "app_task a (pubkey, cr_task_id request) = None"
    and "enc (ev_tasks ev) (prepared a now_ms request pubkey b) = Inr payload"
    and "\<And>x. healthy_db (others x)" "\<And>x. app_task (others x) (pubkey, cr_task_id request) = Some r"
    and "dec (ev_tasks ev) (tk_payload r) = Inr existing"
  shows "\<exists>n. snd (accept_compute_task ev others now_ms now request pubkey b a) =
      (let a1 = others (a\<lparr>app_storage := (app_storage a)\<lparr>st_calls := Suc (st_calls (app_storage a))\<rparr>\<rparr>)
       in a1\<lparr>app_storage := (app_storage a1)\<lparr>st_calls := n\<rparr>\<rparr>) \<and>
    (fst (accept_compute_task ev others now_ms now request pubkey b a) = Some (Inr ()) \<longleftrightarrow>
       dispatch_payload_matches (ev_request_json ev) existing (prepared a now_ms request pubkey b))"
proof -
  let ?t = "prepared a now_ms request pubkey b" and ?c = "ev_tasks ev"
  let ?a1 = "others (a\<lparr>app_storage := (app_storage a)\<lparr>st_calls := Suc (st_calls (app_storage a))\<rparr>\<rparr>)"
  let ?s1 = "app_storage ?a1"
  have h: "\<And>n. st_fault (app_storage a) n = None" "\<And>n. st_fault ?s1 n = None"
    using assms(2,5) by (simp_all add: healthy_db_def)
  have row: "task_at ?s1 (pubkey, cr_task_id request) = Some r" using assms(6) by (simp add: app_task_def)
  have load: "load_task ?c pubkey (cr_task_id request) (app_storage a) =
      (Inr None, (app_storage a)\<lparr>st_calls := Suc (st_calls (app_storage a))\<rparr>)"
    using load_task_healthy [OF h(1), of ?c] assms(3) by (simp add: prod_eq_iff app_task_def)
  have save: "save_task ?c now ?t ?s1 = (Inl unique_violation, ?s1\<lparr>st_calls := Suc (st_calls ?s1)\<rparr>)"
    using assms(4) row h(2) by (simp add: save_task_def execute_ok task_at_def)
  let ?s2 = "?s1\<lparr>st_calls := Suc (st_calls ?s1)\<rparr>"
  have h2: "\<And>n. st_fault ?s2 n = None" using h(2) by simp
  have again: "load_task ?c pubkey (cr_task_id request) ?s2 = (Inr (Some existing), ?s2\<lparr>st_calls := Suc (st_calls ?s2)\<rparr>)"
    using load_task_healthy [OF h2, of ?c pubkey "cr_task_id request"] row assms(7) by (simp add: prod_eq_iff)
  show ?thesis
    unfolding accept_admissible [OF assms(1)] store_and_hand_over_def Let_def
    by (rule exI [of _ "Suc (Suc (st_calls ?s1))"])
      (simp add: on_storage_eq load save again unique_violation_recognised)
qed

text \<open>
  Property C39. When the worker is gone the hand-over fails and the caller is told that the queue is full,
  with the load counter and the queue as before. But the row stays, with status \<open>pending\<close>: the same
  dispatch sent again is answered as a duplicate with success, although no queue holds the sub-task.
\<close>

theorem closed_queue_leaves_row:
  assumes "admissible ev request a" "healthy_db a" "app_task a (pubkey, cr_task_id request) = None" "\<not> app_rx_open a"
    and "enc (ev_tasks ev) (prepared a now_ms request pubkey b) = Inr payload"
    and "dec (ev_tasks ev) payload = Inr (prepared a now_ms request pubkey b)"
    and "is_ok (ev_request_json ev (request\<lparr>cr_circuit := normalize_gate_params (cr_circuit request), cr_node_id := None\<rparr>))"
  shows "let first = accept_compute_task ev (\<lambda>a. a) now_ms now request pubkey b a;
             again = accept_compute_task ev (\<lambda>a. a) now_ms' now' request pubkey b' (snd first)
    in fst first = Some (Inl QueueFull) \<and> app_queue (snd first) = app_queue a \<and>
       app_pending_tasks (snd first) = app_pending_tasks a \<and>
       (\<exists>r. app_task (snd first) (pubkey, cr_task_id request) = Some r \<and> tk_status r = ''pending'') \<and>
       fst again = Some (Inr ()) \<and> app_queue (snd again) = app_queue a"
proof -
  let ?t = "prepared a now_ms request pubkey b" and ?k = "(pubkey, cr_task_id request)"
  let ?first = "accept_compute_task ev (\<lambda>a. a) now_ms now request pubkey b a"
  obtain s r where s: "store_and_hand_over ev (\<lambda>a. a) now ?t a = hand_over ?t (a\<lparr>app_storage := s\<rparr>)"
      "task_at s ?k = Some r" "tk_payload r = payload" "tk_status r = ''pending''" "st_fault s = st_fault (app_storage a)"
    using store_new [OF assms(2), of ?t ev payload now] assms(3,5) by auto
  have first: "fst ?first = Some (Inl QueueFull)" "app_queue (snd ?first) = app_queue a"
      "app_pending_tasks (snd ?first) = app_pending_tasks a" "app_storage (snd ?first) = s"
      "app_config (snd ?first) = app_config a" "app_supported_gates (snd ?first) = app_supported_gates a"
    using assms(4) by (simp_all add: accept_admissible [OF assms(1)] s(1) hand_over_frame) (simp_all add: hand_over_def enqueue_def Let_def)
  then have state: "healthy_db (snd ?first)" "admissible ev request (snd ?first)" "app_task (snd ?first) ?k = Some r"
    using assms(1,2) s by (simp_all add: healthy_db_def admissible_def app_task_def)
  have "dispatch_payload_matches (ev_request_json ev) ?t (prepared (snd ?first) now_ms' request pubkey b')"
    using prepared_matches [of ev a now_ms request pubkey b ?t] assms(7) by (simp add: prepared_request)
  then show ?thesis
    using store_existing [OF state(1), of "prepared (snd ?first) now_ms' request pubkey b'" r ev ?t "\<lambda>a. a" now']
      state first s assms(6) by (simp add: Let_def accept_admissible [OF state(2)])
qed

theorem closed_queue_leaves_row_witness:
  "let ev = demo_env demo_accepted (demo_job False None); a = demo_app\<lparr>app_rx_open := False\<rparr>;
       first = accept_compute_task ev (\<lambda>a. a) (Some 1000) (Some 1) demo_request ''o'' None a
   in fst first = Some (Inl QueueFull) \<and>
      fst (accept_compute_task ev (\<lambda>a. a) (Some 2000) (Some 2) demo_request ''o'' None (snd first)) = Some (Inr ())"
proof -
  let ?ev = "demo_env demo_accepted (demo_job False None)" and ?a = "demo_app\<lparr>app_rx_open := False\<rparr>"
  have "admissible ?ev demo_request ?a" "healthy_db ?a" "app_task ?a (''o'', cr_task_id demo_request) = None" "\<not> app_rx_open ?a"
    using demo_request_admissible [of demo_accepted "demo_job False None"] demo_app_empty
    by (simp_all add: admissible_def healthy_db_def app_task_def)
  moreover have p: "prepared ?a (Some 1000) demo_request ''o'' None = demo_accepted" by (simp add: demo_accepted_def prepared_def)
  moreover have "enc (ev_tasks ?ev) demo_accepted = Inr ''task''" "dec (ev_tasks ?ev) ''task'' = Inr demo_accepted"
      "is_ok (ev_request_json ?ev r)" for r
    by (simp_all add: demo_env_def)
  ultimately show ?thesis
    using closed_queue_leaves_row [of ?ev demo_request ?a "''o''" "Some 1000" None "''task''" "Some 1" "Some 2000" "Some 2" None]
    by (simp add: Let_def p)
qed

theorem accept_race_witness:
  "let ev = demo_env demo_accepted (demo_job False None);
       others = (\<lambda>x :: nat app. demo_app\<lparr>app_storage := snd (save_task (ev_tasks ev) (Some 1) demo_accepted (new_storage (\<lambda>n. None)))\<rparr>)
   in fst (accept_compute_task ev others (Some 2000) (Some 2) demo_request ''o'' None demo_app) = Some (Inr ()) \<and>
      app_queue (snd (accept_compute_task ev others (Some 2000) (Some 2) demo_request ''o'' None demo_app)) = []"
proof -
  let ?ev = "demo_env demo_accepted (demo_job False None)"
  let ?s = "snd (save_task (ev_tasks ?ev) (Some 1) demo_accepted (new_storage (\<lambda>n. None)))"
  let ?others = "\<lambda>x :: nat app. demo_app\<lparr>app_storage := ?s\<rparr>"
  let ?t = "prepared demo_app (Some 2000) demo_request ''o'' None"
  obtain r where r: "app_task (?others demo_app) (''o'', cr_task_id demo_request) = Some r"
    by (simp add: app_task_def task_at_def save_task_def demo_env_def execute_def new_storage_def tb_find_def empty_table_def
        tb_insert_def task_key_def demo_accepted_def)
  have h: "healthy_db (?others x)" for x by (simp add: healthy_db_def) (simp add: new_storage_def)
  have m: "dispatch_payload_matches (ev_request_json ?ev) demo_accepted ?t"
    by (simp add: payload_matches_iff demo_env_def demo_accepted_def prepared_request)
  have c: "enc (ev_tasks ?ev) ?t = Inr ''task''" "dec (ev_tasks ?ev) (tk_payload r) = Inr demo_accepted" by (simp_all add: demo_env_def)
  from accept_race [OF demo_request_admissible demo_app_empty(1) demo_app_empty(2) c(1) h _ c(2), of "Some 2"] r m show ?thesis
    by (auto simp: Let_def demo_app_empty)
qed

end
