(* ===== verification/Pcs_Outbox.thy ===== *)
theory Pcs_Outbox
  imports App_State
begin

text \<open>
  Leaf PCS bundles: the cache of open calls (\<open>src/src/application/pcs_open_call.rs\<close>) and the outbox of
  \<open>src/src/application/pcs_outbox.rs\<close>, which retains the proof of a delivered result, builds the bundle
  when the orchestrator asks for it, and delivers it, retrying until it is acknowledged.

  Building and sending wait for other machines. Where they do, other tasks of the node run: the
  argument \<open>others\<close> is what they do to the state at each such point. The time, the answers of the core and
  of the content-addressed store are in \<open>pcs_world\<close>.
\<close>

record pcs_world =
  pw_now :: instant
  pw_unix :: "nat option"
  pw_core :: "proof_wire \<Rightarrow> leaf_pcs_response core_call"
  pw_cas :: "string \<Rightarrow> bytes response"

section \<open>Open calls\<close>

definition should_bid_open_call_at :: "'k node_config \<Rightarrow> pcs_memory_policy \<Rightarrow> pcs_open_call \<Rightarrow> i64 \<Rightarrow> bool" where
  "should_bid_open_call_at config core_policy open_call now_unix =
     (if \<not> is_spill core_policy then False
      else if is_expired_at open_call now_unix then False
      else if refuses_builder open_call (peer_id config) then False
      else if oc_leaf_proof_hash open_call = [] \<or> oc_sub_task_id open_call = [] then False
      else True)"

definition should_bid_open_call :: "'k node_config \<Rightarrow> pcs_memory_policy \<Rightarrow> pcs_open_call \<Rightarrow> nat option \<Rightarrow> bool" where
  "should_bid_open_call config core_policy open_call now = should_bid_open_call_at config core_policy open_call (unix_secs now)"

definition skip_bid_reason :: "'k node_config \<Rightarrow> pcs_memory_policy \<Rightarrow> pcs_open_call \<Rightarrow> nat option \<Rightarrow> string" where
  "skip_bid_reason config core_policy open_call now =
     (if core_policy \<noteq> Spill then ''policy=refuse''
      else if is_expired open_call now then ''expired''
      else if refuses_builder open_call (peer_id config) then ''already_refused''
      else if oc_leaf_proof_hash open_call = [] \<or> oc_sub_task_id open_call = [] then ''incomplete_open_call''
      else ''unknown'')"

definition fetch_core_pcs_memory_policy :: "core_system_info response \<Rightarrow> 'k app \<Rightarrow> pcs_memory_policy" where
  "fetch_core_pcs_memory_policy answer a =
     (case get_system_info answer (app_core a) of Inr info \<Rightarrow> sysinfo_pcs_memory_policy info | Inl _ \<Rightarrow> Refuse)"

definition cache_open_call :: "pcs_open_call \<Rightarrow> 'k app \<Rightarrow> 'k app" where
  "cache_open_call c a = a\<lparr>app_open_calls := hm_insert (oc_sub_task_id c) c (app_open_calls a)\<rparr>"

definition cached_open_call :: "string \<Rightarrow> string \<Rightarrow> 'k app \<Rightarrow> pcs_open_call option" where
  "cached_open_call sub_task_id leaf_proof_hash a =
     (case hm_get (app_open_calls a) sub_task_id of
        None \<Rightarrow> None
      | Some c \<Rightarrow> if leaf_proof_hash \<noteq> [] \<and> oc_leaf_proof_hash c \<noteq> leaf_proof_hash then None else Some c)"

definition clear_cached_open_call :: "string \<Rightarrow> 'k app \<Rightarrow> 'k app" where
  "clear_cached_open_call sub_task_id a = a\<lparr>app_open_calls := hm_remove sub_task_id (app_open_calls a)\<rparr>"

section \<open>Kinds of failure\<close>

definition is_core_down_error :: "err \<Rightarrow> bool" where
  "is_core_down_error msg \<longleftrightarrow> str_contains ''unhealthy (backoff)'' msg \<or> str_contains ''health check failed'' msg \<or>
     str_contains ''Failed to send leaf_pcs request to wqc-core'' msg"

definition is_pcs_memory_refuse :: "err \<Rightarrow> bool" where
  "is_pcs_memory_refuse msg \<longleftrightarrow> str_contains ''PCS memory:'' msg \<and> str_contains ''policy=refuse'' msg"

definition is_cas_hash_mismatch :: "err \<Rightarrow> bool" where
  "is_cas_hash_mismatch msg = str_contains ''CAS leaf proof hash mismatch'' msg"

text \<open>\<open>str::lines\<close>: pieces between line feeds, without a final empty one and without trailing carriage returns.\<close>

definition str_lines :: "string \<Rightarrow> string list" where
  "str_lines s =
     (let pieces = split_char (CHR 0x0A) s;
          pieces = (if last pieces = [] then butlast pieces else pieces)
      in map (\<lambda>l. case strip_suffix [CHR 0x0D] l of Some r \<Rightarrow> r | None \<Rightarrow> l) pieces)"

definition pcs_refuse_reason :: "err \<Rightarrow> string" where
  "pcs_refuse_reason msg =
     (case find (\<lambda>l. str_contains ''PCS memory:'' l \<or> str_contains ''CAS leaf proof hash mismatch'' l) (str_lines msg) of
        Some l \<Rightarrow> if trim l \<noteq> [] then trim l else ''PCS memory: refused''
      | None \<Rightarrow> ''PCS memory: refused'')"

definition placeholder_proof :: "string \<Rightarrow> string \<Rightarrow> string \<Rightarrow> proof_wire" where
  "placeholder_proof sub_task_id node_id slice_id =
     \<lparr>pf_public_inputs = \<lparr>pi_circuit_id = [], pi_sub_task_id = sub_task_id, pi_node_id = node_id, pi_slice_id = slice_id,
        pi_output_result_hash = [], pi_measurement_spec_hash = [], pi_security_level = []\<rparr>, pf_stark_proof_b64 = []\<rparr>"

section \<open>Builds in flight\<close>

definition claim_inflight :: "string \<Rightarrow> 'k app \<Rightarrow> bool \<times> 'k app" where
  "claim_inflight sub_task_id a =
     (if sub_task_id \<in> set (app_in_flight a) then (False, a)
      else (True, a\<lparr>app_in_flight := sub_task_id # app_in_flight a\<rparr>))"

definition release_inflight :: "string \<Rightarrow> 'k app \<Rightarrow> 'k app" where
  "release_inflight sub_task_id a = a\<lparr>app_in_flight := removeAll sub_task_id (app_in_flight a)\<rparr>"

section \<open>Retaining a proof\<close>

definition spawn_build_and_deliver :: "string \<Rightarrow> string \<Rightarrow> pending_pcs_job \<Rightarrow> 'k app \<Rightarrow> 'k app" where
  "spawn_build_and_deliver pubkey sub_task_id job a = a\<lparr>app_spawned := app_spawned a @ [(pubkey, sub_task_id, job)]\<rparr>"

definition retained_job :: "string \<Rightarrow> proof_wire \<Rightarrow> pending_pcs_job option \<Rightarrow> pending_pcs_job" where
  "retained_job sub_task_id proof existing =
     (let job = \<lparr>pj_sub_task_id = sub_task_id, pj_proof = proof, pj_requested = False, pj_leaf_pcs_b64 = None,
                 pj_leaf_pcs_bytes = None, pj_open_call = None\<rparr>
      in case existing of
           None \<Rightarrow> job
         | Some e \<Rightarrow>
             (let job = job\<lparr>pj_requested := pj_requested e, pj_open_call := pj_open_call e\<rparr>
              in if pj_leaf_pcs_b64 e \<noteq> None
                 then job\<lparr>pj_leaf_pcs_b64 := pj_leaf_pcs_b64 e, pj_leaf_pcs_bytes := pj_leaf_pcs_bytes e\<rparr> else job))"

definition retain_after_result :: "app_env \<Rightarrow> nat option \<Rightarrow> compute_task \<Rightarrow> proof_wire \<Rightarrow> 'k app \<Rightarrow> 'k app" where
  "retain_after_result ev now task proof a =
     (let pubkey = ctk_orchestrator_pubkey task; sub_task_id = cr_task_id (ctk_request task) in
      case on_storage (get_pending_pcs pubkey sub_task_id) a of (found, a) \<Rightarrow>
        let existing = (case found of
               Inr (Some entry) \<Rightarrow> (case dec (ev_jobs ev) (pp_job_json entry) of Inr e \<Rightarrow> Some e | Inl _ \<Rightarrow> None)
             | _ \<Rightarrow> None);
            job = retained_job sub_task_id proof existing
        in case on_storage (upsert_pending_pcs (ev_jobs ev) now pubkey sub_task_id job) a of
             (Inl _, a) \<Rightarrow> a
           | (Inr _, a) \<Rightarrow> if \<not> pj_requested job then a else spawn_build_and_deliver pubkey sub_task_id job a)"

section \<open>Requests of the orchestrator\<close>

definition RETAINED_PROOF_LOOKUP_ATTEMPTS :: nat where "RETAINED_PROOF_LOOKUP_ATTEMPTS = 10"

datatype lookup = Found pending_pcs_job | Missing | Gave_up

text \<open>The lookup of the retained proof: attempts left, number of the next pause.\<close>

fun lookup_retained ::
    "app_env \<Rightarrow> (nat \<Rightarrow> 'k app \<Rightarrow> 'k app) \<Rightarrow> string \<Rightarrow> string \<Rightarrow> nat \<Rightarrow> nat \<Rightarrow> 'k app \<Rightarrow> lookup \<times> 'k app" where
  "lookup_retained ev others pubkey sub_task_id 0 k a = (Missing, a)"
| "lookup_retained ev others pubkey sub_task_id (Suc n) k a =
     (case on_storage (get_pending_pcs pubkey sub_task_id) a of
        (Inr (Some entry), a) \<Rightarrow>
          (case dec (ev_jobs ev) (pp_job_json entry) of Inr job \<Rightarrow> (Found job, a) | Inl _ \<Rightarrow> (Gave_up, a))
      | (Inr None, a) \<Rightarrow>
          if 0 < n then lookup_retained ev others pubkey sub_task_id n (Suc k) (others k a) else (Missing, a)
      | (Inl _, a) \<Rightarrow> (Gave_up, a))"

definition handle_open_call_pcs_request :: "app_env \<Rightarrow> nat option \<Rightarrow> string \<Rightarrow> pcs_request \<Rightarrow> 'k app \<Rightarrow> 'k app" where
  "handle_open_call_pcs_request ev now pubkey request a =
     (let sub_task_id = pr_sub_task_id request; hash = pr_leaf_proof_hash request; slice = pr_slice_id request in
      if hash = [] then a
      else case cached_open_call sub_task_id hash a of
             None \<Rightarrow> a
           | Some c \<Rightarrow>
               (let job = \<lparr>pj_sub_task_id = sub_task_id, pj_proof = placeholder_proof sub_task_id (peer_id (app_config a)) slice,
                      pj_requested = True, pj_leaf_pcs_b64 = None, pj_leaf_pcs_bytes = None,
                      pj_open_call = Some \<lparr>os_leaf_proof_hash = oc_leaf_proof_hash c, os_cas_presigned_url = oc_cas_presigned_url c,
                        os_leaf_proof_bytes = oc_leaf_proof_bytes c, os_slice_id = (if slice = [] then oc_slice_id c else slice)\<rparr>\<rparr>
                in case on_storage (upsert_pending_pcs (ev_jobs ev) now pubkey sub_task_id job) a of
                     (Inl _, a) \<Rightarrow> a
                   | (Inr _, a) \<Rightarrow> spawn_build_and_deliver pubkey sub_task_id job a))"

definition handle_pcs_request ::
    "app_env \<Rightarrow> (nat \<Rightarrow> 'k app \<Rightarrow> 'k app) \<Rightarrow> nat option \<Rightarrow> string \<Rightarrow> pcs_request \<Rightarrow> 'k app \<Rightarrow> 'k app" where
  "handle_pcs_request ev others now pubkey request a =
     (if request_is_open_call request then handle_open_call_pcs_request ev now pubkey request a
      else let sub_task_id = pr_sub_task_id request in
        case lookup_retained ev others pubkey sub_task_id RETAINED_PROOF_LOOKUP_ATTEMPTS 0 a of
          (Found job, a) \<Rightarrow>
            if \<not> pj_requested job then
              (let job = job\<lparr>pj_requested := True\<rparr> in
               case on_storage (upsert_pending_pcs (ev_jobs ev) now pubkey sub_task_id job) a of
                 (Inl _, a) \<Rightarrow> a
               | (Inr _, a) \<Rightarrow> spawn_build_and_deliver pubkey sub_task_id job a)
            else spawn_build_and_deliver pubkey sub_task_id job a
        | (_, a) \<Rightarrow> a)"

section \<open>Building and delivering\<close>

datatype deliver_outcome = Delivered | SkippedInFlight | SkippedCoreDown | RefusedPermanent

definition on_core :: "(core_client \<Rightarrow> 'a \<times> core_client) \<Rightarrow> 'k app \<Rightarrow> 'a \<times> 'k app" where
  "on_core f a = (case f (app_core a) of (r, c) \<Rightarrow> (r, a\<lparr>app_core := c\<rparr>))"

definition build_open_call_leaf_pcs ::
    "app_env \<Rightarrow> pcs_world \<Rightarrow> string \<Rightarrow> open_call_pcs_source \<Rightarrow> 'k app \<Rightarrow> (err + leaf_pcs_response) \<times> 'k app" where
  "build_open_call_leaf_pcs ev w sub_task_id src a =
     (case fetch_and_verify (ev_sha256 ev) (ev_hex ev) (pw_cas w) (os_cas_presigned_url src) (os_leaf_proof_hash src)
             (if 0 < os_leaf_proof_bytes src then Some (os_leaf_proof_bytes src) else None) of
        Inl e \<Rightarrow> (Inl e, a)
      | Inr proof_bytes \<Rightarrow>
          on_core (build_leaf_pcs_from_proof_bytes (ev_b64 ev) (pw_core w) proof_bytes sub_task_id (peer_id (app_config a)) (os_slice_id src)) a)"

definition report_permanent_refusal ::
    "app_env \<Rightarrow> (nat \<Rightarrow> 'k app \<Rightarrow> 'k app) \<Rightarrow> string \<Rightarrow> string \<Rightarrow> err \<Rightarrow> 'k app \<Rightarrow> (err + deliver_outcome) \<times> 'k app" where
  "report_permanent_refusal ev others pubkey sub_task_id e a =
     (case build_pcs_refusal_wire_body ev sub_task_id (peer_id (app_config a)) (pcs_refuse_reason e) of
        Inl e \<Rightarrow> (Inl e, a)
      | Inr wire \<Rightarrow>
          (case send_pcs_wire ev wire a of
             (Inl e, a) \<Rightarrow> (Inl e, others 1 a)
           | (Inr _, a) \<Rightarrow>
               (case on_storage (delete_pending_pcs pubkey sub_task_id) (others 1 a) of
                  (Inl e, a) \<Rightarrow> (Inl e, a)
                | (Inr _, a) \<Rightarrow> (Inr RefusedPermanent, clear_cached_open_call sub_task_id a))))"

text \<open>
  The first half of the body: reuse the cached bundle, or build one and cache it before anything is
  sent. \<open>Inl r\<close> ends the body with the result \<open>r\<close>.
\<close>

definition build_or_reuse ::
    "app_env \<Rightarrow> pcs_world \<Rightarrow> (nat \<Rightarrow> 'k app \<Rightarrow> 'k app) \<Rightarrow> string \<Rightarrow> string \<Rightarrow> pending_pcs_job \<Rightarrow> 'k app
      \<Rightarrow> ((err + deliver_outcome) + (string \<times> pending_pcs_job)) \<times> 'k app" where
  "build_or_reuse ev w others pubkey sub_task_id job a =
     (case pj_leaf_pcs_b64 job of
        Some cached \<Rightarrow> (Inr (cached, job), a)
      | None \<Rightarrow>
          if is_in_backoff (pw_now w) (app_core a) then (Inl (Inr SkippedCoreDown), a)
          else
            (case (case pj_open_call job of
                     Some src \<Rightarrow> build_open_call_leaf_pcs ev w sub_task_id src a
                   | None \<Rightarrow> on_core (build_leaf_pcs (pw_core w) (pj_proof job)) a) of
               (Inl e, a) \<Rightarrow>
                 if is_core_down_error e then (Inl (Inr SkippedCoreDown), others 0 a)
                 else if is_pcs_memory_refuse e \<or> pj_open_call job \<noteq> None \<and> is_cas_hash_mismatch e
                 then (case report_permanent_refusal ev others pubkey sub_task_id e (others 0 a) of (r, a) \<Rightarrow> (Inl r, a))
                 else (Inl (Inl e), others 0 a)
             | (Inr pcs, a) \<Rightarrow>
                 (let job = job\<lparr>pj_leaf_pcs_b64 := Some (lp_leaf_pcs_b64 pcs), pj_leaf_pcs_bytes := Some (lp_bytes pcs)\<rparr> in
                  case on_storage (upsert_pending_pcs (ev_jobs ev) (pw_unix w) pubkey sub_task_id job) (others 0 a) of
                    (Inl e, a) \<Rightarrow> (Inl (Inl e), a)
                  | (Inr _, a) \<Rightarrow> (Inr (lp_leaf_pcs_b64 pcs, job), a))))"

text \<open>The second half: send the bundle and clear the job once the orchestrator has acknowledged it.\<close>

definition send_and_clear ::
    "app_env \<Rightarrow> (nat \<Rightarrow> 'k app \<Rightarrow> 'k app) \<Rightarrow> string \<Rightarrow> string \<Rightarrow> string \<Rightarrow> pending_pcs_job \<Rightarrow> 'k app
      \<Rightarrow> (err + deliver_outcome) \<times> 'k app" where
  "send_and_clear ev others pubkey sub_task_id leaf job a =
     (case build_pcs_wire_body ev sub_task_id (peer_id (app_config a)) leaf of
        Inl e \<Rightarrow> (Inl e, a)
      | Inr wire \<Rightarrow>
          (case send_pcs_wire ev wire a of
             (Inl e, a) \<Rightarrow> (Inl e, others 1 a)
           | (Inr _, a) \<Rightarrow>
               (case on_storage (delete_pending_pcs pubkey sub_task_id) (others 1 a) of
                  (Inl e, a) \<Rightarrow> (Inl e, a)
                | (Inr _, a) \<Rightarrow> (Inr Delivered, if job_is_open_call job then clear_cached_open_call sub_task_id a else a))))"

definition try_build_and_deliver ::
    "app_env \<Rightarrow> pcs_world \<Rightarrow> (nat \<Rightarrow> 'k app \<Rightarrow> 'k app) \<Rightarrow> string \<Rightarrow> string \<Rightarrow> pending_pcs_job \<Rightarrow> 'k app
      \<Rightarrow> (err + deliver_outcome) \<times> 'k app" where
  "try_build_and_deliver ev w others pubkey sub_task_id job a =
     (case claim_inflight sub_task_id a of
        (False, a) \<Rightarrow> (Inr SkippedInFlight, a)
      | (True, a) \<Rightarrow>
          (case (case build_or_reuse ev w others pubkey sub_task_id job a of
                   (Inl r, a) \<Rightarrow> (r, a)
                 | (Inr (leaf, job), a) \<Rightarrow> send_and_clear ev others pubkey sub_task_id leaf job a) of
             (result, a) \<Rightarrow> (result, release_inflight sub_task_id a)))"

section \<open>The retry loop\<close>

definition DEFAULT_PCS_RETRY_INTERVAL_SECS :: nat where "DEFAULT_PCS_RETRY_INTERVAL_SECS = 30"
definition DEFAULT_UNREQUESTED_TTL_SECS :: int where "DEFAULT_UNREQUESTED_TTL_SECS = 6 * 3600"

text \<open>One listed entry of a round. \<open>now\<close> was read once for the round; the subtraction of \<open>i64\<close> values wraps.\<close>

definition retry_pcs_entry ::
    "app_env \<Rightarrow> pcs_world \<Rightarrow> (nat \<Rightarrow> 'k app \<Rightarrow> 'k app) \<Rightarrow> i64 \<Rightarrow> i64 \<Rightarrow> pending_pcs \<Rightarrow> 'k app \<Rightarrow> 'k app" where
  "retry_pcs_entry ev w others ttl now entry a =
     (case dec (ev_jobs ev) (pp_job_json entry) of
        Inl _ \<Rightarrow> a
      | Inr job \<Rightarrow>
          if \<not> pj_requested job then
            (if sint ttl \<le> sint (now - pp_created_at entry)
             then snd (on_storage (delete_pending_pcs_by_id (pp_id entry)) a) else a)
          else
            (case try_build_and_deliver ev w others (pp_pubkey entry) (pp_sub_task_id entry) job a of
               (Inr _, a) \<Rightarrow> a
             | (Inl _, a) \<Rightarrow> snd (on_storage (increment_pending_pcs_attempts (pp_id entry)) a)))"

fun retry_pcs_entries ::
    "app_env \<Rightarrow> (nat \<Rightarrow> pcs_world) \<Rightarrow> (nat \<Rightarrow> nat \<Rightarrow> 'k app \<Rightarrow> 'k app) \<Rightarrow> i64 \<Rightarrow> i64 \<Rightarrow> nat \<Rightarrow> pending_pcs list \<Rightarrow> 'k app \<Rightarrow> 'k app" where
  "retry_pcs_entries ev w others ttl now k [] a = a"
| "retry_pcs_entries ev w others ttl now k (e # es) a =
     retry_pcs_entries ev w others ttl now (Suc k) es (retry_pcs_entry ev (w k) (others k) ttl now e a)"

definition pcs_retry_round ::
    "app_env \<Rightarrow> (nat \<Rightarrow> pcs_world) \<Rightarrow> (nat \<Rightarrow> nat \<Rightarrow> 'k app \<Rightarrow> 'k app) \<Rightarrow> i64 \<Rightarrow> nat option \<Rightarrow> 'k app \<Rightarrow> 'k app" where
  "pcs_retry_round ev w others ttl now a =
     (case on_storage list_pending_pcs a of
        (Inl _, a) \<Rightarrow> a
      | (Inr pending, a) \<Rightarrow> if pending = [] then a else retry_pcs_entries ev w others ttl (unix_secs now) 0 pending a)"

section \<open>Lemmas\<close>

definition pcs_row :: "'k app \<Rightarrow> string \<times> string \<Rightarrow> bytes option" where
  "pcs_row a = pcs_map (app_storage a)"

text \<open>The orchestrator has got, in full, a bundle or a refusal for the sub-task.\<close>

definition answered :: "app_env \<Rightarrow> string \<Rightarrow> 'k app \<Rightarrow> bool" where
  "answered ev sub_task_id a \<longleftrightarrow> (\<exists>peer wire. orchestrator_peer_id (app_config a) = Some peer \<and>
     (peer, PROTOCOL_PCS, wire) \<in> received a \<and>
     ((\<exists>leaf. build_pcs_wire_body ev sub_task_id (peer_id (app_config a)) leaf = Inr wire) \<or>
      (\<exists>reason. build_pcs_refusal_wire_body ev sub_task_id (peer_id (app_config a)) reason = Inr wire)))"

text \<open>What the other tasks of the node leave alone.\<close>

definition spares :: "string \<times> string \<Rightarrow> (nat \<Rightarrow> 'k app \<Rightarrow> 'k app) \<Rightarrow> bool" where
  "spares k others \<longleftrightarrow> (\<forall>i x. (pcs_row x k \<noteq> None \<longrightarrow> pcs_row (others i x) k \<noteq> None) \<and>
     received x \<subseteq> received (others i x) \<and> app_config (others i x) = app_config x)"

lemma spares_id: "spares k (\<lambda>i x. x)" by (simp add: spares_def)

text \<open>A step is safe for a job when the job stays or the orchestrator is answered.\<close>

definition safe_step :: "app_env \<Rightarrow> string \<times> string \<Rightarrow> 'k app \<Rightarrow> 'k app \<Rightarrow> bool" where
  "safe_step ev k x y \<longleftrightarrow> app_config y = app_config x \<and> received x \<subseteq> received y \<and>
     (pcs_row x k \<noteq> None \<longrightarrow> pcs_row y k \<noteq> None \<or> answered ev (snd k) y)"

lemma safe_refl: "safe_step ev k x x" by (simp add: safe_step_def)

lemma safe_trans: "safe_step ev k x y \<Longrightarrow> safe_step ev k y z \<Longrightarrow> safe_step ev k x z"
  by (auto simp: safe_step_def answered_def)

lemma safe_others: "spares k others \<Longrightarrow> safe_step ev k x (others i x)"
  by (auto simp: spares_def safe_step_def)

lemma received_storage [simp]: "received (a\<lparr>app_storage := s\<rparr>) = received a"
  and received_core [simp]: "received (a\<lparr>app_core := c\<rparr>) = received a"
  and received_open [simp]: "received (a\<lparr>app_open_calls := h\<rparr>) = received a"
  and received_flight [simp]: "received (a\<lparr>app_in_flight := f\<rparr>) = received a"
  by (simp_all add: received_def)

lemma pcs_row_simps [simp]:
  "pcs_row (a\<lparr>app_core := c\<rparr>) = pcs_row a" "pcs_row (a\<lparr>app_network := n\<rparr>) = pcs_row a"
  "pcs_row (a\<lparr>app_open_calls := h\<rparr>) = pcs_row a" "pcs_row (a\<lparr>app_in_flight := f\<rparr>) = pcs_row a"
  "pcs_row (a\<lparr>app_storage := s\<rparr>) = pcs_map s"
  by (simp_all add: pcs_row_def)

lemma safe_core: "safe_step ev k a (snd (on_core f a))"
  by (auto simp: safe_step_def on_core_def split: prod.split)

lemma safe_clear: "safe_step ev k a (clear_cached_open_call i a)"
  by (simp add: safe_step_def clear_cached_open_call_def)

lemma safe_claim: "safe_step ev k a (snd (claim_inflight i a))"
  by (simp add: safe_step_def claim_inflight_def)

lemma safe_release: "safe_step ev k a (release_inflight i a)"
  by (simp add: safe_step_def release_inflight_def)

lemma safe_upsert: "safe_step ev k a (snd (on_storage (upsert_pending_pcs (ev_jobs ev) now p i job) a))"
proof -
  have "pcs_map (snd (upsert_pending_pcs (ev_jobs ev) now p i job s)) k \<noteq> None" if "pcs_map s k \<noteq> None" for s
    using that pcs_after(1) [of "ev_jobs ev" now p i job s]
    by (auto simp: upsert_pending_pcs_def split: sum.splits)
  then show ?thesis by (auto simp: safe_step_def on_storage_eq pcs_row_def)
qed

lemma safe_send: "safe_step ev k a (snd (send_pcs_wire ev b a))"
  using send_pcs_wire_frame [of ev b a] send_pcs_wire_got(2) [of a ev b] by (auto simp: safe_step_def)

lemma safe_build: "safe_step ev k a (snd (build_open_call_leaf_pcs ev w i src a))"
  by (auto simp: build_open_call_leaf_pcs_def safe_refl safe_core split: sum.split)

text \<open>Deleting the row is safe once the orchestrator is answered.\<close>

lemma safe_delete:
  assumes "answered ev i a" shows "safe_step ev (p, i) a (snd (on_storage (delete_pending_pcs q i) a))"
  using assms by (auto simp: safe_step_def on_storage_eq answered_def)

lemma answered_step: "answered ev i x \<Longrightarrow> safe_step ev k x y \<Longrightarrow> answered ev i y"
  by (auto simp: answered_def safe_step_def)

text \<open>The result of an attempt agrees with what it did to the job.\<close>

definition safe_attempt :: "app_env \<Rightarrow> string \<times> string \<Rightarrow> 'k app \<Rightarrow> (err + deliver_outcome) \<times> 'k app \<Rightarrow> bool" where
  "safe_attempt ev k x ry \<longleftrightarrow> safe_step ev k x (snd ry) \<and>
     (fst ry = Inr Delivered \<or> fst ry = Inr RefusedPermanent \<longrightarrow> answered ev (snd k) (snd ry)) \<and>
     (pcs_row x k \<noteq> None \<and> pcs_row (snd ry) k = None \<longrightarrow> fst ry = Inr Delivered \<or> fst ry = Inr RefusedPermanent)"

lemma safe_attemptI:
  assumes "safe_step ev k x y" "\<And>d. r = Inr d \<Longrightarrow> d \<noteq> Delivered \<and> d \<noteq> RefusedPermanent" "pcs_row x k \<noteq> None \<Longrightarrow> pcs_row y k \<noteq> None"
  shows "safe_attempt ev k x (r, y)"
  using assms by (auto simp: safe_attempt_def)

lemma safe_attempt_trans:
  "safe_step ev k x y \<Longrightarrow> (pcs_row x k \<noteq> None \<Longrightarrow> pcs_row y k \<noteq> None) \<Longrightarrow> safe_attempt ev k y rz \<Longrightarrow> safe_attempt ev k x rz"
  by (auto simp: safe_attempt_def intro: safe_trans)

lemma others_keep: "spares k others \<Longrightarrow> pcs_row x k \<noteq> None \<Longrightarrow> pcs_row (others i x) k \<noteq> None"
  by (simp add: spares_def)

text \<open>Both ways of closing a job: send the answer, then delete the row.\<close>

lemma send_then_delete:
  assumes sp: "spares (p, i) others"
    and wire: "(\<exists>leaf. build_pcs_wire_body ev i (peer_id (app_config a)) leaf = Inr wire) \<or>
      (\<exists>reason. build_pcs_refusal_wire_body ev i (peer_id (app_config a)) reason = Inr wire)"
    and fin: "outcome = Delivered \<or> outcome = RefusedPermanent" "\<And>x. safe_step ev (p, i) x (f x)" "\<And>x. pcs_row (f x) = pcs_row x"
  shows "safe_attempt ev (p, i) a
    (case send_pcs_wire ev wire a of
       (Inl e, a) \<Rightarrow> (Inl e, others 1 a)
     | (Inr _, a) \<Rightarrow>
         (case on_storage (delete_pending_pcs p i) (others 1 a) of
            (Inl e, a) \<Rightarrow> (Inl e, a)
          | (Inr _, a) \<Rightarrow> (Inr outcome, f a)))"
proof -
  obtain r a1 where send: "send_pcs_wire ev wire a = (r, a1)" by fastforce
  obtain n where a1: "a1 = a\<lparr>app_network := n\<rparr>" using send_pcs_wire_frame [of ev wire a] send by auto
  have s1: "safe_step ev (p, i) a (others 1 a1)"
    using safe_send [of ev "(p, i)" a wire] send safe_others [OF sp, of ev a1 1] safe_trans by fastforce
  have row: "pcs_row a (p, i) \<noteq> None \<Longrightarrow> pcs_row (others 1 a1) (p, i) \<noteq> None"
    using a1 others_keep [OF sp, of a1 1] by simp
  show ?thesis
  proof (cases r)
    case (Inl e)
    then show ?thesis using s1 row by (auto simp: send intro: safe_attemptI)
  next
    case (Inr u)
    then have "\<exists>peer. orchestrator_peer_id (app_config a) = Some peer \<and> (peer, PROTOCOL_PCS, wire) \<in> received a1"
      using send_pcs_wire_got(1) [of ev wire a] send by auto
    then have "answered ev i a1" using wire a1 by (auto simp: answered_def)
    then have ans: "answered ev i (others 1 a1)" using answered_step safe_others [OF sp] by blast
    obtain r2 s where del: "delete_pending_pcs p i (app_storage (others 1 a1)) = (r2, s)" by fastforce
    let ?a2 = "(others 1 a1)\<lparr>app_storage := s\<rparr>"
    have s2: "safe_step ev (p, i) (others 1 a1) ?a2"
      using safe_delete [OF ans, of p p] del by (simp add: on_storage_eq)
    show ?thesis
    proof (cases r2)
      case (Inl e)
      then have "pcs_row ?a2 (p, i) = pcs_row (others 1 a1) (p, i)"
        using pcs_after(2) [of p i "app_storage (others 1 a1)"] del by (simp add: pcs_row_def)
      then show ?thesis
        using Inl Inr s1 s2 row by (auto simp: send on_storage_eq del simp del: One_nat_def intro!: safe_attemptI intro: safe_trans)
    next
      case (Inr v)
      have "answered ev i (f ?a2)" using answered_step [OF answered_step [OF ans s2] fin(2)] .
      moreover have "safe_step ev (p, i) a (f ?a2)" using safe_trans [OF safe_trans [OF s1 s2] fin(2)] .
      ultimately show ?thesis
        using Inr \<open>r = Inr u\<close> fin(1) by (auto simp: send on_storage_eq del safe_attempt_def simp del: One_nat_def)
    qed
  qed
qed

lemma report_attempt:
  assumes "spares (p, i) others"
  shows "safe_attempt ev (p, i) a (report_permanent_refusal ev others p i e a)"
proof (cases "build_pcs_refusal_wire_body ev i (peer_id (app_config a)) (pcs_refuse_reason e)")
  case (Inl e')
  then show ?thesis by (auto simp: report_permanent_refusal_def intro: safe_attemptI safe_refl)
next
  case (Inr wire)
  show ?thesis
    unfolding report_permanent_refusal_def Inr sum.case
    by (rule send_then_delete [OF assms]) (use Inr in \<open>auto simp: safe_clear, simp add: clear_cached_open_call_def\<close>)
qed

lemma send_attempt:
  assumes "spares (p, i) others"
  shows "safe_attempt ev (p, i) a (send_and_clear ev others p i leaf job a)"
proof (cases "build_pcs_wire_body ev i (peer_id (app_config a)) leaf")
  case (Inl e')
  then show ?thesis by (auto simp: send_and_clear_def intro: safe_attemptI safe_refl)
next
  case (Inr wire)
  show ?thesis
    unfolding send_and_clear_def Inr sum.case
    by (rule send_then_delete [OF assms, where f = "\<lambda>a. if job_is_open_call job then clear_cached_open_call i a else a"])
      (use Inr in \<open>auto simp: safe_clear safe_refl, simp add: clear_cached_open_call_def\<close>)
qed

text \<open>The build itself keeps the row.\<close>

definition core_build ::
    "app_env \<Rightarrow> pcs_world \<Rightarrow> string \<Rightarrow> pending_pcs_job \<Rightarrow> 'k app \<Rightarrow> (err + leaf_pcs_response) \<times> 'k app" where
  "core_build ev w i job a =
     (case pj_open_call job of
        Some src \<Rightarrow> build_open_call_leaf_pcs ev w i src a
      | None \<Rightarrow> on_core (build_leaf_pcs (pw_core w) (pj_proof job)) a)"

lemma core_row: "pcs_row (snd (on_core f a)) = pcs_row a"
  by (simp add: on_core_def split: prod.split)

lemma core_build_safe:
  "safe_step ev k a (snd (core_build ev w i job a))" "pcs_row (snd (core_build ev w i job a)) = pcs_row a"
  by (simp_all add: core_build_def safe_build safe_core core_row split: option.split)
    (simp add: build_open_call_leaf_pcs_def core_row split: sum.split)

lemma build_attempt:
  assumes sp: "spares (p, i) others"
  shows "case build_or_reuse ev w others p i job a of
      (Inl r, a') \<Rightarrow> safe_attempt ev (p, i) a (r, a')
    | (Inr _, a') \<Rightarrow> safe_step ev (p, i) a a' \<and> (pcs_row a (p, i) \<noteq> None \<longrightarrow> pcs_row a' (p, i) \<noteq> None)"
proof (cases "pj_leaf_pcs_b64 job = None \<and> \<not> is_in_backoff (pw_now w) (app_core a)")
  case False
  then show ?thesis by (auto simp: build_or_reuse_def safe_refl intro: safe_attemptI split: option.split)
next
  case True
  obtain r a1 where build: "core_build ev w i job a = (r, a1)" by fastforce
  let ?b = "others 0 a1"
  have s: "safe_step ev (p, i) a ?b"
    using core_build_safe(1) [of ev "(p, i)" a w i job] safe_others [OF sp] safe_trans build by fastforce
  have row: "pcs_row a (p, i) \<noteq> None \<Longrightarrow> pcs_row ?b (p, i) \<noteq> None"
    using core_build_safe(2) [of ev w i job a] others_keep [OF sp, of a1 0] build by simp
  show ?thesis
  proof (cases r)
    case (Inl e)
    obtain r2 a2 where rep: "report_permanent_refusal ev others p i e ?b = (r2, a2)" by fastforce
    have "safe_attempt ev (p, i) a (r2, a2)"
      using safe_attempt_trans [OF s row report_attempt [OF sp, of ev ?b e]] rep by simp
    moreover have "safe_attempt ev (p, i) a (Inr SkippedCoreDown, ?b)" "safe_attempt ev (p, i) a (Inl e, ?b)"
      using s row by (auto intro: safe_attemptI)
    ultimately show ?thesis
      using True Inl rep by (simp add: build_or_reuse_def build flip: core_build_def)
  next
    case (Inr pcs)
    let ?job = "job\<lparr>pj_leaf_pcs_b64 := Some (lp_leaf_pcs_b64 pcs), pj_leaf_pcs_bytes := Some (lp_bytes pcs)\<rparr>"
    let ?up = "on_storage (upsert_pending_pcs (ev_jobs ev) (pw_unix w) p i ?job) ?b"
    have kept: "pcs_row a (p, i) \<noteq> None \<Longrightarrow> pcs_row (snd ?up) (p, i) \<noteq> None"
      using row by (auto simp: on_storage_eq pcs_row_def upsert_pending_pcs_def execute_def Let_def pcs_map_def outbox.get_put
          split: sum.split option.split)
    have "safe_step ev (p, i) a (snd ?up)" using safe_trans [OF s safe_upsert] .
    then show ?thesis
      using True Inr kept
      by (cases "fst ?up") (auto simp: build_or_reuse_def build on_storage_eq Let_def intro: safe_attemptI simp flip: core_build_def)
  qed
qed

lemma claim_row [simp]: "pcs_row (snd (claim_inflight i a)) = pcs_row a" "pcs_row (release_inflight i a) = pcs_row a"
  by (simp_all add: claim_inflight_def release_inflight_def)

lemma safe_attempt_release: "safe_attempt ev k x (r, y) \<Longrightarrow> safe_attempt ev k x (r, release_inflight i y)"
  using safe_trans [of ev k x y, OF _ safe_release [of ev k y i]] answered_step [OF _ safe_release [of ev k y i]]
  by (auto simp: safe_attempt_def)

lemma try_attempt:
  assumes sp: "spares (p, i) others"
  shows "safe_attempt ev (p, i) a (try_build_and_deliver ev w others p i job a)"
proof -
  obtain claimed a1 where c: "claim_inflight i a = (claimed, a1)" by fastforce
  have s: "safe_step ev (p, i) a a1" "pcs_row a1 = pcs_row a"
    using safe_claim [of ev "(p, i)" a i] claim_row(1) [of i a] c by simp_all
  obtain r a2 where b: "build_or_reuse ev w others p i job a1 = (r, a2)" by fastforce
  note build = build_attempt [OF sp, where ev = ev and w = w and job = job and a = a1, unfolded b prod.case]
  show ?thesis
  proof (cases claimed)
    case False
    then show ?thesis using s by (auto simp: try_build_and_deliver_def c intro: safe_attemptI)
  next
    case True
    show ?thesis
    proof (cases r)
      case (Inl res)
      then have "safe_attempt ev (p, i) a (res, a2)" using build s safe_attempt_trans by fastforce
      then show ?thesis using True Inl by (simp add: try_build_and_deliver_def c b safe_attempt_release)
    next
      case (Inr lj)
      obtain leaf job' where lj: "lj = (leaf, job')" by fastforce
      obtain res a3 where snd3: "send_and_clear ev others p i leaf job' a2 = (res, a3)" by fastforce
      have "safe_attempt ev (p, i) a1 (res, a3)"
        using safe_attempt_trans [OF _ _ send_attempt [OF sp, of ev a2 leaf job']] build Inr snd3 by simp
      then have "safe_attempt ev (p, i) a (res, a3)" using s safe_attempt_trans by fastforce
      then show ?thesis using True Inr lj snd3 by (simp add: try_build_and_deliver_def c b safe_attempt_release)
    qed
  qed
qed

section \<open>Exclusion\<close>

lemma in_flight_kept [simp]:
  "app_in_flight (snd (send_pcs_wire ev b a)) = app_in_flight a" "app_in_flight (snd (core_build ev w i job a)) = app_in_flight a"
  "app_in_flight (snd (on_storage f a)) = app_in_flight a" "app_in_flight (clear_cached_open_call i a) = app_in_flight a"
proof -
  show "app_in_flight (snd (send_pcs_wire ev b a)) = app_in_flight a" using send_pcs_wire_frame [of ev b a] by auto
qed (auto simp: core_build_def build_open_call_leaf_pcs_def on_core_def on_storage_def clear_cached_open_call_def
    split: option.split sum.split prod.split)

text \<open>What the other tasks do matters only in states in which the sub-task is claimed.\<close>

lemma send_and_clear_claimed:
  assumes "i \<in> set (app_in_flight a)" "\<And>n x. i \<in> set (app_in_flight x) \<Longrightarrow> others n x = x"
  shows "send_and_clear ev others p i leaf job a = send_and_clear ev (\<lambda>_ x. x) p i leaf job a"
    and "app_in_flight (snd (send_and_clear ev (\<lambda>_ x. x) p i leaf job a)) = app_in_flight a"
proof -
  show "send_and_clear ev others p i leaf job a = send_and_clear ev (\<lambda>_ x. x) p i leaf job a"
  proof (cases "build_pcs_wire_body ev i (peer_id (app_config a)) leaf")
    case (Inr wire)
    have "others 1 (snd (send_pcs_wire ev wire a)) = snd (send_pcs_wire ev wire a)" using assms by simp
    then show ?thesis by (cases "send_pcs_wire ev wire a") (simp add: send_and_clear_def Inr split: sum.split)
  qed (simp add: send_and_clear_def)
  show "app_in_flight (snd (send_and_clear ev (\<lambda>_ x. x) p i leaf job a)) = app_in_flight a"
  proof (cases "build_pcs_wire_body ev i (peer_id (app_config a)) leaf")
    case (Inr wire)
    show ?thesis
      using in_flight_kept(1) [of ev wire a]
      by (cases "send_pcs_wire ev wire a") (auto simp: send_and_clear_def Inr on_storage_eq split: sum.split)
  qed (simp add: send_and_clear_def)
qed

lemma report_claimed:
  assumes "i \<in> set (app_in_flight a)" "\<And>n x. i \<in> set (app_in_flight x) \<Longrightarrow> others n x = x"
  shows "report_permanent_refusal ev others p i e a = report_permanent_refusal ev (\<lambda>_ x. x) p i e a"
    and "app_in_flight (snd (report_permanent_refusal ev (\<lambda>_ x. x) p i e a)) = app_in_flight a"
proof -
  have *: "others 1 (snd (send_pcs_wire ev wire a)) = snd (send_pcs_wire ev wire a)" for wire using assms by simp
  show "report_permanent_refusal ev others p i e a = report_permanent_refusal ev (\<lambda>_ x. x) p i e a"
  proof (cases "build_pcs_refusal_wire_body ev i (peer_id (app_config a)) (pcs_refuse_reason e)")
    case (Inr wire)
    then show ?thesis using * [of wire]
      by (cases "send_pcs_wire ev wire a") (simp add: report_permanent_refusal_def split: sum.split)
  qed (simp add: report_permanent_refusal_def)
  show "app_in_flight (snd (report_permanent_refusal ev (\<lambda>_ x. x) p i e a)) = app_in_flight a"
  proof (cases "build_pcs_refusal_wire_body ev i (peer_id (app_config a)) (pcs_refuse_reason e)")
    case (Inr wire)
    then show ?thesis
      using in_flight_kept(1) [of ev wire a]
      by (cases "send_pcs_wire ev wire a") (auto simp: report_permanent_refusal_def on_storage_eq split: sum.split)
  qed (simp add: report_permanent_refusal_def)
qed

lemma build_claimed:
  assumes "i \<in> set (app_in_flight a)" "\<And>n x. i \<in> set (app_in_flight x) \<Longrightarrow> others n x = x"
  shows "build_or_reuse ev w others p i job a = build_or_reuse ev w (\<lambda>_ x. x) p i job a"
    and "app_in_flight (snd (build_or_reuse ev w (\<lambda>_ x. x) p i job a)) = app_in_flight a"
proof -
  obtain r a1 where b: "core_build ev w i job a = (r, a1)" by fastforce
  have fl: "app_in_flight a1 = app_in_flight a" using in_flight_kept(2) [of ev w i job a] b by simp
  then have o: "others 0 a1 = a1" using assms by simp
  have rep: "report_permanent_refusal ev others p i e a1 = report_permanent_refusal ev (\<lambda>_ x. x) p i e a1"
    "app_in_flight (snd (report_permanent_refusal ev (\<lambda>_ x. x) p i e a1)) = app_in_flight a" for e
    using report_claimed [of i a1 others ev p e] fl assms by simp_all
  show "build_or_reuse ev w others p i job a = build_or_reuse ev w (\<lambda>_ x. x) p i job a"
    by (auto simp: build_or_reuse_def b o rep Let_def simp flip: core_build_def split: option.split sum.split)
  show "app_in_flight (snd (build_or_reuse ev w (\<lambda>_ x. x) p i job a)) = app_in_flight a"
    using fl rep(2)
    by (auto simp: build_or_reuse_def b on_storage_eq Let_def simp flip: core_build_def split: option.split sum.split prod.split)
      (metis snd_conv)+
qed

lemma try_alone_in_flight:
  "set (app_in_flight (snd (try_build_and_deliver ev w (\<lambda>_ x. x) p i job a))) = set (app_in_flight a)"
proof (cases "i \<in> set (app_in_flight a)")
  case True
  then show ?thesis by (simp add: try_build_and_deliver_def claim_inflight_def)
next
  case False
  let ?a = "a\<lparr>app_in_flight := i # app_in_flight a\<rparr>"
  have i: "i \<in> set (app_in_flight ?a)" by simp
  obtain r a2 where b: "build_or_reuse ev w (\<lambda>_ x. x) p i job ?a = (r, a2)" by fastforce
  then have fl: "app_in_flight a2 = i # app_in_flight a"
    using build_claimed(2) [OF i, of "\<lambda>_ x. x" ev w p job] by simp
  have sent: "app_in_flight (snd (send_and_clear ev (\<lambda>_ x. x) p i leaf job' a2)) = i # app_in_flight a" for leaf job'
    using send_and_clear_claimed(2) [of i a2 "\<lambda>_ x. x"] fl by simp
  show ?thesis
  proof (cases r)
    case (Inl res)
    then show ?thesis using False fl by (simp add: try_build_and_deliver_def claim_inflight_def b release_inflight_def)
  next
    case (Inr lj)
    obtain leaf job' where lj: "lj = (leaf, job')" by fastforce
    obtain res a3 where s: "send_and_clear ev (\<lambda>_ x. x) p i leaf job' a2 = (res, a3)" by fastforce
    then have "app_in_flight a3 = i # app_in_flight a" using sent [of leaf job'] by simp
    then show ?thesis using False Inr by (simp add: try_build_and_deliver_def claim_inflight_def b lj s release_inflight_def)
  qed
qed

section \<open>Properties\<close>

text \<open>
  Property C9. A retained PCS job is never lost: whatever fails and whatever other tasks do to other
  jobs meanwhile, after an attempt to build and deliver the bundle the job's row is still there, or the
  orchestrator has received the bundle or a refusal for the sub-task in full and the attempt says so. An
  attempt reports delivery or refusal only if that is the case.
\<close>

theorem pcs_job_not_lost:
  assumes "spares (pubkey, sub_task_id) others" and "pcs_row a (pubkey, sub_task_id) \<noteq> None"
  shows "let (r, a') = try_build_and_deliver ev w others pubkey sub_task_id job a in
    (pcs_row a' (pubkey, sub_task_id) \<noteq> None \<or>
       answered ev sub_task_id a' \<and> (r = Inr Delivered \<or> r = Inr RefusedPermanent)) \<and>
    (r = Inr Delivered \<or> r = Inr RefusedPermanent \<longrightarrow> answered ev sub_task_id a')"
  using try_attempt [OF assms(1), of ev a w job] assms(2)
  by (auto simp: safe_attempt_def safe_step_def split: prod.split)

text \<open>
  Property C17. One build per sub-task at a time: an attempt that another task makes for the same
  sub-task at any point where the running one waits, even for another orchestrator or with other data,
  is skipped and changes nothing, so the running attempt ends exactly as if it were alone; and the set of
  running builds is the same before and after an attempt, whichever way it ends.
\<close>

theorem pcs_build_exclusive:
  "try_build_and_deliver ev w (\<lambda>n x. snd (try_build_and_deliver ev (w' n) (others' n) (p' n) sub_task_id (job' n) x)) p sub_task_id job a
     = try_build_and_deliver ev w (\<lambda>n x. x) p sub_task_id job a \<and>
   set (app_in_flight (snd (try_build_and_deliver ev w (\<lambda>n x. x) p sub_task_id job a))) = set (app_in_flight a)"
proof -
  let ?o = "\<lambda>n x. snd (try_build_and_deliver ev (w' n) (others' n) (p' n) sub_task_id (job' n) x)"
  have skip: "?o n x = x" if "sub_task_id \<in> set (app_in_flight x)" for n x
    using that by (simp add: try_build_and_deliver_def claim_inflight_def)
  let ?a = "a\<lparr>app_in_flight := sub_task_id # app_in_flight a\<rparr>"
  have claimed: "sub_task_id \<in> set (app_in_flight ?a)" by simp
  obtain r a2 where b: "build_or_reuse ev w (\<lambda>_ x. x) p sub_task_id job ?a = (r, a2)" by fastforce
  then have "sub_task_id \<in> set (app_in_flight a2)"
    using build_claimed(2) [OF claimed, of "\<lambda>_ x. x" ev w p job] by simp
  then have "try_build_and_deliver ev w ?o p sub_task_id job a = try_build_and_deliver ev w (\<lambda>n x. x) p sub_task_id job a"
    using send_and_clear_claimed(1) [of sub_task_id a2 ?o] skip
    by (simp add: try_build_and_deliver_def [of ev w] claim_inflight_def build_claimed(1) [OF claimed skip] b split: sum.split prod.split)
  then show ?thesis by (simp add: try_alone_in_flight)
qed

text \<open>A requested job whose bundle is cached: the orchestrator gets it and the row goes.\<close>

definition demo_pcs_env :: app_env where
  "demo_pcs_env = demo_env (demo_task ''s1'') (demo_job True (Some ''leaf''))"

definition demo_pcs_world :: pcs_world where
  "demo_pcs_world = \<lparr>pw_now = 0, pw_unix = Some 5,
     pw_core = (\<lambda>_. \<lparr>cl_at_gate = 0, cl_after_probe = 0, cl_sent = 0, cl_answered = 0,
       cl_health = Response 200 ''OK'' (Inr ()) None, cl_post = (\<lambda>_. Response 500 ''error'' (Inl ''error'') None)\<rparr>),
     pw_cas = (\<lambda>_. Response 404 ''Not Found'' (Inl ''none'') None)\<rparr>"

definition demo_pcs_app :: "nat app" where
  "demo_pcs_app = demo_app\<lparr>app_storage := snd (upsert_pending_pcs (ev_jobs demo_pcs_env) (Some 5)
     ''o'' ''s1'' (demo_job True (Some ''leaf'')) (new_storage (\<lambda>n. None)))\<rparr>"


lemma demo_pcs_row: "pcs_row demo_pcs_app (''o'', ''s1'') \<noteq> None"
  by (simp add: demo_pcs_app_def demo_pcs_env_def pcs_row_def pcs_map_def outbox.get_put demo_env_def new_storage_def
      upsert_pending_pcs_def execute_def)

lemma demo_pcs_sent:
  "fst (try_build_and_deliver demo_pcs_env demo_pcs_world (\<lambda>i x. x) ''o'' ''s1'' (demo_job True (Some ''leaf'')) demo_pcs_app)
     = Inr Delivered"
  by (simp add: try_build_and_deliver_def claim_inflight_def demo_pcs_app_def demo_app_def build_or_reuse_def demo_job_def
      send_and_clear_def build_pcs_wire_body_def demo_pcs_env_def demo_env_def send_pcs_wire_def orchestrator_stream_def
      on_network_def write_outbound_stream_expect_ack_def next_answer_def check_ack_def
      on_storage_def upsert_pending_pcs_def delete_pending_pcs_def execute_def new_storage_def Let_def split: prod.split)

theorem pcs_job_not_lost_witness:
  "answered demo_pcs_env ''s1'' (snd (try_build_and_deliver demo_pcs_env demo_pcs_world (\<lambda>i x. x) ''o'' ''s1''
     (demo_job True (Some ''leaf'')) demo_pcs_app))"
  using pcs_job_not_lost [OF spares_id demo_pcs_row, of demo_pcs_env demo_pcs_world "demo_job True (Some ''leaf'')"] demo_pcs_sent
  by (auto split: prod.splits)

end
