(* ===== verification/Result_Outbox.thy ===== *)
theory Result_Outbox
  imports Pcs_Outbox
begin

text \<open>
  The outbox of results, \<open>src/src/application/result_outbox.rs\<close>: a result is written to the store before
  the first attempt to deliver it, its row is deleted once the stream to the orchestrator has taken it,
  and a loop retries what is left. As in the PCS outbox, \<open>others\<close> is what other tasks of the node do
  while a stream is being written.
\<close>

definition DEFAULT_RESULT_RETRY_INTERVAL_SECS :: nat where "DEFAULT_RESULT_RETRY_INTERVAL_SECS = 5"

definition try_deliver_pending ::
    "app_env \<Rightarrow> ('k app \<Rightarrow> 'k app) \<Rightarrow> nat option \<Rightarrow> string \<Rightarrow> string \<Rightarrow> bytes \<Rightarrow> task_result_payload \<Rightarrow> compute_task \<Rightarrow> 'k app
      \<Rightarrow> (err + unit) \<times> 'k app" where
  "try_deliver_pending ev others now pubkey sub_task_id wire_body payload task a =
     (case send_result_wire wire_body a of
        (Inr _, a) \<Rightarrow>
          (case on_storage (delete_pending_result pubkey sub_task_id) (others a) of
             (Inl e, a) \<Rightarrow> (Inl e, a)
           | (Inr _, a) \<Rightarrow>
               (let a = count_metric (record_result_delivery ''initial'' ''ok'') a in
                (Inr (),
                 if tp_status payload = ''success'' then
                   (case tp_proof payload of Some proof \<Rightarrow> retain_after_result ev now task proof a | None \<Rightarrow> a)
                 else a)))
      | (Inl e, a) \<Rightarrow> (Inl e, count_metric (record_result_delivery ''initial'' ''error'') (others a)))"

definition payload_task_status :: "task_result_payload \<Rightarrow> string" where
  "payload_task_status payload = (if tp_status payload = ''error'' then ''failed'' else ''completed'')"

definition deliver_result ::
    "app_env \<Rightarrow> ('k app \<Rightarrow> 'k app) \<Rightarrow> nat option \<Rightarrow> nat option \<Rightarrow> compute_task \<Rightarrow> task_result_payload \<Rightarrow> 'k app
      \<Rightarrow> (err + unit) \<times> 'k app" where
  "deliver_result ev others now later task payload a =
     (let sub_task_id = cr_task_id (ctk_request task); pubkey = ctk_orchestrator_pubkey task in
      case build_result_wire_body (ev_writers ev) task payload (peer_id (app_config a)) of
        Inl e \<Rightarrow> (Inl e, a)
      | Inr wire_body \<Rightarrow>
          (case on_storage (upsert_pending_result now pubkey sub_task_id wire_body) a of
             (Inl e, a) \<Rightarrow> (Inl e, a)
           | (Inr _, a) \<Rightarrow>
               try_deliver_pending ev others later pubkey sub_task_id wire_body payload task
                 (snd (on_storage (update_status pubkey sub_task_id (payload_task_status payload)) a))))"

definition extract_proof_from_result_wire :: "app_env \<Rightarrow> bytes \<Rightarrow> err + proof_wire option" where
  "extract_proof_from_result_wire ev wire_body =
     and_then (ev_parse_json ev wire_body) (\<lambda>value.
       if Option.bind (json_get value ''error'') as_str \<noteq> None then Inr None
       else case json_get value ''proof'' of
              Some p \<Rightarrow> if p \<noteq> JNull then and_then (ev_proof_of_json ev p) (\<lambda>pf. Inr (Some pf)) else Inr None
            | None \<Rightarrow> Inr None)"

text \<open>The retry of one listed entry, of the entries of a round, and a round.\<close>

definition retry_result_entry :: "app_env \<Rightarrow> ('k app \<Rightarrow> 'k app) \<Rightarrow> nat option \<Rightarrow> pending_result \<Rightarrow> 'k app \<Rightarrow> 'k app" where
  "retry_result_entry ev others now entry a =
     (case send_result_wire (pres_wire_body entry) a of
        (Inr _, a) \<Rightarrow>
          (let a = count_metric (record_result_delivery ''retry'' ''ok'') (others a);
               a = snd (on_storage (delete_pending_result (pres_pubkey entry) (pres_sub_task_id entry)) a)
           in case on_storage (load_task (ev_tasks ev) (pres_pubkey entry) (pres_sub_task_id entry)) a of
                (Inr (Some task), a) \<Rightarrow>
                  (case extract_proof_from_result_wire ev (pres_wire_body entry) of
                     Inr (Some proof) \<Rightarrow> retain_after_result ev now task proof a
                   | _ \<Rightarrow> a)
              | (_, a) \<Rightarrow> a)
      | (Inl e, a) \<Rightarrow>
          snd (on_storage (increment_pending_result_attempts (pres_id entry))
            (count_metric (record_result_delivery ''retry'' ''error'') (others a))))"

fun retry_result_entries ::
    "app_env \<Rightarrow> (nat \<Rightarrow> 'k app \<Rightarrow> 'k app) \<Rightarrow> (nat \<Rightarrow> nat option) \<Rightarrow> nat \<Rightarrow> pending_result list \<Rightarrow> 'k app \<Rightarrow> 'k app" where
  "retry_result_entries ev others now k [] a = a"
| "retry_result_entries ev others now k (e # es) a =
     retry_result_entries ev others now (Suc k) es (retry_result_entry ev (others k) (now k) e a)"

definition result_retry_round ::
    "app_env \<Rightarrow> (nat \<Rightarrow> 'k app \<Rightarrow> 'k app) \<Rightarrow> (nat \<Rightarrow> nat option) \<Rightarrow> 'k app \<Rightarrow> 'k app" where
  "result_retry_round ev others now a =
     (case on_storage list_pending_results a of
        (Inl _, a) \<Rightarrow> a
      | (Inr pending, a) \<Rightarrow> if pending = [] then a else retry_result_entries ev others now 0 pending a)"

section \<open>Results are not lost\<close>

definition result_row :: "'k app \<Rightarrow> string \<times> string \<Rightarrow> bytes option" where
  "result_row a = results_map (app_storage a)"

text \<open>The orchestrator has got this very result body in full.\<close>

definition delivered :: "bytes \<Rightarrow> 'k app \<Rightarrow> bool" where
  "delivered b a \<longleftrightarrow> (\<exists>peer. orchestrator_peer_id (app_config a) = Some peer \<and> (peer, PROTOCOL_RESULT, b) \<in> received a)"

text \<open>A body owed under a key is safe while it is stored or once it is delivered.\<close>

definition result_safe :: "string \<times> string \<Rightarrow> bytes \<Rightarrow> 'k app \<Rightarrow> bool" where
  "result_safe k b a \<longleftrightarrow> result_row a k = Some b \<or> delivered b a"

definition keeps_results :: "string \<times> string \<Rightarrow> bytes \<Rightarrow> ('k app \<Rightarrow> 'k app) \<Rightarrow> bool" where
  "keeps_results k b f \<longleftrightarrow> (\<forall>x. (result_row x k = Some b \<longrightarrow> result_safe k b (f x)) \<and>
     received x \<subseteq> received (f x) \<and> app_config (f x) = app_config x)"

lemma keeps_results_id: "keeps_results k b (\<lambda>x. x)"
  by (simp add: keeps_results_def result_safe_def)

lemma keeps_results_safe: "keeps_results k b f \<Longrightarrow> result_safe k b x \<Longrightarrow> result_safe k b (f x)"
  by (auto simp: keeps_results_def result_safe_def delivered_def)

lemma keeps_results_delivered: "keeps_results k b f \<Longrightarrow> delivered c x \<Longrightarrow> delivered c (f x)"
  by (auto simp: keeps_results_def delivered_def)

lemma keeps_results_comp: "keeps_results k b f \<Longrightarrow> keeps_results k b g \<Longrightarrow> keeps_results k b (\<lambda>x. f (g x))"
proof -
  assume f: "keeps_results k b f" and g: "keeps_results k b g"
  then have "result_safe k b (f (g x))" if "result_row x k = Some b" for x
    using that keeps_results_safe [OF f] by (simp add: keeps_results_def)
  then show "keeps_results k b (\<lambda>x. f (g x))"
    using f g unfolding keeps_results_def by (metis subset_trans)
qed

text \<open>Steps that touch neither the outbox of results nor the network.\<close>

lemma keeps_frame:
  assumes "\<And>x. results_map (app_storage (f x)) = results_map (app_storage x)" "\<And>x. app_config (f x) = app_config x"
    and "\<And>x. received x \<subseteq> received (f x)"
  shows "keeps_results k b f"
  using assms by (auto simp: keeps_results_def result_safe_def result_row_def)

lemma keeps_frame_at:
  assumes "\<And>x. results_map (app_storage (f x)) k = results_map (app_storage x) k" "\<And>x. app_config (f x) = app_config x"
    and "\<And>x. received x \<subseteq> received (f x)"
  shows "keeps_results k b f"
  using assms by (auto simp: keeps_results_def result_safe_def result_row_def)

lemma keeps_bind:
  assumes "keeps_results k b (\<lambda>x. snd (f x))" "\<And>r. keeps_results k b (g r)"
  shows "keeps_results k b (\<lambda>x. g (fst (f x)) (snd (f x)))"
proof -
  have "result_safe k b (g (fst (f x)) (snd (f x)))" if "result_row x k = Some b" for x
    using that assms(1) keeps_results_safe [OF assms(2)] by (simp add: keeps_results_def)
  then show ?thesis
    using assms unfolding keeps_results_def by (metis subset_trans)
qed

lemma keeps_pointwise: "(\<And>x. \<exists>g. keeps_results k b g \<and> f x = g x) \<Longrightarrow> keeps_results k b f"
  unfolding keeps_results_def by metis

lemma keeps_count: "keeps_results k b (count_metric g)"
  by (rule keeps_frame) (simp_all add: count_metric_def received_def)

lemma keeps_storage:
  "(\<And>s. results_map (snd (op s)) = results_map s) \<Longrightarrow> keeps_results k b (\<lambda>x. snd (on_storage op x))"
  by (rule keeps_frame) (simp_all add: on_storage_eq received_def)

lemma keeps_spawn: "keeps_results k b (spawn_build_and_deliver p i job)"
  by (rule keeps_frame) (simp_all add: spawn_build_and_deliver_def received_def)

lemma keeps_send: "keeps_results k b (\<lambda>x. snd (send_result_wire w x))"
proof (rule keeps_frame)
  fix x :: "'k app"
  obtain n where "snd (send_result_wire w x) = x\<lparr>app_network := n\<rparr>" using send_result_wire_frame by blast
  then show "results_map (app_storage (snd (send_result_wire w x))) = results_map (app_storage x)"
    "app_config (snd (send_result_wire w x)) = app_config x" by simp_all
qed (rule send_result_wire_got(2))


lemma keeps_retain: "keeps_results k b (retain_after_result ev now task proof)"
proof (rule keeps_frame)
  fix x :: "'k app"
  note step = retain_after_result_def Let_def on_storage_eq spawn_build_and_deliver_def
  show "results_map (app_storage (retain_after_result ev now task proof x)) = results_map (app_storage x)"
    by (simp add: step table_simps split: sum.split)
  show "app_config (retain_after_result ev now task proof x) = app_config x"
    "received x \<subseteq> received (retain_after_result ev now task proof x)"
    by (auto simp: step received_def split: sum.split)
qed

text \<open>Delivering the result of one sub-task keeps those of the others.\<close>

lemma try_deliver_other:
  assumes "keeps_results k b others" "(p, i) \<noteq> k"
  shows "keeps_results k b (\<lambda>x. snd (try_deliver_pending ev others now p i wire payload task x))"
proof -
  have del: "keeps_results k b (\<lambda>x. snd (on_storage (delete_pending_result p i) x))"
    using assms(2) by (intro keeps_frame_at) (auto simp: on_storage_eq received_def table_simps)
  let ?h = "\<lambda>r x. case r of Inl e \<Rightarrow> x
    | Inr u \<Rightarrow> let a = count_metric (record_result_delivery ''initial'' ''ok'') x in
        if tp_status payload = ''success'' then
          (case tp_proof payload of Some pf \<Rightarrow> retain_after_result ev now task pf a | None \<Rightarrow> a) else a"
  have h: "keeps_results k b (?h r)" for r
    using keeps_results_comp [OF keeps_retain keeps_count]
    by (cases r; cases "tp_proof payload"; cases "tp_status payload = ''success''") (simp_all add: Let_def keeps_results_id keeps_count)
  let ?g = "\<lambda>r x. case r of
      Inr u \<Rightarrow> (\<lambda>y. ?h (fst (on_storage (delete_pending_result p i) y)) (snd (on_storage (delete_pending_result p i) y))) (others x)
    | Inl e \<Rightarrow> count_metric (record_result_delivery ''initial'' ''error'') (others x)"
  have g: "keeps_results k b (?g r)" for r
    using keeps_results_comp [OF keeps_bind [OF del h] assms(1)] keeps_results_comp [OF keeps_count assms(1)]
    by (cases r) simp_all
  have "snd (try_deliver_pending ev others now p i wire payload task x) = ?g (fst (send_result_wire wire x)) (snd (send_result_wire wire x))" for x
    by (cases "tp_proof payload") (auto simp: try_deliver_pending_def Let_def split: sum.split prod.split)
  then show ?thesis using keeps_bind [OF keeps_send g] by simp
qed

lemma deliver_result_other:
  assumes "keeps_results k b others" "(ctk_orchestrator_pubkey task, cr_task_id (ctk_request task)) \<noteq> k"
  shows "keeps_results k b (\<lambda>x. snd (deliver_result ev others now later task payload x))"
proof (rule keeps_pointwise)
  fix x
  let ?p = "ctk_orchestrator_pubkey task" and ?i = "cr_task_id (ctk_request task)"
  have st: "keeps_results k b (\<lambda>x. snd (on_storage (update_status ?p ?i (payload_task_status payload)) x))"
    by (rule keeps_storage) (simp add: table_simps)
  show "\<exists>g. keeps_results k b g \<and> snd (deliver_result ev others now later task payload x) = g x"
  proof (cases "build_result_wire_body (ev_writers ev) task payload (peer_id (app_config x))")
    case (Inl e)
    then show ?thesis by (intro exI [of _ "\<lambda>x. x"]) (simp add: deliver_result_def keeps_results_id)
  next
    case (Inr wire)
    let ?up = "on_storage (upsert_pending_result now ?p ?i wire)"
    let ?g = "\<lambda>r y. case r of Inl e \<Rightarrow> y
      | Inr u \<Rightarrow> snd (try_deliver_pending ev others later ?p ?i wire payload task
          (snd (on_storage (update_status ?p ?i (payload_task_status payload)) y)))"
    have up: "keeps_results k b (\<lambda>x. snd (?up x))"
      using assms(2) by (intro keeps_frame_at) (auto simp: on_storage_eq received_def table_simps)
    have g: "keeps_results k b (?g r)" for r
      using keeps_results_comp [OF try_deliver_other [OF assms] st] by (cases r) (simp_all add: keeps_results_id)
    have "snd (deliver_result ev others now later task payload x) = ?g (fst (?up x)) (snd (?up x))"
      by (simp add: deliver_result_def Inr Let_def split: sum.split prod.split)
    moreover have "keeps_results k b (\<lambda>x. ?g (fst (?up x)) (snd (?up x)))" by (rule keeps_bind [OF up g])
    ultimately show ?thesis by (intro exI [of _ "\<lambda>x. ?g (fst (?up x)) (snd (?up x))"]) simp
  qed
qed

text \<open>Deleting a row is safe for another key, and for the same key once its body is delivered.\<close>

lemma delete_result_safe:
  assumes "result_safe k b a" "(p, i) = k \<Longrightarrow> delivered b a"
  shows "result_safe k b (snd (on_storage (delete_pending_result p i) a))"
proof -
  have "delivered b a \<Longrightarrow> delivered b (snd (on_storage (delete_pending_result p i) a))"
    by (simp add: delivered_def on_storage_eq received_def)
  then show ?thesis
    using assms by (auto simp: result_safe_def result_row_def on_storage_eq table_simps)
qed

lemma send_result_delivered:
  assumes "send_result_wire w a = (Inr u, a')" shows "delivered w a'"
  using send_result_wire_got(1) [of w a] send_result_wire_frame [of w a] assms by (auto simp: delivered_def)

lemma retry_entry_safe:
  assumes "keeps_results k b others" "result_safe k b a" "(pres_pubkey e, pres_sub_task_id e) = k \<Longrightarrow> pres_wire_body e = b"
  shows "result_safe k b (retry_result_entry ev others now e a)"
proof -
  obtain r a1 where send: "send_result_wire (pres_wire_body e) a = (r, a1)" by fastforce
  have a1: "result_safe k b (others a1)"
    using keeps_results_safe [OF keeps_send assms(2), of "pres_wire_body e"] send keeps_results_safe [OF assms(1)] by simp
  show ?thesis
  proof (cases r)
    case (Inl x)
    have "keeps_results k b (\<lambda>x. snd (on_storage (increment_pending_result_attempts (pres_id e)) x))"
      by (rule keeps_storage) (simp add: table_simps)
    from keeps_results_safe [OF this keeps_results_safe [OF keeps_count a1]] show ?thesis
      by (simp add: retry_result_entry_def send Inl)
  next
    case (Inr u)
    let ?a2 = "count_metric (record_result_delivery ''retry'' ''ok'') (others a1)"
    let ?a3 = "snd (on_storage (delete_pending_result (pres_pubkey e) (pres_sub_task_id e)) ?a2)"
    have "delivered (pres_wire_body e) ?a2"
      using keeps_results_delivered [OF keeps_count keeps_results_delivered [OF assms(1) send_result_delivered]] send Inr by blast
    then have a3: "result_safe k b ?a3"
      using delete_result_safe [OF keeps_results_safe [OF keeps_count a1]] assms(3) by metis
    have load: "keeps_results k b (\<lambda>x. snd (on_storage (load_task (ev_tasks ev) (pres_pubkey e) (pres_sub_task_id e)) x))"
      by (rule keeps_storage) (simp add: table_simps)
    obtain l a4 where l: "on_storage (load_task (ev_tasks ev) (pres_pubkey e) (pres_sub_task_id e)) ?a3 = (l, a4)" by fastforce
    then have a4: "result_safe k b a4" using keeps_results_safe [OF load a3] by simp
    then show ?thesis
      by (simp add: retry_result_entry_def send Inr Let_def l keeps_results_safe [OF keeps_retain]
          split: sum.split option.split)
  qed
qed

lemma retry_entries_safe:
  assumes "\<And>n. keeps_results k b (others n)" "result_safe k b a"
    and "\<And>e. e \<in> set es \<Longrightarrow> (pres_pubkey e, pres_sub_task_id e) = k \<Longrightarrow> pres_wire_body e = b"
  shows "result_safe k b (retry_result_entries ev others now n es a)"
  using assms by (induction ev others now n es a rule: retry_result_entries.induct) (auto intro!: retry_entry_safe)


lemma find_unique_key: "distinct (map f xs) \<Longrightarrow> r \<in> set xs \<Longrightarrow> find (\<lambda>q. f q = f r) xs = Some r"
  by (induction xs) auto

text \<open>What the listing shows of a key is its body.\<close>

lemma listed_body:
  assumes "storage_ok s" "fst (list_pending_results s) = Inr l" "e \<in> set l"
  shows "results_map s (pres_pubkey e, pres_sub_task_id e) = Some (pres_wire_body e)"
proof -
  have d: "distinct (map out_key (tb_rows (st_results s)))" using assms(1) by (simp add: storage_ok_def table_ok_def)
  obtain r where r: "r \<in> set (tb_rows (st_results s))" "e = result_of_row r"
    using assms(2,3) by (auto simp: list_pending_results_def execute_def Let_def by_created_def split: option.splits)
  have "find (\<lambda>q. out_key q = out_key r) (tb_rows (st_results s)) = Some r"
    using d r(1) by (rule find_unique_key)
  then show ?thesis using r(2) by (simp add: results_map_def outbox_body_def tb_find_def result_of_row_def out_key_def)
qed

lemma try_deliver_safe:
  assumes "keeps_results (p, i) b others" "result_safe (p, i) b a"
    and t: "try_deliver_pending ev others now p i b payload task a = (r, a')"
  shows "result_safe (p, i) b a'" and "r = Inr () \<Longrightarrow> delivered b a' \<and> result_row a' (p, i) = None"
proof -
  obtain r1 a1 where send: "send_result_wire b a = (r1, a1)" by fastforce
  have a1: "result_safe (p, i) b (others a1)"
    using keeps_results_safe [OF keeps_send assms(2), of b] send keeps_results_safe [OF assms(1)] by simp
  have "result_safe (p, i) b a' \<and> (r = Inr () \<longrightarrow> delivered b a' \<and> result_row a' (p, i) = None)"
  proof (cases r1)
    case (Inl x)
    then show ?thesis using t keeps_results_safe [OF keeps_count a1] by (auto simp: try_deliver_pending_def send)
  next
    case (Inr u)
    have d1: "delivered b (others a1)"
      using keeps_results_delivered [OF assms(1) send_result_delivered] send Inr by blast
    obtain r2 a2 where del: "on_storage (delete_pending_result p i) (others a1) = (r2, a2)" by fastforce
    have d2: "delivered b a2" using d1 del by (auto simp: delivered_def on_storage_eq received_def)
    have none: "result_row a2 (p, i) = None" if "r2 = Inr v" for v
      using del that by (auto simp: on_storage_eq result_row_def table_simps)
    let ?a3 = "count_metric (record_result_delivery ''initial'' ''ok'') a2"
    have frame: "results_map (app_storage (retain_after_result ev now task pf x)) = results_map (app_storage x)" for pf x
      by (simp add: retain_after_result_def Let_def on_storage_eq spawn_build_and_deliver_def table_simps split: sum.split)
    have d3: "delivered b ?a3" using keeps_results_delivered [OF keeps_count d2] .
    have "delivered b (retain_after_result ev now task pf ?a3)" for pf
      using keeps_results_delivered [OF keeps_retain d3] .
    moreover have "result_row ?a3 (p, i) = result_row a2 (p, i)" by (simp add: result_row_def count_metric_def)
    ultimately show ?thesis
      using t d2 d3 none
      by (auto simp: try_deliver_pending_def send Inr del Let_def result_safe_def result_row_def frame
          split: sum.splits if_splits option.splits)
  qed
  then show "result_safe (p, i) b a'" "r = Inr () \<Longrightarrow> delivered b a' \<and> result_row a' (p, i) = None" by simp_all
qed


section \<open>A round while everything works\<close>

text \<open>The store answers, the streams are ready and every stream is taken in full.\<close>

definition all_up :: "'k app \<Rightarrow> bool" where
  "all_up a \<longleftrightarrow> healthy_db a \<and> is_ok (orchestrator_stream a) \<and>
     (\<forall>n. \<exists>x. nw_answer (app_network a) n = Answered x)"

definition key_of :: "pending_result \<Rightarrow> string \<times> string" where
  "key_of e = (pres_pubkey e, pres_sub_task_id e)"

lemma listed_all:
  assumes "fst (list_pending_results s) = Inr l" "results_map s k = Some b"
  shows "\<exists>e \<in> set l. key_of e = k"
proof -
  obtain r where "r \<in> set (tb_rows (st_results s))" "out_key r = k"
    using assms(2) by (auto simp: results_map_def outbox_body_def tb_find_def find_Some_iff intro: nth_mem)
  moreover have "set l = result_of_row ` set (tb_rows (st_results s))"
    using assms(1) by (auto simp: list_pending_results_def execute_def Let_def by_created_def split: option.splits)
  ultimately show ?thesis by (force simp: key_of_def result_of_row_def out_key_def)
qed

lemma send_up:
  assumes "all_up a" shows "\<exists>n. send_result_wire w a = (Inr (), a\<lparr>app_network := n\<rparr>) \<and> nw_answer n = nw_answer (app_network a)"
proof -
  obtain peer where peer: "orchestrator_stream a = Inr peer" using assms by (cases "orchestrator_stream a") (auto simp: all_up_def)
  obtain x where "nw_answer (app_network a) (nw_calls (app_network a)) = Answered x"
    using assms unfolding all_up_def by blast
  then show ?thesis
    by (auto simp: send_result_wire_def peer on_network_def write_outbound_stream_def next_answer_def deliver_bytes_def)
qed

lemma all_up_frame:
  assumes "all_up a" "st_fault (app_storage a') = st_fault (app_storage a)" "app_config a' = app_config a"
    and "app_stream_ready a' = app_stream_ready a" "nw_answer (app_network a') = nw_answer (app_network a)"
  shows "all_up a'"
proof -
  have "orchestrator_stream a' = orchestrator_stream a" by (simp add: orchestrator_stream_def assms(3,4) split: option.split)
  then show ?thesis using assms by (simp add: all_up_def healthy_db_def)
qed

lemma retain_frame:
  "st_fault (app_storage (retain_after_result ev now task pf x)) = st_fault (app_storage x)"
  "app_config (retain_after_result ev now task pf x) = app_config x"
  "app_stream_ready (retain_after_result ev now task pf x) = app_stream_ready x"
  "app_network (retain_after_result ev now task pf x) = app_network x"
  "results_map (app_storage (retain_after_result ev now task pf x)) = results_map (app_storage x)"
  by (simp_all add: retain_after_result_def Let_def on_storage_eq spawn_build_and_deliver_def table_simps split: sum.split)

lemma retry_entry_up:
  assumes "all_up a"
  shows "all_up (retry_result_entry ev (\<lambda>x. x) now e a)"
    and "result_row (retry_result_entry ev (\<lambda>x. x) now e a) = (result_row a)(key_of e := None)"
proof -
  obtain n where n: "send_result_wire (pres_wire_body e) a = (Inr (), a\<lparr>app_network := n\<rparr>)" "nw_answer n = nw_answer (app_network a)"
    using send_up [OF assms] by blast
  have ok: "is_ok (fst (delete_pending_result p i (app_storage a)))" for p i
    using assms by (simp add: delete_pending_result_def execute_ok all_up_def healthy_db_def)
  note step = retry_result_entry_def n(1) Let_def count_metric_def on_storage_eq
  show "all_up (retry_result_entry ev (\<lambda>x. x) now e a)"
    by (rule all_up_frame [OF assms]; simp add: step retain_frame n(2) split: sum.split option.split)
  show "result_row (retry_result_entry ev (\<lambda>x. x) now e a) = (result_row a)(key_of e := None)"
    by (simp add: step result_row_def retain_frame table_simps ok key_of_def split: sum.split option.split)
qed

lemma retry_entries_up:
  assumes "all_up a"
  shows "result_row (retry_result_entries ev (\<lambda>n x. x) now k es a) =
    (\<lambda>q. if q \<in> key_of ` set es then None else result_row a q)"
  using assms by (induction es arbitrary: a k) (auto simp: retry_entry_up fun_eq_iff)


section \<open>Properties\<close>



text \<open>
  Property C16. Retrying makes progress: in a round during which the store answers and every stream to
  the orchestrator is taken, every pending result is delivered and the outbox is empty afterwards.
\<close>

theorem retry_drains_outbox:
  assumes "storage_ok (app_storage a)" "all_up a"
  shows "result_row (result_retry_round ev (\<lambda>n x. x) now a) = Map.empty \<and>
    (\<forall>k b. result_row a k = Some b \<longrightarrow> delivered b (result_retry_round ev (\<lambda>n x. x) now a))"
proof -
  obtain es where es: "fst (list_pending_results (app_storage a)) = Inr es"
    using assms(2) by (simp add: list_pending_results_def execute_ok all_up_def healthy_db_def)
  let ?a1 = "a\<lparr>app_storage := snd (list_pending_results (app_storage a))\<rparr>"
  have round: "result_retry_round ev (\<lambda>n x. x) now a = retry_result_entries ev (\<lambda>n x. x) now 0 es ?a1"
    by (cases "es = []") (simp_all add: result_retry_round_def on_storage_eq es)
  have "st_fault (app_storage ?a1) = st_fault (app_storage a)"
    by (simp add: list_pending_results_def execute_def Let_def split: option.split)
  then have up: "all_up ?a1" by (intro all_up_frame [OF assms(2)]) simp_all
  have row1: "result_row ?a1 = result_row a" by (simp add: result_row_def table_simps)
  have listed: "k \<in> key_of ` set es" if "result_row a k \<noteq> None" for k
    using listed_all [OF es, of k] that by (auto simp: result_row_def)
  have empty: "result_row (result_retry_round ev (\<lambda>n x. x) now a) = Map.empty"
    unfolding round retry_entries_up [OF up] row1 using listed by fastforce
  moreover have "delivered b (result_retry_round ev (\<lambda>n x. x) now a)" if "result_row a k = Some b" for k b
  proof -
    have "pres_wire_body e = b" if "e \<in> set es" "(pres_pubkey e, pres_sub_task_id e) = k" for e
      using listed_body [OF assms(1) es that(1)] that(2) \<open>result_row a k = Some b\<close> by (simp add: result_row_def)
    moreover have "result_safe k b ?a1" using that row1 by (simp add: result_safe_def)
    ultimately have "result_safe k b (result_retry_round ev (\<lambda>n x. x) now a)"
      unfolding round by (intro retry_entries_safe keeps_results_id)
    then show ?thesis using empty by (simp add: result_safe_def)
  qed
  ultimately show ?thesis by blast
qed


text \<open>A failed computation reported over a working stream, and two stored results sent in a round.\<close>

definition demo_failure :: task_result_payload where
  "demo_failure = \<lparr>tp_task_id = ''s1'', tp_status = ''error'', tp_result_type = [], tp_complex_result = None,
     tp_sample_result = None, tp_expectation_result = None, tp_proof = None, tp_error = Some ''down'',
     tp_execution_time_ms = None, tp_work_report = None\<rparr>"

definition demo_outbox_env :: app_env where
  "demo_outbox_env = demo_env (demo_task ''s1'') (demo_job False None)"

definition demo_failure_body :: bytes where
  "demo_failure_body = projr (failure_json_bytes (ev_writers demo_outbox_env) ''s1'' ''p'' ''down'')"

lemma demo_failure_built:
  "build_result_wire_body (ev_writers demo_outbox_env) (demo_task ''s1'') demo_failure (peer_id (app_config demo_app)) = Inr demo_failure_body"
  by (simp add: build_result_wire_body_def demo_failure_def demo_failure_body_def failure_json_bytes_def demo_outbox_env_def demo_env_def
      demo_task_def demo_app_def demo_config_def)

lemma demo_failure_sent:
  "fst (deliver_result demo_outbox_env (\<lambda>x. x) (Some 5) (Some 6) (demo_task ''s1'') demo_failure demo_app) = Inr ()"
  unfolding deliver_result_def Let_def demo_failure_built
  by (simp add: demo_app_def on_storage_eq upsert_pending_result_def execute_def new_storage_def update_status_def
      try_deliver_pending_def send_result_wire_def orchestrator_stream_def on_network_def write_outbound_stream_def next_answer_def
      delete_pending_result_def demo_failure_def Let_def)


definition demo_full_app :: "nat app" where
  "demo_full_app = demo_app\<lparr>app_storage := demo_store\<rparr>"

lemma demo_full_app_up: "storage_ok (app_storage demo_full_app)" "all_up demo_full_app"
proof -
  show "storage_ok (app_storage demo_full_app)" by (simp add: demo_full_app_def demo_store_ok)
  show "all_up demo_full_app"
    by (simp add: demo_full_app_def all_up_def healthy_db_def orchestrator_stream_def demo_app_def demo_store_def new_storage_def)
qed

lemma demo_full_app_rows: "result_row demo_full_app (''o'', ''t1'') = Some [6]"
  by (simp add: result_row_def results_map_def outbox_body_def tb_find_def demo_full_app_def demo_store_def out_key_def)


theorem retry_drains_outbox_witness:
  "delivered [6] (result_retry_round demo_outbox_env (\<lambda>n x. x) (\<lambda>n. Some 7) demo_full_app)"
  using retry_drains_outbox [OF demo_full_app_up, of demo_outbox_env "\<lambda>n. Some 7"] demo_full_app_rows by blast

end
