(* ===== verification/Worker.thy ===== *)
theory Worker
  imports Result_Outbox Accept_Task
begin

text \<open>
  The worker of \<open>src/src/application/worker.rs\<close>: it takes tasks off the queue one at a time, sends them to
  the core, and hands the outcome to the result sink (\<open>src/src/transport/p2p/result_sink.rs\<close>), which is the
  outbox. \<open>work_world\<close> holds what the task meets outside the node: the clocks and the core's answer.
\<close>

record task_result_data =
  td_result_type :: string
  td_complex_result :: complex_result
  td_sample_result :: "sample_result option"
  td_expectation_result :: "expectation_result option"
  td_proof :: proof_wire
  td_execution_time_ms :: u64
  td_work_report :: "work_report option"

record work_world =
  ww_started :: instant
  ww_now_ms :: "nat option"
  ww_begin :: instant
  ww_end :: instant
  ww_core :: "compute_request \<Rightarrow> compute_response core_call"
  ww_stored :: "nat option"
  ww_retained :: "nat option"

definition from_millis :: "nat \<Rightarrow> duration" where "from_millis n = n * 1000000"
definition as_millis :: "duration \<Rightarrow> nat" where "as_millis d = d div 1000000"
definition as_secs :: "duration \<Rightarrow> nat" where "as_secs d = d div 1000000000"

text \<open>\<open>{err:#}\<close> prints the chain of causes; the errors of the model are that text.\<close>

definition failure_reason :: "err \<Rightarrow> string" where "failure_reason e = e"

definition execute_compute :: "work_world \<Rightarrow> compute_request \<Rightarrow> duration \<Rightarrow> 'k app \<Rightarrow> (err + task_result_data) \<times> 'k app" where
  "execute_compute w request timeout a =
     (case dispatch_task (ww_core w request) timeout (app_core a) (app_metrics a) of (res, c, m) \<Rightarrow>
        (and_then res (\<lambda>rsp. Inr
           \<lparr>td_result_type = (if rsp_result_type rsp = [] then ''statevector_scalar'' else rsp_result_type rsp),
            td_complex_result = rsp_complex_result rsp, td_sample_result = rsp_sample_result rsp,
            td_expectation_result = rsp_expectation_result rsp, td_proof = rsp_proof rsp,
            td_execution_time_ms = word_of_nat (as_millis (duration_since (ww_end w) (ww_begin w))),
            td_work_report = rsp_work_report rsp\<rparr>),
         a\<lparr>app_core := c, app_metrics := m\<rparr>))"

definition waited_in_queue :: "work_world \<Rightarrow> compute_task \<Rightarrow> duration" where
  "waited_in_queue w task =
     (if ctk_accepted_at_ms task = 0 then 0
      else from_millis (unat (sat_sub (unix_now_ms (ww_now_ms w)) (ctk_accepted_at_ms task))))"

definition outcome_payload :: "string \<Rightarrow> err + task_result_data \<Rightarrow> task_result_payload" where
  "outcome_payload task_id outcome =
     (case outcome of
        Inr d \<Rightarrow> \<lparr>tp_task_id = task_id, tp_status = ''success'', tp_result_type = td_result_type d,
           tp_complex_result = Some (td_complex_result d), tp_sample_result = td_sample_result d,
           tp_expectation_result = td_expectation_result d, tp_proof = Some (td_proof d), tp_error = None,
           tp_execution_time_ms = Some (td_execution_time_ms d), tp_work_report = td_work_report d\<rparr>
      | Inl e \<Rightarrow> \<lparr>tp_task_id = task_id, tp_status = ''error'', tp_result_type = [], tp_complex_result = None,
           tp_sample_result = None, tp_expectation_result = None, tp_proof = None, tp_error = Some (failure_reason e),
           tp_execution_time_ms = None, tp_work_report = None\<rparr>)"

text \<open>\<open>P2pResultSink\<close>: the failure is logged, then the outbox takes over.\<close>

definition send_result ::
    "app_env \<Rightarrow> ('k app \<Rightarrow> 'k app) \<Rightarrow> nat option \<Rightarrow> nat option \<Rightarrow> compute_task \<Rightarrow> task_result_payload \<Rightarrow> 'k app
      \<Rightarrow> (err + unit) \<times> 'k app" where
  "send_result = deliver_result"

definition compute_outcome :: "work_world \<Rightarrow> (nat \<Rightarrow> 'k app \<Rightarrow> 'k app) \<Rightarrow> compute_task \<Rightarrow> 'k app \<Rightarrow> (err + task_result_data) \<times> 'k app" where
  "compute_outcome w others task a =
     (let waited = waited_in_queue w task in
      case compute_timeout (compute_timeout_secs (app_config a)) (ctk_budget task) waited of
        Some timeout \<Rightarrow> (case execute_compute w (ctk_request task) timeout a of (r, a) \<Rightarrow> (r, others 0 a))
      | None \<Rightarrow> (Inl (''deadline passed after '' @ show_nat (as_secs waited) @ ''s in the node queue''), a))"

definition process_task :: "app_env \<Rightarrow> work_world \<Rightarrow> (nat \<Rightarrow> 'k app \<Rightarrow> 'k app) \<Rightarrow> compute_task \<Rightarrow> 'k app \<Rightarrow> 'k app" where
  "process_task ev w others task a =
     (let task_id = cr_task_id (ctk_request task); pubkey = ctk_orchestrator_pubkey task;
          a = a\<lparr>app_work := start (app_work a) task_id (ww_started w)\<rparr>
      in case compute_outcome w others task a of (outcome, a) \<Rightarrow>
        let payload = outcome_payload task_id outcome;
            failed = (tp_status payload = ''error'');
            a = count_metric (record_task_status (if failed then ''error'' else ''success'')) a;
            a = snd (on_storage (update_status pubkey task_id (if failed then ''failed'' else ''completed'')) a);
            a = snd (send_result ev (others 1) (ww_stored w) (ww_retained w) task payload a)
        in a\<lparr>app_pending_tasks := app_pending_tasks a - 1, app_work := release (app_work a) task_id\<rparr>)"

text \<open>
  The loop of \<open>start_worker\<close>, for the first \<open>n\<close> tasks received: it takes the head of the queue, and waits
  (nothing happens) while the queue is empty.
\<close>

fun start_worker ::
    "app_env \<Rightarrow> (nat \<Rightarrow> work_world) \<Rightarrow> (nat \<Rightarrow> nat \<Rightarrow> 'k app \<Rightarrow> 'k app) \<Rightarrow> nat \<Rightarrow> nat \<Rightarrow> 'k app \<Rightarrow> 'k app" where
  "start_worker ev w others k 0 a = a"
| "start_worker ev w others k (Suc n) a =
     (case app_queue a of
        [] \<Rightarrow> a
      | task # rest \<Rightarrow> start_worker ev w others (Suc k) n (process_task ev (w k) (others k) task (a\<lparr>app_queue := rest\<rparr>)))"


section \<open>Every task is answered\<close>

definition writers_ok :: "result_writers \<Rightarrow> bool" where
  "writers_ok w \<longleftrightarrow> (\<forall>s. is_ok (js_str w s)) \<and> (\<forall>p. is_ok (js_proof w p)) \<and> (\<forall>r. is_ok (js_report w r))"

text \<open>The store keeps answering and the queue only grows at its end.\<close>

definition grown :: "'k app \<Rightarrow> 'k app \<Rightarrow> bool" where
  "grown x y \<longleftrightarrow> (healthy_db x \<longrightarrow> healthy_db y) \<and> (\<exists>new. app_queue y = app_queue x @ new)"

text \<open>What the rest of the node may do while the worker waits.\<close>

definition benign :: "('k app \<Rightarrow> 'k app) \<Rightarrow> bool" where
  "benign f \<longleftrightarrow> (\<forall>x. grown x (f x)) \<and> (\<forall>k b. keeps_results k b f)"

text \<open>A message with an outcome of the sub-task is stored for delivery or has reached the orchestrator.\<close>

definition task_answered :: "app_env \<Rightarrow> string \<times> string \<Rightarrow> 'k app \<Rightarrow> bool" where
  "task_answered ev q a \<longleftrightarrow> (\<exists>t outcome b. task_slot t = q \<and>
     build_result_wire_body (ev_writers ev) t (outcome_payload (snd q) outcome) (peer_id (app_config a)) = Inr b \<and> result_safe q b a)"

lemma benign_id: "benign (\<lambda>x. x)" by (simp add: benign_def grown_def keeps_results_id)

lemma grown_trans: "grown x y \<Longrightarrow> grown y z \<Longrightarrow> grown x z"
  unfolding grown_def by (metis append_assoc)

lemma grownI: "st_fault (app_storage y) = st_fault (app_storage x) \<Longrightarrow> app_queue y = app_queue x \<Longrightarrow> grown x y"
  by (simp add: grown_def healthy_db_def)

lemma grown_send: "grown x (snd (send_result_wire w x))"
  using send_result_wire_frame [of w x] by (auto intro: grownI)

lemma grown_retain: "grown x (retain_after_result ev now t pf x)"
  by (rule grownI) (simp_all add: retain_after_result_def Let_def on_storage_eq spawn_build_and_deliver_def split: sum.split)

lemma grown_try_deliver:
  assumes "\<And>x. grown x (others x)"
  shows "grown x (snd (try_deliver_pending ev others now p i wire payload task x))"
proof -
  obtain r x1 where s: "send_result_wire wire x = (r, x1)" by fastforce
  have x1: "grown x (others x1)" using grown_trans [OF grown_send [of x wire] assms] s by simp
  show ?thesis
  proof (cases r)
    case (Inl e)
    have "grown (others x1) (count_metric g (others x1))" for g by (rule grownI) (simp_all add: count_metric_def)
    then show ?thesis using grown_trans [OF x1] by (simp add: try_deliver_pending_def s Inl)
  next
    case (Inr u)
    obtain r2 x2 where d: "on_storage (delete_pending_result p i) (others x1) = (r2, x2)" by fastforce
    then have x2: "grown x x2" by (intro grown_trans [OF x1] grownI) (auto simp: on_storage_eq)
    let ?x3 = "count_metric (record_result_delivery ''initial'' ''ok'') x2"
    have x3: "grown x ?x3" by (rule grown_trans [OF x2], rule grownI) (simp_all add: count_metric_def)
    show ?thesis
      using x2 x3 grown_trans [OF x3 grown_retain]
      by (simp add: try_deliver_pending_def s Inr d Let_def split: sum.split option.split)
  qed
qed

lemma grown_deliver:
  assumes "\<And>x. grown x (others x)"
  shows "grown x (snd (deliver_result ev others now later task payload x))"
proof (cases "build_result_wire_body (ev_writers ev) task payload (peer_id (app_config x))")
  case (Inl e)
  then show ?thesis by (simp add: deliver_result_def grown_def)
next
  case (Inr wire)
  let ?p = "ctk_orchestrator_pubkey task" and ?i = "cr_task_id (ctk_request task)"
  obtain r x1 where u: "on_storage (upsert_pending_result now ?p ?i wire) x = (r, x1)" by fastforce
  then have x1: "grown x x1" by (intro grownI) (auto simp: on_storage_eq)
  have "grown x1 (snd (on_storage (update_status ?p ?i st) x1))" for st by (rule grownI) (simp_all add: on_storage_eq)
  then show ?thesis
    using x1 grown_trans [OF x1 grown_trans [OF _ grown_try_deliver [OF assms]]]
    by (simp add: deliver_result_def Inr Let_def u split: sum.split)
qed

lemma grown_outcome:
  assumes "\<And>n x. grown x (others n x)"
  shows "grown x (snd (compute_outcome w others task x))"
proof -
  have "grown x (snd (execute_compute w r t x))" for r t
    by (rule grownI) (simp_all add: execute_compute_def split: prod.split)
  then show ?thesis
    using grown_trans [OF _ assms]
    by (simp add: compute_outcome_def Let_def grown_def [of x x] split: option.split prod.split) (metis snd_conv)
qed


lemma keeps_outcome:
  assumes "\<And>n. keeps_results k b (others n)"
  shows "keeps_results k b (\<lambda>x. snd (compute_outcome w others task x))"
proof (rule keeps_pointwise)
  fix x
  have exec: "keeps_results k b (\<lambda>y. snd (execute_compute w r t y))" for r t
    by (rule keeps_frame) (simp_all add: execute_compute_def received_def split: prod.split)
  show "\<exists>g. keeps_results k b g \<and> snd (compute_outcome w others task x) = g x"
  proof (cases "compute_timeout (compute_timeout_secs (app_config x)) (ctk_budget task) (waited_in_queue w task)")
    case None
    then show ?thesis by (intro exI [of _ "\<lambda>x. x"]) (simp add: compute_outcome_def keeps_results_id)
  next
    case (Some t)
    then show ?thesis using keeps_results_comp [OF assms exec]
      by (intro exI [of _ "\<lambda>y. others 0 (snd (execute_compute w (ctk_request task) t y))"])
        (simp add: compute_outcome_def split: prod.split)
  qed
qed

text \<open>The state in which a task's outcome is handed to the sink.\<close>

definition before_sink :: "work_world \<Rightarrow> (nat \<Rightarrow> 'k app \<Rightarrow> 'k app) \<Rightarrow> compute_task \<Rightarrow> 'k app \<Rightarrow> (err + task_result_data) \<times> 'k app" where
  "before_sink w others task a =
     (case compute_outcome w others task (a\<lparr>app_work := start (app_work a) (cr_task_id (ctk_request task)) (ww_started w)\<rparr>) of
        (outcome, a) \<Rightarrow>
          (outcome, snd (on_storage (update_status (ctk_orchestrator_pubkey task) (cr_task_id (ctk_request task))
             (if is_ok outcome then ''completed'' else ''failed''))
             (count_metric (record_task_status (if is_ok outcome then ''success'' else ''error'')) a))))"

lemma process_task_alt:
  "process_task ev w others task a =
     (case before_sink w others task a of (outcome, a) \<Rightarrow>
        let a = snd (deliver_result ev (others 1) (ww_stored w) (ww_retained w) task
                  (outcome_payload (cr_task_id (ctk_request task)) outcome) a)
        in a\<lparr>app_pending_tasks := app_pending_tasks a - 1, app_work := release (app_work a) (cr_task_id (ctk_request task))\<rparr>)"
proof -
  have "tp_status (outcome_payload i r) = ''error'' \<longleftrightarrow> \<not> is_ok r" for i r
    by (cases r) (simp_all add: outcome_payload_def)
  then show ?thesis
    by (auto simp: process_task_def before_sink_def send_result_def Let_def split: prod.split)
qed

lemma keeps_before_sink:
  assumes "\<And>n. keeps_results k b (others n)"
  shows "keeps_results k b (\<lambda>x. snd (before_sink w others task x))"
proof -
  let ?i = "cr_task_id (ctk_request task)"
  have work: "keeps_results k b (\<lambda>x. x\<lparr>app_work := start (app_work x) ?i (ww_started w)\<rparr>)"
    by (rule keeps_frame) (simp_all add: received_def)
  let ?g = "\<lambda>r x. snd (on_storage (update_status (ctk_orchestrator_pubkey task) ?i (if is_ok r then ''completed'' else ''failed''))
             (count_metric (record_task_status (if is_ok r then ''success'' else ''error'')) x))"
  have st: "keeps_results k b (\<lambda>x. snd (on_storage (update_status p i' st) x))" for p i' st
    by (rule keeps_storage) (simp add: table_simps)
  have g: "keeps_results k b (?g r)" for r by (rule keeps_results_comp [OF st keeps_count])
  have "snd (before_sink w others task x) =
      (\<lambda>y. ?g (fst (compute_outcome w others task y)) (snd (compute_outcome w others task y)))
        (x\<lparr>app_work := start (app_work x) ?i (ww_started w)\<rparr>)" for x
    by (simp add: before_sink_def split: prod.split)
  then show ?thesis using keeps_results_comp [OF keeps_bind [OF keeps_outcome [OF assms] g] work] by simp
qed

lemma grown_before_sink:
  assumes "\<And>n x. grown x (others n x)"
  shows "grown x (snd (before_sink w others task x))"
proof -
  let ?x = "x\<lparr>app_work := start (app_work x) (cr_task_id (ctk_request task)) (ww_started w)\<rparr>"
  obtain r y where c: "compute_outcome w others task ?x = (r, y)" by fastforce
  have "grown x ?x" by (rule grownI) simp_all
  then have "grown x y" using grown_trans grown_outcome [where others = others and x = ?x and w = w and task = task, OF assms] c by fastforce
  then show ?thesis
    by (rule grown_trans, intro grownI) (simp_all add: before_sink_def c on_storage_eq count_metric_def)
qed


text \<open>Processing a task: for the other tasks, and for the task itself.\<close>

lemma process_other:
  assumes "\<And>n. keeps_results k b (others n)" "task_slot task \<noteq> k"
  shows "keeps_results k b (process_task ev w others task)"
proof -
  let ?i = "cr_task_id (ctk_request task)"
  let ?g = "\<lambda>r x. snd (deliver_result ev (others 1) (ww_stored w) (ww_retained w) task (outcome_payload ?i r) x)"
  have g: "keeps_results k b (?g r)" for r
    using assms(2) by (intro deliver_result_other assms(1)) (simp add: task_slot_def)
  have "keeps_results k b (\<lambda>x. ?g (fst (before_sink w others task x)) (snd (before_sink w others task x)))"
    by (rule keeps_bind [where f = "before_sink w others task" and g = ?g, OF keeps_before_sink [where others = others, OF assms(1)] g])
  moreover have "keeps_results k b (\<lambda>a. a\<lparr>app_pending_tasks := app_pending_tasks a - 1, app_work := release (app_work a) ?i\<rparr>)"
    by (rule keeps_frame) (simp_all add: received_def)
  ultimately have "keeps_results k b (\<lambda>x. (\<lambda>a. a\<lparr>app_pending_tasks := app_pending_tasks a - 1, app_work := release (app_work a) ?i\<rparr>)
      (?g (fst (before_sink w others task x)) (snd (before_sink w others task x))))"
    by (rule keeps_results_comp [rotated])
  then show ?thesis by (simp add: process_task_alt [abs_def] Let_def split_def)
qed

lemma grown_process:
  assumes "\<And>n x. grown x (others n x)"
  shows "grown x (process_task ev w others task x)"
proof -
  obtain r y where b: "before_sink w others task x = (r, y)" by fastforce
  then have y: "grown x y" using grown_before_sink [where others = others and x = x and w = w and task = task, OF assms] by simp
  let ?z = "snd (deliver_result ev (others 1) (ww_stored w) (ww_retained w) task (outcome_payload (cr_task_id (ctk_request task)) r) y)"
  have "grown x ?z" using grown_trans [OF y grown_deliver] assms by blast
  moreover have "grown ?z (process_task ev w others task x)"
    by (rule grownI) (simp_all add: process_task_alt b Let_def)
  ultimately show ?thesis by (rule grown_trans)
qed

lemma payload_built:
  assumes "writers_ok w" shows "\<exists>b. build_result_wire_body w t (outcome_payload i r) p = Inr b"
  using assms by (intro build_result_wire_body_ok) (auto simp: writers_ok_def outcome_payload_def split: sum.splits)

lemma upsert_healthy: "healthy_db a \<Longrightarrow> fst (upsert_pending_result now p i b (app_storage a)) = Inr ()"
  by (simp add: healthy_db_def upsert_pending_result_def execute_ok)

lemma update_healthy: "healthy_db a \<Longrightarrow> fst (update_status p i st (app_storage a)) = Inr ()"
  by (simp add: healthy_db_def update_status_def execute_ok)

lemma deliver_own:
  assumes "build_result_wire_body (ev_writers ev) task payload (peer_id (app_config a)) = Inr b" "healthy_db a"
    and "keeps_results (task_slot task) b others"
  shows "result_safe (task_slot task) b (snd (deliver_result ev others now later task payload a))"
proof -
  let ?p = "ctk_orchestrator_pubkey task" and ?i = "cr_task_id (ctk_request task)"
  let ?a = "snd (on_storage (update_status ?p ?i (payload_task_status payload))
     (a\<lparr>app_storage := snd (upsert_pending_result now ?p ?i b (app_storage a))\<rparr>))"
  have "result_row ?a (?p, ?i) = Some b"
    using upsert_healthy [OF assms(2)] by (simp add: result_row_def on_storage_eq table_simps)
  then have "result_safe (?p, ?i) b ?a" by (simp add: result_safe_def)
  then have "result_safe (?p, ?i) b (snd (try_deliver_pending ev others later ?p ?i b payload task ?a))"
    using try_deliver_safe(1) assms(3) by (metis prod.collapse task_slot_def)
  then show ?thesis
    using upsert_healthy [OF assms(2)] by (simp add: deliver_result_def assms(1) Let_def on_storage_eq task_slot_def)
qed

lemma process_own:
  assumes "writers_ok (ev_writers ev)" "healthy_db a" "\<And>n. benign (others n)"
  shows "task_answered ev (task_slot task) (process_task ev w others task a)"
proof -
  obtain r y where b: "before_sink w others task a = (r, y)" by fastforce
  have grow: "\<And>n x. grown x (others n x)" and keep: "\<And>n k b. keeps_results k b (others n)"
    using assms(3) unfolding benign_def by blast+
  have "healthy_db y"
    using grown_before_sink [where others = others and x = a and w = w and task = task, OF grow] b assms(2) by (simp add: grown_def)
  let ?pay = "outcome_payload (cr_task_id (ctk_request task)) r"
  obtain body where body: "build_result_wire_body (ev_writers ev) task ?pay (peer_id (app_config y)) = Inr body"
    using payload_built [OF assms(1)] by blast
  let ?z = "snd (deliver_result ev (others 1) (ww_stored w) (ww_retained w) task ?pay y)"
  have "result_safe (task_slot task) body ?z" by (rule deliver_own [OF body \<open>healthy_db y\<close> keep])
  then have safe: "result_safe (task_slot task) body (process_task ev w others task a)"
    by (simp add: process_task_alt b Let_def result_safe_def result_row_def delivered_def received_def)
  have "app_config ?z = app_config y"
    using deliver_result_other [OF keep, where task = task and k = "(ctk_orchestrator_pubkey task @ ''x'', cr_task_id (ctk_request task))"]
    by (simp add: keeps_results_def)
  then have "app_config (process_task ev w others task a) = app_config y" by (simp add: process_task_alt b Let_def)
  then show ?thesis unfolding task_answered_def using body safe by (auto simp: task_slot_def)
qed


lemma answered_kept:
  assumes "writers_ok (ev_writers ev)" "healthy_db a" "\<And>n. benign (others n)" "task_answered ev q a"
  shows "task_answered ev q (process_task ev w others task a)"
proof (cases "task_slot task = q")
  case True
  then show ?thesis using process_own [where others = others, OF assms(1-3)] by blast
next
  case False
  have keep: "keeps_results q b (process_task ev w others task)" for b
    using process_other [where others = others and k = q, OF _ False] assms(3) unfolding benign_def by blast
  obtain t r b where b: "task_slot t = q" "result_safe q b a"
    "build_result_wire_body (ev_writers ev) t (outcome_payload (snd q) r) (peer_id (app_config a)) = Inr b"
    using assms(4) by (auto simp: task_answered_def)
  have "app_config (process_task ev w others task a) = app_config a" using keep by (simp add: keeps_results_def)
  then show ?thesis using b keeps_results_safe [OF keep b(2)] unfolding task_answered_def by metis
qed

lemma worker_run:
  assumes "writers_ok (ev_writers ev)" "healthy_db a" "\<And>k n. benign (others k n)"
  shows "(\<forall>q. task_answered ev q a \<longrightarrow> task_answered ev q (start_worker ev w others k n a)) \<and>
    (\<forall>t \<in> set (take n (app_queue a)). task_answered ev (task_slot t) (start_worker ev w others k n a))"
  using assms(2)
proof (induction n arbitrary: a k)
  case (Suc n)
  show ?case
  proof (cases "app_queue a")
    case (Cons task rest)
    let ?a = "a\<lparr>app_queue := rest\<rparr>"
    let ?b = "process_task ev (w k) (others k) task ?a"
    have healthy: "healthy_db ?a" using Suc.prems by (simp add: healthy_db_def)
    have "\<And>n x. grown x (others k n x)" using assms(3) by (simp add: benign_def)
    from grown_process [where others = "others k", OF this]
    have g: "grown ?a ?b" .
    then obtain new where new: "app_queue ?b = rest @ new" and hb: "healthy_db ?b" using healthy by (auto simp: grown_def)
    have kept: "task_answered ev q ?b" if "task_answered ev q a" for q
    proof -
      have "task_answered ev q ?a"
        using that by (simp add: task_answered_def result_safe_def result_row_def delivered_def received_def)
      then show ?thesis by (rule answered_kept [where others = "others k", OF assms(1) healthy assms(3)])
    qed
    have own: "task_answered ev (task_slot task) ?b"
      by (rule process_own [where others = "others k", OF assms(1) healthy assms(3)])
    have "set (take n rest) \<subseteq> set (take n (app_queue ?b))" by (simp add: new)
    moreover have "start_worker ev w others k (Suc n) a = start_worker ev w others (Suc k) n ?b"
      "set (take (Suc n) (app_queue a)) = insert task (set (take n rest))" by (simp_all add: Cons)
    ultimately show ?thesis using Suc.IH [OF hb, of "Suc k"] kept own by (metis insertE subsetD)
  qed simp
qed simp

section \<open>What a task leaves behind\<close>

text \<open>A state that agrees on load, ledger, core client and task rows.\<close>

definition same_books :: "'k app \<Rightarrow> 'k app \<Rightarrow> bool" where
  "same_books x y \<longleftrightarrow> app_pending_tasks y = app_pending_tasks x \<and> app_work y = app_work x \<and> app_core y = app_core x \<and>
     app_task y = app_task x"

lemma books_retain:
  "app_pending_tasks (retain_after_result ev now t pf a) = app_pending_tasks a" "app_work (retain_after_result ev now t pf a) = app_work a"
  "app_core (retain_after_result ev now t pf a) = app_core a" "task_at (app_storage (retain_after_result ev now t pf a)) = task_at (app_storage a)"
  by (simp_all add: retain_after_result_def Let_def on_storage_eq spawn_build_and_deliver_def table_simps split: sum.split)

lemma same_books_try: "same_books a (snd (try_deliver_pending ev (\<lambda>x. x) now p i wire payload task a))"
proof -
  obtain n where n: "snd (send_result_wire wire a) = a\<lparr>app_network := n\<rparr>" using send_result_wire_frame by blast
  then obtain r where r: "send_result_wire wire a = (r, a\<lparr>app_network := n\<rparr>)" by (metis prod.collapse)
  show ?thesis
    by (simp add: try_deliver_pending_def r on_storage_eq Let_def same_books_def app_task_def count_metric_def books_retain table_simps
        split: sum.split option.split)
qed

lemma deliver_books:
  assumes "healthy_db a"
  shows "let a' = snd (deliver_result ev (\<lambda>x. x) now later task payload a); q = task_slot task in
    app_pending_tasks a' = app_pending_tasks a \<and> app_work a' = app_work a \<and> app_core a' = app_core a \<and>
    (app_task a' = app_task a \<or>
     app_task a' = (app_task a)(q := map_option (\<lambda>r. r\<lparr>tk_status := payload_task_status payload\<rparr>) (app_task a q)))"
proof (cases "build_result_wire_body (ev_writers ev) task payload (peer_id (app_config a))")
  case (Inl e)
  then show ?thesis by (simp add: deliver_result_def)
next
  case (Inr wire)
  let ?p = "ctk_orchestrator_pubkey task" and ?i = "cr_task_id (ctk_request task)"
  let ?s = "snd (upsert_pending_result now ?p ?i wire (app_storage a))"
  let ?a = "snd (on_storage (update_status ?p ?i (payload_task_status payload)) (a\<lparr>app_storage := ?s\<rparr>))"
  have d: "deliver_result ev (\<lambda>x. x) now later task payload a =
      try_deliver_pending ev (\<lambda>x. x) later ?p ?i wire payload task ?a"
    using upsert_healthy [OF assms, of now ?p ?i wire] by (simp add: deliver_result_def Inr Let_def on_storage_eq)
  have "fst (update_status ?p ?i (payload_task_status payload) ?s) = Inr ()"
    using assms by (simp add: update_status_def execute_ok healthy_db_def)
  then have "app_task ?a = (app_task a)((?p, ?i) := map_option (\<lambda>r. r\<lparr>tk_status := payload_task_status payload\<rparr>) (app_task a (?p, ?i)))"
    by (simp add: app_task_def on_storage_eq table_simps)
  then show ?thesis
    using same_books_try [of ?a ev later ?p ?i wire payload task]
    by (simp add: d Let_def same_books_def on_storage_eq task_slot_def)
qed

text \<open>The outcome depends on configuration, core client and metrics only, and touches the latter two.\<close>

lemma compute_outcome_core:
  assumes "app_config x = app_config y" "app_core x = app_core y" "app_metrics x = app_metrics y"
  shows "\<exists>c m. compute_outcome w (\<lambda>n x. x) task y = (fst (compute_outcome w (\<lambda>n x. x) task x), y\<lparr>app_core := c, app_metrics := m\<rparr>) \<and>
    (\<forall>b. ctk_budget task = Some b \<and> from_secs (unat (deadline_secs b)) \<le> waited_in_queue w task \<longrightarrow>
      \<not> is_ok (fst (compute_outcome w (\<lambda>n x. x) task x)) \<and> c = app_core x)"
proof (cases "compute_timeout (compute_timeout_secs (app_config y)) (ctk_budget task) (waited_in_queue w task)")
  case None
  then have "\<exists>e. compute_outcome w (\<lambda>n x. x) task x = (Inl e, x) \<and> compute_outcome w (\<lambda>n x. x) task y = (Inl e, y)"
    using assms(1) by (simp add: compute_outcome_def Let_def)
  then show ?thesis using assms by (intro exI [of _ "app_core y"] exI [of _ "app_metrics y"]) auto
next
  case (Some t)
  then have "\<not> (\<exists>b. ctk_budget task = Some b \<and> from_secs (unat (deadline_secs b)) \<le> waited_in_queue w task)"
    by (auto simp: compute_timeout_def Let_def split: if_splits)
  moreover obtain r c m where "dispatch_task (ww_core w (ctk_request task)) t (app_core y) (app_metrics y) = (r, c, m)"
    by (metis prod.collapse)
  then have "compute_outcome w (\<lambda>n x. x) task y =
      (fst (compute_outcome w (\<lambda>n x. x) task x), y\<lparr>app_core := c, app_metrics := m\<rparr>)"
    using assms Some by (simp add: compute_outcome_def Let_def execute_compute_def)
  ultimately show ?thesis by blast
qed

section \<open>Properties\<close>


text \<open>
  Property C23. What a processed task leaves behind, when nothing else runs and the store answers: one unit
  of load less, no entry in the work ledger, and the status \<open>completed\<close> or \<open>failed\<close> on its row, according to
  the outcome. A task whose deadline has passed while it was queued fails without the core being
  contacted.
\<close>

theorem process_task_accounts:
  assumes "healthy_db a"
  shows "let a' = process_task ev w (\<lambda>n x. x) task a; i = cr_task_id (ctk_request task);
             outcome = fst (compute_outcome w (\<lambda>n x. x) task a)
    in app_pending_tasks a' = app_pending_tasks a - 1 \<and> hm_get (held (app_work a')) i = None \<and>
       app_task a' = (app_task a)(task_slot task := map_option
         (\<lambda>r. r\<lparr>tk_status := if is_ok outcome then ''completed'' else ''failed''\<rparr>) (app_task a (task_slot task))) \<and>
       (\<forall>b. ctk_budget task = Some b \<and> from_secs (unat (deadline_secs b)) \<le> waited_in_queue w task \<longrightarrow>
          \<not> is_ok outcome \<and> app_core a' = app_core a)"
proof -
  let ?i = "cr_task_id (ctk_request task)" and ?q = "task_slot task"
  let ?a0 = "a\<lparr>app_work := start (app_work a) ?i (ww_started w)\<rparr>"
  let ?out = "fst (compute_outcome w (\<lambda>n x. x) task a)"
  let ?st = "if is_ok ?out then ''completed'' else ''failed''"
  obtain c m where c: "compute_outcome w (\<lambda>n x. x) task ?a0 = (?out, ?a0\<lparr>app_core := c, app_metrics := m\<rparr>)"
    and late: "\<And>b. ctk_budget task = Some b \<Longrightarrow> from_secs (unat (deadline_secs b)) \<le> waited_in_queue w task \<Longrightarrow>
      \<not> is_ok ?out \<and> c = app_core a"
    using compute_outcome_core [where w = w and task = task and x = a and y = ?a0] by auto
  let ?a1 = "snd (before_sink w (\<lambda>n x. x) task a)"
  have b: "before_sink w (\<lambda>n x. x) task a = (?out, ?a1)" by (simp add: before_sink_def c)
  have h1: "healthy_db ?a1" using assms by (simp add: before_sink_def c on_storage_eq count_metric_def healthy_db_def)
  have t1: "app_task ?a1 = (app_task a)(?q := map_option (\<lambda>r. r\<lparr>tk_status := ?st\<rparr>) (app_task a ?q))"
    using update_healthy [OF assms]
    by (simp add: before_sink_def c on_storage_eq count_metric_def app_task_def table_simps task_slot_def)
  have f1: "app_pending_tasks ?a1 = app_pending_tasks a" "app_core ?a1 = c"
    by (simp_all add: before_sink_def c on_storage_eq count_metric_def)
  let ?pay = "outcome_payload ?i ?out"
  let ?a2 = "snd (deliver_result ev (\<lambda>x. x) (ww_stored w) (ww_retained w) task ?pay ?a1)"
  have "payload_task_status ?pay = ?st"
    by (cases ?out) (simp_all add: payload_task_status_def outcome_payload_def)
  then have again: "(app_task ?a1)(?q := map_option (\<lambda>r. r\<lparr>tk_status := payload_task_status ?pay\<rparr>) (app_task ?a1 ?q)) = app_task ?a1"
    by (simp add: t1 fun_eq_iff option.map_comp comp_def)
  have books: "app_pending_tasks ?a2 = app_pending_tasks ?a1" "app_core ?a2 = app_core ?a1" "app_task ?a2 = app_task ?a1"
    using deliver_books [OF h1, of ev "ww_stored w" "ww_retained w" task ?pay] unfolding Let_def again by blast+
  have p: "process_task ev w (\<lambda>n x. x) task a =
      ?a2\<lparr>app_pending_tasks := app_pending_tasks ?a2 - 1, app_work := release (app_work ?a2) ?i\<rparr>"
    unfolding process_task_alt by (subst b) (simp add: Let_def)
  have "app_task (process_task ev w (\<lambda>n x. x) task a) = app_task ?a2" by (simp add: p app_task_def)
  moreover have "hm_get (held (release l ?i)) ?i = None" for l by (simp add: release_def hm.get_del)
  ultimately show ?thesis using late by (simp add: Let_def p books f1 t1) blast
qed


text \<open>
  Property C38. The status is written before the result: when the store takes the status of a computed task
  but refuses the row of the outbox, the task ends as \<open>completed\<close>, its slot in the queue and the ledger
  is given back, and its result is neither stored nor sent.
\<close>

theorem completed_without_result:
  assumes "st_fault (app_storage a) (st_calls (app_storage a)) = None"
    and "st_fault (app_storage a) (Suc (st_calls (app_storage a))) = Some e"
    and "is_ok (fst (compute_outcome w (\<lambda>n x. x) task a))" "app_task a (task_slot task) = Some r"
    and "result_row a (task_slot task) = None"
  shows "let a' = process_task ev w (\<lambda>n x. x) task a in
    app_task a' (task_slot task) = Some (r\<lparr>tk_status := ''completed''\<rparr>) \<and> result_row a' (task_slot task) = None \<and>
    received a' = received a \<and> app_pending_tasks a' = app_pending_tasks a - 1"
proof -
  let ?i = "cr_task_id (ctk_request task)" and ?p = "ctk_orchestrator_pubkey task"
  let ?a0 = "a\<lparr>app_work := start (app_work a) ?i (ww_started w)\<rparr>"
  let ?out = "fst (compute_outcome w (\<lambda>n x. x) task a)"
  obtain c m where c: "compute_outcome w (\<lambda>n x. x) task ?a0 = (?out, ?a0\<lparr>app_core := c, app_metrics := m\<rparr>)"
    using compute_outcome_core [where w = w and task = task and x = a and y = ?a0] by auto
  let ?s = "snd (update_status ?p ?i ''completed'' (app_storage a))"
  let ?a1 = "a\<lparr>app_work := start (app_work a) ?i (ww_started w), app_core := c,
     app_metrics := record_task_status ''success'' m, app_storage := ?s\<rparr>"
  have b: "before_sink w (\<lambda>n x. x) task a = (?out, ?a1)"
    using assms(3) by (simp add: before_sink_def c on_storage_eq count_metric_def)
  have s: "st_fault ?s (st_calls ?s) = Some e" "is_ok (fst (update_status ?p ?i ''completed'' (app_storage a)))"
    using assms(1,2) by (simp_all add: update_status_def execute_ok)
  then have up: "upsert_pending_result now ?p ?i body ?s = (Inl e, ?s\<lparr>st_calls := Suc (st_calls ?s)\<rparr>)" for now body
    by (simp add: upsert_pending_result_def execute_def Let_def)
  have d: "\<exists>n. snd (deliver_result ev (\<lambda>x. x) t1 t2 task pay ?a1) = ?a1\<lparr>app_storage := ?s\<lparr>st_calls := n\<rparr>\<rparr>" for t1 t2 pay
    by (cases "build_result_wire_body (ev_writers ev) task pay (peer_id (app_config a))")
      (auto simp: deliver_result_def Let_def on_storage_eq up intro: exI [of _ "st_calls ?s"])
  obtain n where n: "snd (deliver_result ev (\<lambda>x. x) (ww_stored w) (ww_retained w) task (outcome_payload ?i ?out) ?a1)
      = ?a1\<lparr>app_storage := ?s\<lparr>st_calls := n\<rparr>\<rparr>" using d by blast
  show ?thesis
    unfolding process_task_alt b using assms(4,5) s(2)
    by (simp add: n Let_def app_task_def result_row_def received_def table_simps task_slot_def)
qed


text \<open>A core that computes, a task with a row, and a store that refuses its second statement.\<close>

definition demo_response :: compute_response where
  "demo_response = \<lparr>rsp_task_id = ''s1'', rsp_status = ''success'', rsp_result_type = [],
     rsp_complex_result = \<lparr>cx_real = Fin False 1, cx_imag = Fin False 0\<rparr>, rsp_sample_result = None, rsp_expectation_result = None,
     rsp_proof = demo_proof, rsp_work_report = None\<rparr>"

definition demo_world :: work_world where
  "demo_world = \<lparr>ww_started = 0, ww_now_ms = Some 0, ww_begin = 0, ww_end = 5000000,
     ww_core = (\<lambda>_. \<lparr>cl_at_gate = 0, cl_after_probe = 0, cl_sent = 0, cl_answered = 0,
       cl_health = Response 200 ''OK'' (Inr ()) None, cl_post = (\<lambda>_. Response 200 ''OK'' (Inr demo_response) None)\<rparr>),
     ww_stored = Some 5, ww_retained = Some 6\<rparr>"

definition demo_row :: task_row where
  "demo_row = \<lparr>tk_id = 1, tk_pubkey = ''o'', tk_task_id = ''s1'', tk_payload = ''task'', tk_status = ''pending'', tk_created_at = 1\<rparr>"

definition demo_worker_app :: "(nat \<Rightarrow> err option) \<Rightarrow> nat app" where
  "demo_worker_app fault = demo_app\<lparr>app_queue := [demo_task ''s1''], app_pending_tasks := 1,
     app_storage := (new_storage fault)\<lparr>st_tasks := \<lparr>tb_rows = [demo_row], tb_seq = 1\<rparr>\<rparr>\<rparr>"

lemma demo_writers_ok: "writers_ok (ev_writers demo_outbox_env)"
  by (simp add: writers_ok_def demo_outbox_env_def demo_env_def)

lemma demo_worker_simps:
  "task_slot (demo_task ''s1'') = (''o'', ''s1'')" "app_task (demo_worker_app f) (''o'', ''s1'') = Some demo_row"
  "result_row (demo_worker_app f) k = None" "app_queue (demo_worker_app f) = [demo_task ''s1'']"
  "healthy_db (demo_worker_app (\<lambda>n. None))" "app_pending_tasks (demo_worker_app f) = 1"
  "st_calls (app_storage (demo_worker_app f)) = 0" "st_fault (app_storage (demo_worker_app f)) = f"
  by (simp_all add: demo_worker_app_def task_slot_def demo_task_def app_task_def task_at_def tb_find_def task_key_def demo_row_def
      result_row_def results_map_def outbox_body_def new_storage_def empty_table_def healthy_db_def)

lemma demo_outcome: "is_ok (fst (compute_outcome demo_world (\<lambda>n x. x) (demo_task ''s1'') (demo_worker_app f)))"
proof -
  have c: "cc_unhealthy_until demo_client = None" by (simp add: demo_client_def new_core_client_def Let_def)
  have d: "\<exists>c' m'. dispatch_task (ww_core demo_world r) t demo_client m = (Inr demo_response, c', m')" for r t m
    by (simp add: dispatch_task_def demo_world_def ensure_ready_def is_in_backoff_def probe_health_def http_is_success_def c)
  have "app_core (demo_worker_app f) = demo_client" by (simp add: demo_worker_app_def demo_app_def)
  then have "is_ok (fst (execute_compute demo_world r t (demo_worker_app f)))" for r t
    using d [of r t "app_metrics (demo_worker_app f)"] by (auto simp: execute_compute_def)
  then show ?thesis
    by (simp add: compute_outcome_def demo_task_def compute_timeout_def Let_def split_def)
qed


theorem process_task_accounts_witness:
  "app_task (process_task demo_outbox_env demo_world (\<lambda>n x. x) (demo_task ''s1'') (demo_worker_app (\<lambda>n. None))) (''o'', ''s1'')
     = Some (demo_row\<lparr>tk_status := ''completed''\<rparr>)"
  using process_task_accounts [OF demo_worker_simps(5), of demo_outbox_env demo_world "demo_task ''s1''"] demo_outcome
  by (simp add: demo_worker_simps Let_def)

theorem completed_without_result_witness:
  "let a' = process_task demo_outbox_env demo_world (\<lambda>n x. x) (demo_task ''s1'')
       (demo_worker_app (\<lambda>n. if n = 1 then Some ''disk full'' else None)) in
   app_task a' (''o'', ''s1'') = Some (demo_row\<lparr>tk_status := ''completed''\<rparr>) \<and> result_row a' (''o'', ''s1'') = None"
  using completed_without_result [of "demo_worker_app (\<lambda>n. if n = 1 then Some ''disk full'' else None)" "''disk full''" demo_world
      "demo_task ''s1''" demo_row demo_outbox_env] demo_outcome
  by (simp add: demo_worker_simps Let_def)

end
