(* ===== verification/Bid_Client.thy ===== *)
theory Bid_Client
  imports App_State Bid
begin

text \<open>
  Bidding: the client for task bids (\<open>src/src/transport/p2p/bid_client.rs\<close>), the one for PCS open calls
  (\<open>pcs_bid_client.rs\<close>), and the cached location a bid carries (\<open>src/src/infra/geoip.rs\<close>). The clocks, the
  answers of the location services and the packages for hashing, signing and JSON are in \<open>bid_world\<close>.
\<close>

definition PROTOCOL_BID :: string where "PROTOCOL_BID = ''/wqc/tensor-net/1.0.0''"
definition PROTOCOL_PCS_BID :: string where "PROTOCOL_PCS_BID = ''/wqc/tensor-pcs-bid/1.0.0''"

section \<open>Location\<close>

definition resolve_node_location ::
    "nat option \<Rightarrow> geo_answers \<Rightarrow> nat option \<Rightarrow> storage \<Rightarrow> geo_info option \<times> storage" where
  "resolve_node_location now answers later s =
     (case get_cached_geo now s of
        (Inr (Some cached), s) \<Rightarrow> (Some cached, s)
      | (_, s) \<Rightarrow>
          (case fetch_geolocation answers of
             None \<Rightarrow> (None, s)
           | Some fresh \<Rightarrow> (Some fresh, snd (save_geo_cache later fresh s))))"

section \<open>Attempts\<close>

definition MAX_ATTEMPTS :: nat where "MAX_ATTEMPTS = 3"

text \<open>
  The loop of both clients: it stops at the first success (\<open>None\<close>) and otherwise keeps the last error.
\<close>

fun attempts :: "('s \<Rightarrow> (err + unit) \<times> 's) \<Rightarrow> nat \<Rightarrow> err option \<Rightarrow> 's \<Rightarrow> err option \<times> 's" where
  "attempts send 0 last_err s = (last_err, s)"
| "attempts send (Suc n) last_err s =
     (case send s of
        (Inr _, s) \<Rightarrow> (None, s)
      | (Inl e, s) \<Rightarrow> attempts send n (Some e) s)"

section \<open>Task bids\<close>

record 'k bid_world =
  bw_now :: instant
  bw_geo_read :: "nat option"
  bw_geo :: geo_answers
  bw_geo_saved :: "nat option"
  bw_metrics_at :: instant
  bw_clock :: "nat \<Rightarrow> instant"
  bw_time :: "nat option"
  bw_sha256 :: "bytes \<Rightarrow> bytes"
  bw_sign :: "'k \<Rightarrow> bytes \<Rightarrow> bytes"
  bw_bid_json :: "metrics_summary bid \<Rightarrow> err + bytes"
  bw_pcs_bid_json :: "pcs_bid_message \<Rightarrow> err + bytes"

definition bid_policy :: "'k node_config \<Rightarrow> tn_rates \<Rightarrow> budget_policy" where
  "bid_policy config r =
     \<lparr>rates = r, overhead_secs = work_overhead_secs config, margin = work_budget_margin config,
      own_timeout_secs = compute_timeout_secs config, unknown_secs = work_unknown_secs config\<rparr>"

text \<open>The decision on announced work: \<open>False\<close> ends the submission without a bid.\<close>

definition admit_work :: "'k bid_world \<Rightarrow> 'k node_config \<Rightarrow> task_announcement \<Rightarrow> 'k app \<Rightarrow> bool \<times> 'k app" where
  "admit_work w config announcement a =
     (case (an_work announcement, conf_tn_rates config) of
        (Some wk, Some r) \<Rightarrow>
          (case decide (app_work a) (an_task_id announcement) wk
                  (case an_deadline_secs announcement of Some d \<Rightarrow> d | None \<Rightarrow> 0) (bid_policy config r) (bw_now w) of
             (Inl _, l) \<Rightarrow> (False, a\<lparr>app_work := l\<rparr>)
           | (Inr _, l) \<Rightarrow> (True, a\<lparr>app_work := l\<rparr>))
      | _ \<Rightarrow> (True, a))"

text \<open>\<open>None\<close>: mining does not end (a clock that stands still).\<close>

definition submit_bid ::
    "app_env \<Rightarrow> 'k bid_world \<Rightarrow> 'k node_config \<Rightarrow> task_announcement \<Rightarrow> string \<Rightarrow> 'k app \<Rightarrow> ((err + unit) \<times> 'k app) option" where
  "submit_bid ev w config announcement orchestrator a =
     (let supported_features = node_features (app_supported_gates a) (conf_tn_rates config \<noteq> None) in
      if \<not> should_bid_on announcement config supported_features then Some (Inr (), a)
      else case admit_work w config announcement a of
        (False, a) \<Rightarrow> Some (Inr (), a)
      | (True, a) \<Rightarrow>
          (let current_load = (ucast (app_pending_tasks a) :: u32) in
           case on_storage (resolve_node_location (bw_geo_read w) (bw_geo w) (bw_geo_saved w)) a of (location, a) \<Rightarrow>
           case on_storage (snapshot_for_bid (bw_metrics_at w) (app_pending_tasks a) (app_metrics a)) a of (summary, a) \<Rightarrow>
             (case build_signed_bid (bw_sha256 w) (bw_sign w) (bw_clock w) (bw_time w) announcement config current_load
                     supported_features location (Some summary) of
                None \<Rightarrow> None
              | Some None \<Rightarrow> Some (Inl ''failed to mine lottery proof within time window'', a)
              | Some (Some signed_bid) \<Rightarrow>
                  (case bw_bid_json w signed_bid of
                     Inl e \<Rightarrow> Some (Inl e, a)
                   | Inr payload \<Rightarrow>
                       (case attempts (on_network (write_outbound_stream_expect_ack (ev_parse_json ev) (ev_lossy ev) orchestrator
                                PROTOCOL_BID payload)) MAX_ATTEMPTS None a of
                          (Some e, a) \<Rightarrow> Some (Inl e, a)
                        | (None, a) \<Rightarrow> Some (Inr (), a))))))"

section \<open>Bids on open calls\<close>

definition submit_pcs_open_call_bid ::
    "app_env \<Rightarrow> 'k bid_world \<Rightarrow> 'k node_config \<Rightarrow> pcs_open_call \<Rightarrow> string \<Rightarrow> 'k app \<Rightarrow> (err + unit) \<times> 'k app" where
  "submit_pcs_open_call_bid ev w config open_call orchestrator a =
     (let message = build_signed_pcs_bid (ev_b64 ev) (bw_sign w (signing_key config)) (bw_time w) open_call (peer_id config) in
      if \<not> is_spill_policy (bm_bid message) then (Inl ''pcs open-call bid must declare pcs_memory_policy=spill'', a)
      else case bw_pcs_bid_json w message of
        Inl e \<Rightarrow> (Inl e, a)
      | Inr payload \<Rightarrow>
          (case attempts (on_network (write_outbound_stream orchestrator PROTOCOL_PCS_BID payload)) MAX_ATTEMPTS
                  (Some ''pcs bid submit failed'') a of
             (None, a) \<Rightarrow> (Inr (), a)
           | (Some e, a) \<Rightarrow> (Inl e, a)))"

section \<open>Lemmas\<close>

text \<open>An attempt loop calls the sender at most as often as allowed, and reports success only after a success.\<close>

lemma attempts_induct:
  assumes "P s" "\<And>x. P x \<Longrightarrow> P (snd (send x))"
  shows "P (snd (attempts send n e s))"
  using assms(1)
proof (induction n arbitrary: e s)
  case (Suc n)
  then show ?case using assms(2) [OF Suc.prems] by (auto split: prod.splits sum.splits)
qed simp

lemma attempts_success:
  assumes "attempts send n e s = (None, s')" "e \<noteq> None \<or> 0 < n"
  shows "\<exists>x. send x = (Inr (), s')"
  using assms by (induction send n e s rule: attempts.induct) (auto split: prod.splits sum.splits)

text \<open>An attempt loop opens at most as many streams as it has attempts.\<close>

lemma attempts_calls:
  assumes "\<And>x. nw_calls (app_network (snd (send x))) \<le> Suc (nw_calls (app_network x))"
  shows "nw_calls (app_network (snd (attempts send n e s))) \<le> nw_calls (app_network s) + n"
proof (induction n arbitrary: e s)
  case (Suc n)
  obtain r s1 where s1: "send s = (r, s1)" by fastforce
  then have "nw_calls (app_network s1) \<le> Suc (nw_calls (app_network s))" using assms [of s] by simp
  moreover have "nw_calls (app_network (snd (attempts send n e s1))) \<le> nw_calls (app_network s1) + n" for e by (rule Suc.IH)
  ultimately have "nw_calls (app_network (snd (attempts send n e s1))) \<le> Suc (nw_calls (app_network s) + n)" for e
    by (metis add_Suc add_le_mono1 le_trans)
  then show ?case using s1 \<open>nw_calls (app_network s1) \<le> _\<close> by (cases r) auto
qed simp

text \<open>What sending changes: the network only, and only by the message.\<close>

definition sends_only :: "string \<times> string \<times> bytes \<Rightarrow> 'k app \<Rightarrow> 'k app \<Rightarrow> bool" where
  "sends_only msg x y \<longleftrightarrow> y = x\<lparr>app_network := app_network y\<rparr> \<and> received y \<subseteq> insert msg (received x)"

lemma sends_only_trans: "sends_only msg x y \<Longrightarrow> sends_only msg y z \<Longrightarrow> sends_only msg x z"
proof -
  assume xy: "sends_only msg x y" and yz: "sends_only msg y z"
  have "z = (x\<lparr>app_network := app_network y\<rparr>)\<lparr>app_network := app_network z\<rparr>"
    using xy yz unfolding sends_only_def by metis
  then show ?thesis using xy yz by (auto simp: sends_only_def)
qed

lemma sends_only_refl: "sends_only msg x x" by (auto simp: sends_only_def)

lemma ack_sends_only: "sends_only (peer, pr, b) x (snd (on_network (write_outbound_stream_expect_ack ps lo peer pr b) x))"
  by (auto simp: sends_only_def on_network_def write_outbound_stream_expect_ack_def next_answer_def deliver_bytes_def received_def
      split: stream_answer.split)

lemma ack_answers:
  "nw_answer (app_network (snd (on_network (write_outbound_stream_expect_ack ps lo peer pr b) x))) = nw_answer (app_network x)"
  by (auto simp: on_network_def write_outbound_stream_expect_ack_def next_answer_def deliver_bytes_def split: stream_answer.split)

lemma ack_answered:
  assumes "on_network (write_outbound_stream_expect_ack ps lo peer pr b) x = (Inr (), y)"
  shows "\<exists>n reply. nw_answer (app_network x) n = Answered reply \<and> check_ack ps lo pr reply = Inr ()"
  using assms
  by (auto simp: on_network_def write_outbound_stream_expect_ack_def next_answer_def split: stream_answer.splits)

lemma write_sends_only: "sends_only (peer, pr, b) x (snd (on_network (write_outbound_stream peer pr b) x))"
  by (auto simp: sends_only_def on_network_def write_outbound_stream_def next_answer_def deliver_bytes_def received_def
      split: stream_answer.split)

lemma attempts_sends_only:
  assumes "\<And>x. sends_only msg x (snd (send x))" shows "sends_only msg x (snd (attempts send n e x))"
  by (rule attempts_induct [where P = "sends_only msg x"]) (auto simp: sends_only_refl intro: sends_only_trans assms)


section \<open>Properties\<close>



definition demo_bid_world :: "nat bid_world" where
  "demo_bid_world = \<lparr>bw_now = 0, bw_geo_read = Some 10,
     bw_geo = \<lparr>ans_ip_api = None, ans_free_ip_api = None, ans_ipapi_co = None\<rparr>, bw_geo_saved = Some 10, bw_metrics_at = 0,
     bw_clock = (\<lambda>i. i * from_secs 6), bw_time = Some 1700000000, bw_sha256 = (\<lambda>b. [0, 5]), bw_sign = (\<lambda>k p. p),
     bw_bid_json = (\<lambda>b. Inr [7]), bw_pcs_bid_json = (\<lambda>b. Inr [8])\<rparr>"

definition demo_free_announcement :: task_announcement where
  "demo_free_announcement = demo_announcement\<lparr>an_required_features := 0, an_bid_difficulty := 0, an_work := None\<rparr>"

lemma demo_bid_steps:
  "node_features (app_supported_gates demo_app) (conf_tn_rates (app_config demo_app) \<noteq> None) = node_features [''H''] False"
  "should_bid_on demo_free_announcement (app_config demo_app) (node_features [''H''] False)"
  "admit_work demo_bid_world (app_config demo_app) demo_free_announcement demo_app = (True, demo_app)"
proof -
  have f: "node_features [''H''] False = 1"
    by (simp add: node_features_def features_from_gates_def apply_gate_feature_def feature_consts)
  show "node_features (app_supported_gates demo_app) (conf_tn_rates (app_config demo_app) \<noteq> None) = node_features [''H''] False"
    by (simp add: demo_app_def demo_config_def)
  show "should_bid_on demo_free_announcement (app_config demo_app) (node_features [''H''] False)"
    unfolding f by (simp add: should_bid_on_def supports_required_features_def demo_free_announcement_def demo_app_def demo_config_def
        NETWORK_MIN_QUBITS_def)
  show "admit_work demo_bid_world (app_config demo_app) demo_free_announcement demo_app = (True, demo_app)"
    by (simp add: admit_work_def demo_free_announcement_def)
qed

lemma demo_bid_built:
  "\<exists>b. build_signed_bid (bw_sha256 demo_bid_world) (bw_sign demo_bid_world) (bw_clock demo_bid_world) (bw_time demo_bid_world)
     demo_free_announcement (app_config demo_app) load feat location sm = Some (Some b)"
  by (simp add: build_signed_bid_def demo_app_def demo_config_def demo_free_announcement_def demo_announcement_def mine_lottery_def
      demo_bid_world_def Let_def)

lemma demo_bid_sent:
  "\<exists>a'. submit_bid (demo_env (demo_task ''s1'') (demo_job False None)) demo_bid_world (app_config demo_app) demo_free_announcement
     ''orch'' demo_app = Some (Inr (), a') \<and> (''orch'', PROTOCOL_BID, [7]) \<in> received a'"
proof -
  obtain loc a1 where a1: "on_storage (resolve_node_location (bw_geo_read demo_bid_world) (bw_geo demo_bid_world)
      (bw_geo_saved demo_bid_world)) demo_app = (loc, a1)" by fastforce
  obtain sm a2 where a2: "on_storage (snapshot_for_bid (bw_metrics_at demo_bid_world) (app_pending_tasks a1) (app_metrics a1)) a1
      = (sm, a2)" by fastforce
  have n: "app_network a2 = \<lparr>nw_calls = 0, nw_answer = (\<lambda>n. Answered []), nw_received = []\<rparr>"
    using a1 a2 by (auto simp: on_storage_eq demo_app_def)
  obtain b where b: "build_signed_bid (bw_sha256 demo_bid_world) (bw_sign demo_bid_world) (bw_clock demo_bid_world) (bw_time demo_bid_world)
      demo_free_announcement (app_config demo_app) (ucast (app_pending_tasks demo_app)) (node_features [''H''] False) loc (Some sm) = Some (Some b)"
    using demo_bid_built by blast
  have json: "bw_bid_json demo_bid_world b = Inr [7]" by (simp add: demo_bid_world_def)
  show ?thesis
    unfolding submit_bid_def Let_def demo_bid_steps(1)
    by (simp add: demo_bid_steps(2,3) a1 a2 b json MAX_ATTEMPTS_def numeral_3_eq_3 on_network_def n
        write_outbound_stream_expect_ack_def next_answer_def check_ack_def demo_env_def deliver_bytes_def received_def)
qed


end
