(* ===== verification/Handlers.thy ===== *)
theory Handlers
  imports Bid_Client Pcs_Outbox Accept_Task
begin

text \<open>
  The handlers of inbound streams: announcements (\<open>src/src/transport/p2p/announce_handler.rs\<close>), dispatches
  (\<open>dispatch_handler.rs\<close>), requests for a PCS bundle (\<open>pcs_request_handler.rs\<close>) and PCS open calls
  (\<open>pcs_open_handler.rs\<close>). A stream is the peer that opened it and what reading it to the end gives. One
  iteration of each accept loop is modelled; the JSON readers, the signature package and the number
  formats are in \<open>peer_env\<close>.
\<close>

record ('s, 'v) peer_env =
  pe_crypto :: "('s, 'v) crypto"
  pe_ryu :: "f64 \<Rightarrow> string"
  pe_tree :: "contraction_tree_wire \<Rightarrow> err + bytes"
  pe_announcement :: "bytes \<Rightarrow> err + task_announcement_message"
  pe_dispatch :: "bytes \<Rightarrow> err + task_dispatch_message"
  pe_pcs_request :: "bytes \<Rightarrow> err + pcs_request_message"
  pe_open_call :: "bytes \<Rightarrow> err + pcs_open_call_message"

definition required_key :: "'k node_config \<Rightarrow> err + string" where
  "required_key config =
     (case orchestrator_public_key config of Some k \<Rightarrow> Inr k | None \<Rightarrow> Inl ''orchestrator public key not configured'')"

section \<open>Announcements\<close>

definition read_announcement :: "('s, 'v) peer_env \<Rightarrow> 'k node_config \<Rightarrow> err + bytes \<Rightarrow> err + task_announcement" where
  "read_announcement pe config stream =
     and_then stream (\<lambda>payload.
     and_then (required_key config) (\<lambda>key.
       map_err (\<lambda>e. ''announcement rejected: '' @ e) (parse_signed_announcement (pe_crypto pe) (pe_announcement pe) payload key)))"

definition handle_announce_stream ::
    "('s, 'v) peer_env \<Rightarrow> app_env \<Rightarrow> 'k bid_world \<Rightarrow> 'k node_config \<Rightarrow> string \<Rightarrow> err + bytes \<Rightarrow> 'k app \<Rightarrow> ((err + unit) \<times> 'k app) option" where
  "handle_announce_stream pe ev w config orchestrator stream a =
     (case read_announcement pe config stream of
        Inl e \<Rightarrow> Some (Inl e, a)
      | Inr announcement \<Rightarrow> submit_bid ev w config announcement orchestrator a)"

definition spawn_announce_handler ::
    "('s, 'v) peer_env \<Rightarrow> app_env \<Rightarrow> 'k bid_world \<Rightarrow> 'k node_config \<Rightarrow> string \<Rightarrow> string \<times> (err + bytes) \<Rightarrow> 'k app \<Rightarrow> 'k app option" where
  "spawn_announce_handler pe ev w config orchestrator incoming a =
     (case incoming of (peer, stream) \<Rightarrow>
        if peer \<noteq> orchestrator then Some a
        else map_option snd (handle_announce_stream pe ev w config orchestrator stream a))"

section \<open>Dispatches\<close>

definition read_dispatch :: "('s, 'v) peer_env \<Rightarrow> 'k node_config \<Rightarrow> err + bytes \<Rightarrow> err + sub_task \<times> string" where
  "read_dispatch pe config stream =
     and_then stream (\<lambda>payload.
     and_then (pe_dispatch pe payload) (\<lambda>message.
     and_then (required_key config) (\<lambda>key.
     and_then (map_err (\<lambda>e. ''dispatch rejected: '' @ e)
         (verify_dispatch_signature (pe_crypto pe) (pe_ryu pe) (pe_tree pe) (dm_sub_task message) (dm_signature message) key)) (\<lambda>_.
       Inr (dm_sub_task message, key)))))"

text \<open>\<open>None\<close>: the handler waits for room in the queue, or validation does not end.\<close>

definition handle_dispatch_stream ::
    "('s, 'v) peer_env \<Rightarrow> app_env \<Rightarrow> ('k app \<Rightarrow> 'k app) \<Rightarrow> nat option \<Rightarrow> nat option \<Rightarrow> 'k node_config \<Rightarrow> err + bytes \<Rightarrow> 'k app
      \<Rightarrow> (err + unit) option \<times> 'k app" where
  "handle_dispatch_stream pe ev others now_ms now config stream a =
     (case read_dispatch pe config stream of
        Inl e \<Rightarrow> (Some (Inl e), a)
      | Inr (sub_task, key) \<Rightarrow>
          (case accept_compute_task ev others now_ms now (into_compute_request sub_task (peer_id config)) key
                  (budget_of (app_work a) (st_parent_task_id sub_task)) a of
             (Some (Inl e), a) \<Rightarrow> (Some (Inl (show_accept_error e)), a)
           | (Some (Inr _), a) \<Rightarrow> (Some (Inr ()), a)
           | (None, a) \<Rightarrow> (None, a)))"

definition spawn_dispatch_handler ::
    "('s, 'v) peer_env \<Rightarrow> app_env \<Rightarrow> ('k app \<Rightarrow> 'k app) \<Rightarrow> nat option \<Rightarrow> nat option \<Rightarrow> 'k node_config \<Rightarrow> string
      \<Rightarrow> string \<times> (err + bytes) \<Rightarrow> 'k app \<Rightarrow> 'k app" where
  "spawn_dispatch_handler pe ev others now_ms now config orchestrator incoming a =
     (case incoming of (peer, stream) \<Rightarrow>
        if peer \<noteq> orchestrator then a else snd (handle_dispatch_stream pe ev others now_ms now config stream a))"

section \<open>Requests for a PCS bundle\<close>

definition read_pcs_request :: "('s, 'v) peer_env \<Rightarrow> 'k node_config \<Rightarrow> err + bytes \<Rightarrow> err + pcs_request \<times> string" where
  "read_pcs_request pe config stream =
     and_then stream (\<lambda>payload.
     and_then (pe_pcs_request pe payload) (\<lambda>message.
     and_then (required_key config) (\<lambda>key.
     and_then (map_err (\<lambda>e. ''pcs request rejected: '' @ e)
         (verify_pcs_request_signature (pe_crypto pe) (rm_request message) (rm_signature message) key)) (\<lambda>_.
       if pr_node_id (rm_request message) \<noteq> [] \<and> pr_node_id (rm_request message) \<noteq> peer_id config
       then Inl (''pcs request addressed to '' @ pr_node_id (rm_request message) @ '', not this node'')
       else Inr (rm_request message, key)))))"

definition handle_pcs_request_stream ::
    "('s, 'v) peer_env \<Rightarrow> app_env \<Rightarrow> (nat \<Rightarrow> 'k app \<Rightarrow> 'k app) \<Rightarrow> nat option \<Rightarrow> 'k node_config \<Rightarrow> err + bytes \<Rightarrow> 'k app
      \<Rightarrow> (err + unit) \<times> 'k app" where
  "handle_pcs_request_stream pe ev others now config stream a =
     (case read_pcs_request pe config stream of
        Inl e \<Rightarrow> (Inl e, a)
      | Inr (request, key) \<Rightarrow> (Inr (), handle_pcs_request ev others now key request a))"

definition spawn_pcs_request_handler ::
    "('s, 'v) peer_env \<Rightarrow> app_env \<Rightarrow> (nat \<Rightarrow> 'k app \<Rightarrow> 'k app) \<Rightarrow> nat option \<Rightarrow> 'k node_config \<Rightarrow> string
      \<Rightarrow> string \<times> (err + bytes) \<Rightarrow> 'k app \<Rightarrow> 'k app" where
  "spawn_pcs_request_handler pe ev others now config orchestrator incoming a =
     (case incoming of (peer, stream) \<Rightarrow>
        if peer \<noteq> orchestrator then a else snd (handle_pcs_request_stream pe ev others now config stream a))"

section \<open>Open calls\<close>

definition read_open_call :: "('s, 'v) peer_env \<Rightarrow> 'k node_config \<Rightarrow> err + bytes \<Rightarrow> err + pcs_open_call" where
  "read_open_call pe config stream =
     and_then stream (\<lambda>payload.
     and_then (pe_open_call pe payload) (\<lambda>message.
     and_then (required_key config) (\<lambda>key.
     and_then (map_err (\<lambda>e. ''pcs open call rejected: '' @ e)
         (verify_pcs_open_call_signature (pe_crypto pe) (om_open_call message) (om_signature message) key)) (\<lambda>_.
       Inr (om_open_call message)))))"

definition handle_pcs_open_stream ::
    "('s, 'v) peer_env \<Rightarrow> app_env \<Rightarrow> 'k bid_world \<Rightarrow> core_system_info response \<Rightarrow> nat option \<Rightarrow> 'k node_config \<Rightarrow> string \<Rightarrow> err + bytes \<Rightarrow> 'k app
      \<Rightarrow> (err + unit) \<times> 'k app" where
  "handle_pcs_open_stream pe ev w sysinfo now config orchestrator stream a =
     (case read_open_call pe config stream of
        Inl e \<Rightarrow> (Inl e, a)
      | Inr c \<Rightarrow>
          (let core_policy = fetch_core_pcs_memory_policy sysinfo a;
               a = (if is_spill core_policy then cache_open_call c a else a)
           in if \<not> should_bid_open_call config core_policy c now then (Inr (), a)
              else submit_pcs_open_call_bid ev w config c orchestrator a))"

definition spawn_pcs_open_handler ::
    "('s, 'v) peer_env \<Rightarrow> app_env \<Rightarrow> 'k bid_world \<Rightarrow> core_system_info response \<Rightarrow> nat option \<Rightarrow> 'k node_config \<Rightarrow> string
      \<Rightarrow> string \<times> (err + bytes) \<Rightarrow> 'k app \<Rightarrow> 'k app" where
  "spawn_pcs_open_handler pe ev w sysinfo now config orchestrator incoming a =
     (case incoming of (peer, stream) \<Rightarrow>
        if peer \<noteq> orchestrator then a else snd (handle_pcs_open_stream pe ev w sysinfo now config orchestrator stream a))"

section \<open>Lemmas\<close>

lemma required_key_eq: "required_key config = Inr key \<longleftrightarrow> orchestrator_public_key config = Some key"
  by (simp add: required_key_def split: option.split)

lemmas read_simps = and_then_eq_Inr map_err_eq_Inr required_key_eq

lemma read_dispatch_ok:
  "read_dispatch pe config stream = Inr (t, key) \<longleftrightarrow> orchestrator_public_key config = Some key \<and>
     (\<exists>payload m. stream = Inr payload \<and> pe_dispatch pe payload = Inr m \<and> dm_sub_task m = t \<and>
        verify_dispatch_signature (pe_crypto pe) (pe_ryu pe) (pe_tree pe) t (dm_signature m) key = Inr ())"
  by (auto simp: read_dispatch_def read_simps)

text \<open>Accepting a task appends at most the task it prepared.\<close>

lemma hand_over_queue: "app_queue (snd (hand_over t a)) = app_queue a \<or> app_queue (snd (hand_over t a)) = app_queue a @ [t]"
  by (auto simp: hand_over_def Let_def enqueue_def)

lemma store_queue:
  "app_queue (snd (store_and_hand_over ev (\<lambda>a. a) now t a)) = app_queue a \<or>
   app_queue (snd (store_and_hand_over ev (\<lambda>a. a) now t a)) = app_queue a @ [t]"
proof -
  have "app_queue (snd (hand_over t (a\<lparr>app_storage := s\<rparr>))) = app_queue a \<or>
      app_queue (snd (hand_over t (a\<lparr>app_storage := s\<rparr>))) = app_queue a @ [t]" for s
    using hand_over_queue [of t "a\<lparr>app_storage := s\<rparr>"] by simp
  then show ?thesis
    by (simp add: store_and_hand_over_def Let_def on_storage_eq split: sum.split option.split)
qed

lemma accept_queue:
  assumes "app_queue (snd (accept_compute_task ev (\<lambda>a. a) now_ms now request pubkey b a)) \<noteq> app_queue a"
  shows "app_queue (snd (accept_compute_task ev (\<lambda>a. a) now_ms now request pubkey b a)) = app_queue a @ [prepared a now_ms request pubkey b] \<and>
    admissible ev request a"
  using assms store_queue [of ev now "prepared a now_ms request pubkey b" a]
  by (auto simp: accept_compute_task_def admissible_def prepared_def split: if_splits option.splits sum.splits)

section \<open>Properties\<close>

text \<open>
  Property C5. Only the orchestrator moves the node: a stream changes the state only if it was opened by
  the orchestrator's peer, was read to the end, decodes, and carries a signature that verifies under the
  configured key for exactly the decoded message; a request for a bundle must also be
  addressed to this node or to nobody in particular. Any other stream leaves the state as it was.
\<close>

theorem stream_guard:
  "(spawn_announce_handler pe ev bw config orch (peer, stream) a \<noteq> Some a \<longrightarrow>
     peer = orch \<and> (\<exists>payload m key. stream = Inr payload \<and> pe_announcement pe payload = Inr m \<and>
       orchestrator_public_key config = Some key \<and> verify_announcement_message (pe_crypto pe) m key = Inr ())) \<and>
   (spawn_dispatch_handler pe ev others now_ms now config orch (peer, stream) a \<noteq> a \<longrightarrow>
     peer = orch \<and> (\<exists>payload m key. stream = Inr payload \<and> pe_dispatch pe payload = Inr m \<and> orchestrator_public_key config = Some key \<and>
       verify_dispatch_signature (pe_crypto pe) (pe_ryu pe) (pe_tree pe) (dm_sub_task m) (dm_signature m) key = Inr ())) \<and>
   (spawn_pcs_request_handler pe ev others' now config orch (peer, stream) a \<noteq> a \<longrightarrow>
     peer = orch \<and> (\<exists>payload m key. stream = Inr payload \<and> pe_pcs_request pe payload = Inr m \<and> orchestrator_public_key config = Some key \<and>
       verify_pcs_request_signature (pe_crypto pe) (rm_request m) (rm_signature m) key = Inr () \<and>
       (pr_node_id (rm_request m) = [] \<or> pr_node_id (rm_request m) = peer_id config))) \<and>
   (spawn_pcs_open_handler pe ev bw sysinfo now config orch (peer, stream) a \<noteq> a \<longrightarrow>
     peer = orch \<and> (\<exists>payload m key. stream = Inr payload \<and> pe_open_call pe payload = Inr m \<and> orchestrator_public_key config = Some key \<and>
       verify_pcs_open_call_signature (pe_crypto pe) (om_open_call m) (om_signature m) key = Inr ()))"
  (is "?announce \<and> ?dispatch \<and> ?request \<and> ?call")
proof (intro conjI)
  show ?announce
    by (cases "read_announcement pe config stream")
      (auto simp: spawn_announce_handler_def handle_announce_stream_def read_announcement_def parse_signed_announcement_def read_simps
        split: if_splits)
  show ?dispatch
    by (cases "read_dispatch pe config stream")
      (auto simp: spawn_dispatch_handler_def handle_dispatch_stream_def read_dispatch_ok split: if_splits)
  show ?request
    by (cases "read_pcs_request pe config stream")
      (auto simp: spawn_pcs_request_handler_def handle_pcs_request_stream_def read_pcs_request_def read_simps split: if_splits)
  show ?call
    by (cases "read_open_call pe config stream")
      (auto simp: spawn_pcs_open_handler_def handle_pcs_open_stream_def read_open_call_def read_simps split: if_splits)
qed



text \<open>A dispatch of the orchestrator, and the same bytes from another peer.\<close>

definition demo_dispatch_bytes :: bytes where
  "demo_dispatch_bytes = dispatch_bytes exact_text (\<lambda>_. Inl []) demo_sub_task"

definition demo_peer_env :: "(bytes, bytes) peer_env" where
  "demo_peer_env = \<lparr>pe_crypto = demo_crypto {demo_dispatch_bytes}, pe_ryu = exact_text, pe_tree = (\<lambda>_. Inl []),
     pe_announcement = (\<lambda>_. Inl ''no announcement''), pe_dispatch = (\<lambda>_. Inr \<lparr>dm_sub_task = demo_sub_task, dm_signature = []\<rparr>),
     pe_pcs_request = (\<lambda>_. Inl ''no request''), pe_open_call = (\<lambda>_. Inl ''no call'')\<rparr>"

definition demo_keyed_config :: "nat node_config" where
  "demo_keyed_config = demo_config\<lparr>orchestrator_public_key := Some demo_key\<rparr>"

definition demo_handler_env :: app_env where
  "demo_handler_env = demo_env (demo_task ''s1'') (demo_job False None)"

lemma demo_dispatch_serialized: "serialize_dispatch_payload exact_text (\<lambda>_. Inl []) demo_sub_task = Inr demo_dispatch_bytes"
  unfolding demo_dispatch_bytes_def dispatch_bytes_def
  by (simp add: serialize_dispatch_payload_def circuit_signing_json_print dispatch_tail_def demo_sub_task_def)

lemma demo_dispatch_read: "read_dispatch demo_peer_env demo_keyed_config (Inr []) = Inr (demo_sub_task, demo_key)"
  by (simp add: read_dispatch_ok demo_keyed_config_def demo_peer_env_def verify_dispatch_signature_def demo_dispatch_serialized demo_verify)

lemma demo_dispatch_queued:
  "app_queue (spawn_dispatch_handler demo_peer_env demo_handler_env (\<lambda>a. a) (Some 1) (Some 1) demo_keyed_config ''orch'' (''orch'', Inr []) demo_app)
     \<noteq> app_queue demo_app"
  by (simp add: spawn_dispatch_handler_def handle_dispatch_stream_def demo_dispatch_read accept_compute_task_def
      into_compute_request_def demo_sub_task_def demo_app_def demo_config_def compact_qubit_limit_def validate_circuit_logic_def
      store_and_hand_over_def Let_def on_storage_eq load_task_def save_task_def execute_def new_storage_def tb_find_def empty_table_def
      demo_handler_env_def demo_env_def hand_over_def enqueue_def QUEUE_CAPACITY_def)

theorem stream_guard_witness:
  "spawn_dispatch_handler demo_peer_env demo_handler_env (\<lambda>a. a) (Some 1) (Some 1) demo_keyed_config ''orch'' (''other'', Inr []) demo_app = demo_app"
  using stream_guard [of demo_peer_env demo_handler_env demo_bid_world demo_keyed_config "''orch''" "''other''" "Inr []" demo_app "\<lambda>a. a" "Some 1" "Some 1"]
  by auto


end
