(* ===== verification/Host.thy ===== *)
theory Host
  imports Handlers
begin

text \<open>
  The libp2p host (\<open>src/src/transport/p2p/host.rs\<close>): its start, the handling of swarm events and the
  redial timer. The swarm belongs to libp2p: \<open>swarm_lib\<close> has the calls the host makes on it, \<open>swarm_laws\<close>
  what their documentation says of them and \<open>swarm_moves\<close> how the swarm changes by itself when it
  reports an event. Building the swarm (keys, transports, gossip parameters) is left to the package.
\<close>

definition ANNOUNCEMENT_TOPIC :: string where "ANNOUNCEMENT_TOPIC = ''wqc-global-announcements''"
definition PROTOCOL_ANNOUNCE :: string where "PROTOCOL_ANNOUNCE = ''/wqc/task-announce/1.0.0''"
definition PROTOCOL_DISPATCH :: string where "PROTOCOL_DISPATCH = ''/wqc/tensor-dispatch/1.0.0''"
definition PROTOCOL_PCS_REQUEST :: string where "PROTOCOL_PCS_REQUEST = ''/wqc/tensor-pcs-req/1.0.0''"
definition PROTOCOL_PCS_OPEN :: string where "PROTOCOL_PCS_OPEN = ''/wqc/tensor-pcs-open/1.0.0''"

section \<open>Redial delay\<close>

definition BOOTSTRAP_REDIAL_INITIAL :: duration where "BOOTSTRAP_REDIAL_INITIAL = from_secs 1"
definition BOOTSTRAP_REDIAL_MAX :: duration where "BOOTSTRAP_REDIAL_MAX = from_secs 60"

text \<open>\<open>Duration::MAX\<close> and \<open>saturating_mul\<close>; \<open>u32::checked_shl\<close> fails for a shift of the width or more.\<close>

definition DURATION_MAX :: duration where "DURATION_MAX = from_secs (2 ^ 64) - 1"

definition duration_saturating_mul :: "duration \<Rightarrow> u32 \<Rightarrow> duration" where
  "duration_saturating_mul d m = min DURATION_MAX (d * unat m)"

definition checked_shl :: "u32 \<Rightarrow> u32 \<Rightarrow> u32 option" where
  "checked_shl x n = (if n < 32 then Some (push_bit (unat n) x) else None)"

definition bootstrap_redial_delay :: "u32 \<Rightarrow> duration" where
  "bootstrap_redial_delay attempt =
     (let shift = min attempt 16;
          multiplier = (case checked_shl 1 shift of Some m \<Rightarrow> m | None \<Rightarrow> - 1)
      in min (duration_saturating_mul BOOTSTRAP_REDIAL_INITIAL multiplier) BOOTSTRAP_REDIAL_MAX)"

section \<open>State\<close>

record 's swarm_lib =
  sl_accept :: "string \<Rightarrow> 's \<Rightarrow> (err + unit) \<times> 's"
  sl_listen_on :: "string \<Rightarrow> 's \<Rightarrow> (err + unit) \<times> 's"
  sl_dial :: "string \<Rightarrow> 's \<Rightarrow> (err + unit) \<times> 's"
  sl_connected_peers :: "'s \<Rightarrow> string list"
  sl_is_connected :: "string \<Rightarrow> 's \<Rightarrow> bool"
  sl_add_explicit_peer :: "string \<Rightarrow> 's \<Rightarrow> 's"
  sl_subscribe :: "string \<Rightarrow> 's \<Rightarrow> (err + bool) \<times> 's"
  sl_unsubscribe :: "string \<Rightarrow> 's \<Rightarrow> bool \<times> 's"
  sl_topics :: "'s \<Rightarrow> string set"

text \<open>
  The local variables of \<open>run\<close>. \<open>h_redial_sleep\<close> is the delay of the pending timer; \<open>h_spawned_bids\<close> holds
  the bids handed to \<open>tokio::spawn\<close> that have not run.
\<close>

record ('s, 'k) host =
  h_swarm :: 's
  h_redial_attempt :: u32
  h_redial_sleep :: "duration option"
  h_orch_gossip_live :: bool
  h_spawned_bids :: "task_announcement list"
  h_app :: "'k app"

datatype swarm_event =
    Peer_subscribed string string
  | Gossip_message string bytes
  | New_listen_addr string
  | Connection_established string
  | Connection_closed string
  | Outgoing_connection_error "string option" err
  | Other_event

section \<open>Dialling and subscribing\<close>

definition parse_bootstrap_addrs :: "(string \<Rightarrow> err + string) \<Rightarrow> string list \<Rightarrow> string list" where
  "parse_bootstrap_addrs parse peers =
     List.map_filter (\<lambda>peer. case parse peer of Inr addr \<Rightarrow> Some addr | Inl _ \<Rightarrow> None) peers"

definition dial_bootstrap_peers :: "'s swarm_lib \<Rightarrow> string list \<Rightarrow> 's \<Rightarrow> 's" where
  "dial_bootstrap_peers lib addrs s = fold (\<lambda>addr s. snd (sl_dial lib addr s)) addrs s"

definition ensure_orchestrator_gossip_subscription :: "'s swarm_lib \<Rightarrow> string \<Rightarrow> ('s, 'k) host \<Rightarrow> ('s, 'k) host" where
  "ensure_orchestrator_gossip_subscription lib orchestrator h =
     (let h = h\<lparr>h_swarm := sl_add_explicit_peer lib orchestrator (h_swarm h)\<rparr> in
      if h_orch_gossip_live h then h
      else case sl_subscribe lib ANNOUNCEMENT_TOPIC (snd (sl_unsubscribe lib ANNOUNCEMENT_TOPIC (h_swarm h))) of
        (Inr True, s) \<Rightarrow> h\<lparr>h_swarm := s, h_orch_gossip_live := True\<rparr>
      | (Inr False, s) \<Rightarrow> h\<lparr>h_swarm := s\<rparr>
      | (Inl _, s) \<Rightarrow> h\<lparr>h_swarm := s\<rparr>)"

definition unsubscribe_orchestrator_announcements :: "'s swarm_lib \<Rightarrow> 's \<Rightarrow> 's" where
  "unsubscribe_orchestrator_announcements lib s = snd (sl_unsubscribe lib ANNOUNCEMENT_TOPIC s)"

definition schedule_bootstrap_redial :: "('s, 'k) host \<Rightarrow> ('s, 'k) host" where
  "schedule_bootstrap_redial h = h\<lparr>h_redial_sleep := Some (bootstrap_redial_delay (h_redial_attempt h))\<rparr>"

section \<open>Events\<close>

definition gossip_message :: "('c, 'v) peer_env \<Rightarrow> 'k node_config \<Rightarrow> bytes \<Rightarrow> ('s, 'k) host \<Rightarrow> ('s, 'k) host" where
  "gossip_message pe config data h =
     (case orchestrator_public_key config of
        None \<Rightarrow> h
      | Some key \<Rightarrow>
          (case parse_signed_announcement (pe_crypto pe) (pe_announcement pe) data key of
             Inr announcement \<Rightarrow> h\<lparr>h_spawned_bids := h_spawned_bids h @ [announcement]\<rparr>
           | Inl _ \<Rightarrow> h))"

definition count_peers :: "'s swarm_lib \<Rightarrow> ('s, 'k) host \<Rightarrow> ('s, 'k) host" where
  "count_peers lib h =
     h\<lparr>h_app := count_metric (set_connected_peers (of_nat (length (sl_connected_peers lib (h_swarm h))))) (h_app h)\<rparr>"

definition connection_established :: "'s swarm_lib \<Rightarrow> string \<Rightarrow> string \<Rightarrow> ('s, 'k) host \<Rightarrow> ('s, 'k) host" where
  "connection_established lib orchestrator peer h =
     (let h = count_peers lib h in
      if peer = orchestrator
      then ensure_orchestrator_gossip_subscription lib peer
             (h\<lparr>h_redial_attempt := 0, h_redial_sleep := None,
                h_app := count_metric (set_orchestrator_connected True) (h_app h)\<rparr>)
      else h)"

definition connection_closed :: "'s swarm_lib \<Rightarrow> string \<Rightarrow> string \<Rightarrow> ('s, 'k) host \<Rightarrow> ('s, 'k) host" where
  "connection_closed lib orchestrator peer h =
     (let h = count_peers lib h in
      if peer = orchestrator
      then (let still_connected = sl_is_connected lib orchestrator (h_swarm h);
                h = h\<lparr>h_app := count_metric (set_orchestrator_connected still_connected) (h_app h)\<rparr>;
                h = (if still_connected then h
                     else h\<lparr>h_swarm := unsubscribe_orchestrator_announcements lib (h_swarm h), h_orch_gossip_live := False\<rparr>)
            in schedule_bootstrap_redial h)
      else h)"

fun handle_swarm_event ::
    "'s swarm_lib \<Rightarrow> ('c, 'v) peer_env \<Rightarrow> 'k node_config \<Rightarrow> string \<Rightarrow> swarm_event \<Rightarrow> ('s, 'k) host \<Rightarrow> ('s, 'k) host" where
  "handle_swarm_event lib pe config orchestrator (Peer_subscribed peer t) h = h"
| "handle_swarm_event lib pe config orchestrator (Gossip_message t data) h = gossip_message pe config data h"
| "handle_swarm_event lib pe config orchestrator (New_listen_addr address) h = h"
| "handle_swarm_event lib pe config orchestrator (Connection_established peer) h = connection_established lib orchestrator peer h"
| "handle_swarm_event lib pe config orchestrator (Connection_closed peer) h = connection_closed lib orchestrator peer h"
| "handle_swarm_event lib pe config orchestrator (Outgoing_connection_error peer e) h =
     (if peer = Some orchestrator then schedule_bootstrap_redial h else h)"
| "handle_swarm_event lib pe config orchestrator Other_event h = h"

text \<open>The other branch of the loop: the timer.\<close>

definition redial_fired :: "'s swarm_lib \<Rightarrow> string list \<Rightarrow> string \<Rightarrow> ('s, 'k) host \<Rightarrow> ('s, 'k) host" where
  "redial_fired lib addrs orchestrator h =
     (let h = h\<lparr>h_redial_attempt := sat_add (h_redial_attempt h) 1, h_swarm := dial_bootstrap_peers lib addrs (h_swarm h),
                h_redial_sleep := None\<rparr>
      in if orchestrator \<notin> set (sl_connected_peers lib (h_swarm h)) then schedule_bootstrap_redial h else h)"

section \<open>Start\<close>

definition host_protocols :: "(string \<times> string) list" where
  "host_protocols =
     [(PROTOCOL_BID, ''bid''), (PROTOCOL_ANNOUNCE, ''announce''), (PROTOCOL_DISPATCH, ''dispatch''), (PROTOCOL_RESULT, ''result''),
      (PROTOCOL_PCS_REQUEST, ''pcs request''), (PROTOCOL_PCS_OPEN, ''pcs open'')]"

fun accept_protocols :: "'s swarm_lib \<Rightarrow> (string \<times> string) list \<Rightarrow> 's \<Rightarrow> (err + unit) \<times> 's" where
  "accept_protocols lib [] s = (Inr (), s)"
| "accept_protocols lib ((protocol, name) # ps) s =
     (case sl_accept lib protocol s of
        (Inl e, s) \<Rightarrow> (Inl (''failed to register '' @ name @ '' stream protocol: '' @ e), s)
      | (Inr _, s) \<Rightarrow> accept_protocols lib ps s)"

text \<open>The two listen addresses are parsed before either is used.\<close>

definition listen_addrs :: "(string \<Rightarrow> err + string) \<Rightarrow> 'k node_config \<Rightarrow> err + string \<times> string" where
  "listen_addrs parse config =
     (let port = show_nat (unat (p2p_listen_port config)) in
      and_then (parse (''/ip4/0.0.0.0/tcp/'' @ port)) (\<lambda>tcp_addr.
      and_then (parse (''/ip4/0.0.0.0/udp/'' @ port @ ''/quic-v1'')) (\<lambda>quic_addr.
        Inr (tcp_addr, quic_addr))))"

definition listen_on_both :: "'s swarm_lib \<Rightarrow> string \<times> string \<Rightarrow> 's \<Rightarrow> (err + unit) \<times> 's" where
  "listen_on_both lib addrs s =
     (case sl_listen_on lib (fst addrs) s of
        (Inl e, s) \<Rightarrow> (Inl e, s)
      | (Inr _, s) \<Rightarrow> sl_listen_on lib (snd addrs) s)"

text \<open>
  \<open>run\<close> from the registration of the protocols to its loop. A failure ends the host; what it did to the
  swarm and the shared state before stays. On success the result is the orchestrator's peer and the
  parsed bootstrap addresses.
\<close>

definition start_host ::
    "'s swarm_lib \<Rightarrow> (string \<Rightarrow> err + string) \<Rightarrow> 'k node_config \<Rightarrow> 's \<Rightarrow> 'k app
      \<Rightarrow> (err + string \<times> string list) \<times> ('s, 'k) host" where
  "start_host lib parse config swarm a =
     (let h = \<lparr>h_swarm = swarm, h_redial_attempt = 0, h_redial_sleep = None, h_orch_gossip_live = False,
               h_spawned_bids = [], h_app = a\<rparr> in
      case accept_protocols lib host_protocols (h_swarm h) of
        (Inl e, s) \<Rightarrow> (Inl e, h\<lparr>h_swarm := s\<rparr>)
      | (Inr _, s) \<Rightarrow>
          (let h = h\<lparr>h_swarm := s, h_app := (h_app h)\<lparr>app_stream_ready := True\<rparr>\<rparr> in
           case orchestrator_peer_id config of
             None \<Rightarrow> (Inl ''orchestrator peer id not configured'', h)
           | Some orchestrator \<Rightarrow>
               (case listen_addrs parse config of
                  Inl e \<Rightarrow> (Inl e, h)
                | Inr listen \<Rightarrow>
                    (case listen_on_both lib listen (h_swarm h) of
                       (Inl e, s) \<Rightarrow> (Inl e, h\<lparr>h_swarm := s\<rparr>)
                     | (Inr _, s) \<Rightarrow>
                         (let addrs = parse_bootstrap_addrs parse (bootstrap_peers config);
                              h = h\<lparr>h_swarm := dial_bootstrap_peers lib addrs s\<rparr>;
                              h = (if orchestrator \<notin> set (sl_connected_peers lib (h_swarm h))
                                   then schedule_bootstrap_redial h else h)
                          in (Inr (orchestrator, addrs), h))))))"

section \<open>Runs\<close>

text \<open>What the documentation of libp2p says of the calls: only the swarm itself makes and closes connections.\<close>

definition swarm_laws :: "'s swarm_lib \<Rightarrow> bool" where
  "swarm_laws lib \<longleftrightarrow>
     (\<forall>s. distinct (sl_connected_peers lib s)) \<and>
     (\<forall>p s. sl_is_connected lib p s \<longleftrightarrow> p \<in> set (sl_connected_peers lib s)) \<and>
     (\<forall>x s. sl_connected_peers lib (snd (sl_accept lib x s)) = sl_connected_peers lib s \<and>
        sl_connected_peers lib (snd (sl_listen_on lib x s)) = sl_connected_peers lib s \<and>
        sl_connected_peers lib (snd (sl_dial lib x s)) = sl_connected_peers lib s \<and>
        sl_connected_peers lib (sl_add_explicit_peer lib x s) = sl_connected_peers lib s \<and>
        sl_connected_peers lib (snd (sl_subscribe lib x s)) = sl_connected_peers lib s \<and>
        sl_connected_peers lib (snd (sl_unsubscribe lib x s)) = sl_connected_peers lib s) \<and>
     (\<forall>x s. sl_topics lib (snd (sl_accept lib x s)) = sl_topics lib s \<and>
        sl_topics lib (snd (sl_listen_on lib x s)) = sl_topics lib s \<and>
        sl_topics lib (snd (sl_dial lib x s)) = sl_topics lib s \<and>
        sl_topics lib (sl_add_explicit_peer lib x s) = sl_topics lib s) \<and>
     (\<forall>t s. sl_topics lib (snd (sl_unsubscribe lib t s)) = sl_topics lib s - {t}) \<and>
     (\<forall>t s. case sl_subscribe lib t s of
        (Inr new, s') \<Rightarrow> new = (t \<notin> sl_topics lib s) \<and> sl_topics lib s' = insert t (sl_topics lib s)
      | (Inl _, s') \<Rightarrow> sl_topics lib s' = sl_topics lib s)"

definition peers_of :: "'s swarm_lib \<Rightarrow> 's \<Rightarrow> string set" where
  "peers_of lib s = set (sl_connected_peers lib s)"

definition swarm_moves :: "'s swarm_lib \<Rightarrow> 's \<Rightarrow> swarm_event \<Rightarrow> 's \<Rightarrow> bool" where
  "swarm_moves lib s event s' \<longleftrightarrow> sl_topics lib s' = sl_topics lib s \<and>
     (case event of
        Connection_established peer \<Rightarrow> peers_of lib s' = insert peer (peers_of lib s)
      | Connection_closed peer \<Rightarrow> peers_of lib s' = peers_of lib s \<or> peers_of lib s' = peers_of lib s - {peer}
      | _ \<Rightarrow> peers_of lib s' = peers_of lib s)"

text \<open>The steps of the node that concern the host; other tasks change the shared state but not the connection metrics.\<close>

definition same_connection_metrics :: "'k app \<Rightarrow> 'k app \<Rightarrow> bool" where
  "same_connection_metrics a a' \<longleftrightarrow>
     orchestrator_connected (app_metrics a') = orchestrator_connected (app_metrics a) \<and>
     connected_peers (app_metrics a') = connected_peers (app_metrics a)"

inductive host_step ::
    "'s swarm_lib \<Rightarrow> ('c, 'v) peer_env \<Rightarrow> app_env \<Rightarrow> 'k node_config \<Rightarrow> string \<Rightarrow> string list \<Rightarrow> ('s, 'k) host \<Rightarrow> ('s, 'k) host \<Rightarrow> bool"
  for lib pe ev config orchestrator addrs where
  Event: "swarm_moves lib (h_swarm h) event s' \<Longrightarrow>
    host_step lib pe ev config orchestrator addrs h (handle_swarm_event lib pe config orchestrator event (h\<lparr>h_swarm := s'\<rparr>))"
| Timer: "h_redial_sleep h \<noteq> None \<Longrightarrow>
    host_step lib pe ev config orchestrator addrs h (redial_fired lib addrs orchestrator h)"
| Bid: "h_spawned_bids h = xs @ announcement # ys \<Longrightarrow> submit_bid ev w config announcement orchestrator (h_app h) = Some (r, a') \<Longrightarrow>
    host_step lib pe ev config orchestrator addrs h (h\<lparr>h_spawned_bids := xs @ ys, h_app := a'\<rparr>)"
| Other: "same_connection_metrics (h_app h) a' \<Longrightarrow>
    host_step lib pe ev config orchestrator addrs h (h\<lparr>h_app := a'\<rparr>)"

definition host_ok :: "'s swarm_lib \<Rightarrow> ('c, 'v) peer_env \<Rightarrow> 'k node_config \<Rightarrow> string \<Rightarrow> ('s, 'k) host \<Rightarrow> bool" where
  "host_ok lib pe config orchestrator h \<longleftrightarrow>
     orchestrator_connected (app_metrics (h_app h)) = (orchestrator \<in> peers_of lib (h_swarm h)) \<and>
     connected_peers (app_metrics (h_app h)) = of_nat (card (peers_of lib (h_swarm h))) \<and>
     (orchestrator \<notin> peers_of lib (h_swarm h) \<longrightarrow> h_redial_sleep h \<noteq> None) \<and>
     (\<forall>d. h_redial_sleep h = Some d \<longrightarrow> BOOTSTRAP_REDIAL_INITIAL \<le> d \<and> d \<le> BOOTSTRAP_REDIAL_MAX) \<and>
     (h_orch_gossip_live h \<longleftrightarrow> ANNOUNCEMENT_TOPIC \<in> sl_topics lib (h_swarm h)) \<and>
     (h_orch_gossip_live h \<longrightarrow> orchestrator \<in> peers_of lib (h_swarm h)) \<and>
     (\<forall>an \<in> set (h_spawned_bids h). \<exists>m key. orchestrator_public_key config = Some key \<and>
        verify_announcement_message (pe_crypto pe) m key = Inr () \<and> am_announcement m = an)"

section \<open>Lemmas\<close>

lemma redial_delay_exact: "bootstrap_redial_delay n = from_secs (if unat n < 6 then 2 ^ unat n else 60)"
proof (cases "unat n < 16")
  case True
  then have n: "n < 16" by (simp add: word_less_nat_alt)
  have "n < 32" using n by (simp add: word_less_nat_alt)
  then have shl: "checked_shl 1 (min n 16) = Some (2 ^ unat n)" using n by (simp add: checked_shl_def push_bit_eq_mult)
  have "(2::nat) ^ unat n < 2 ^ 16" using True by (intro power_strict_increasing) auto
  then have u: "unat (2 ^ unat n :: u32) = 2 ^ unat n" using unsigned_of_nat [where 'b = 32 and 'a = nat, of "2 ^ unat n"] using True by simp
  note \<open>(2::nat) ^ unat n < 2 ^ 16\<close>
  moreover have "unat n < 6 \<Longrightarrow> (2::nat) ^ unat n \<le> 2 ^ 5" by (intro power_increasing) auto
  moreover have "\<not> unat n < 6 \<Longrightarrow> (2::nat) ^ 6 \<le> 2 ^ unat n" by (intro power_increasing) auto
  ultimately show ?thesis
    by (auto simp: bootstrap_redial_delay_def Let_def shl u duration_saturating_mul_def DURATION_MAX_def BOOTSTRAP_REDIAL_INITIAL_def
        BOOTSTRAP_REDIAL_MAX_def from_secs_def)
next
  case False
  then have "16 \<le> n" by (simp add: word_le_nat_alt)
  then have "min n 16 = 16" by (rule min_absorb2)
  then show ?thesis using False
    by (simp add: bootstrap_redial_delay_def Let_def duration_saturating_mul_def DURATION_MAX_def BOOTSTRAP_REDIAL_INITIAL_def
        BOOTSTRAP_REDIAL_MAX_def from_secs_def checked_shl_def)
qed

lemma redial_delay_bounds: "BOOTSTRAP_REDIAL_INITIAL \<le> bootstrap_redial_delay n" "bootstrap_redial_delay n \<le> BOOTSTRAP_REDIAL_MAX"
proof -
  have "unat n < 6 \<Longrightarrow> (2::nat) ^ unat n \<le> 2 ^ 5" by (intro power_increasing) auto
  then show "BOOTSTRAP_REDIAL_INITIAL \<le> bootstrap_redial_delay n" "bootstrap_redial_delay n \<le> BOOTSTRAP_REDIAL_MAX"
    by (auto simp: redial_delay_exact from_secs_def BOOTSTRAP_REDIAL_INITIAL_def BOOTSTRAP_REDIAL_MAX_def)
qed

text \<open>The laws as rewrite rules.\<close>

lemma swarm_lawsD:
  assumes "swarm_laws lib"
  shows "sl_is_connected lib p s \<longleftrightarrow> p \<in> peers_of lib s"
    and "length (sl_connected_peers lib s) = card (peers_of lib s)"
    and "peers_of lib (snd (sl_accept lib x s)) = peers_of lib s" "peers_of lib (snd (sl_listen_on lib x s)) = peers_of lib s"
    and "peers_of lib (snd (sl_dial lib x s)) = peers_of lib s" "peers_of lib (sl_add_explicit_peer lib x s) = peers_of lib s"
    and "peers_of lib (snd (sl_subscribe lib x s)) = peers_of lib s" "peers_of lib (snd (sl_unsubscribe lib x s)) = peers_of lib s"
    and "sl_topics lib (snd (sl_accept lib x s)) = sl_topics lib s" "sl_topics lib (snd (sl_listen_on lib x s)) = sl_topics lib s"
    and "sl_topics lib (snd (sl_dial lib x s)) = sl_topics lib s" "sl_topics lib (sl_add_explicit_peer lib x s) = sl_topics lib s"
    and "sl_topics lib (snd (sl_unsubscribe lib x s)) = sl_topics lib s - {x}"
  using assms by (simp_all add: swarm_laws_def peers_of_def distinct_card)

lemma subscribe_law:
  assumes "swarm_laws lib"
  shows "case sl_subscribe lib t s of
        (Inr new, s') \<Rightarrow> new = (t \<notin> sl_topics lib s) \<and> sl_topics lib s' = insert t (sl_topics lib s)
      | (Inl _, s') \<Rightarrow> sl_topics lib s' = sl_topics lib s"
  using assms unfolding swarm_laws_def by (elim conjE) (drule spec, drule spec, assumption)

lemma subscribe_cases:
  assumes "swarm_laws lib" "t \<notin> sl_topics lib s"
  obtains s' where "sl_subscribe lib t s = (Inr True, s')" "peers_of lib s' = peers_of lib s" "sl_topics lib s' = insert t (sl_topics lib s)"
  | e s' where "sl_subscribe lib t s = (Inl e, s')" "peers_of lib s' = peers_of lib s" "sl_topics lib s' = sl_topics lib s"
proof -
  obtain r s' where r: "sl_subscribe lib t s = (r, s')" by fastforce
  have "case (r, s') of (Inr new, s') \<Rightarrow> new = (t \<notin> sl_topics lib s) \<and> sl_topics lib s' = insert t (sl_topics lib s)
      | (Inl _, s') \<Rightarrow> sl_topics lib s' = sl_topics lib s"
    using subscribe_law [OF assms(1), where t = t and s = s] by (simp add: r)
  then show thesis using assms(2) r swarm_lawsD(7) [OF assms(1), of t s] by (cases r) (auto intro: that)
qed

lemma dial_keeps:
  assumes "swarm_laws lib"
  shows "peers_of lib (dial_bootstrap_peers lib addrs s) = peers_of lib s" "sl_topics lib (dial_bootstrap_peers lib addrs s) = sl_topics lib s"
  unfolding dial_bootstrap_peers_def by (induction addrs arbitrary: s) (simp_all add: swarm_lawsD [OF assms])

lemma ensure_subscription:
  assumes laws: "swarm_laws lib" and live: "h_orch_gossip_live h \<longleftrightarrow> ANNOUNCEMENT_TOPIC \<in> sl_topics lib (h_swarm h)"
  shows "\<exists>s live'. ensure_orchestrator_gossip_subscription lib p h = h\<lparr>h_swarm := s, h_orch_gossip_live := live'\<rparr> \<and>
    peers_of lib s = peers_of lib (h_swarm h) \<and> (live' \<longleftrightarrow> ANNOUNCEMENT_TOPIC \<in> sl_topics lib s)"
proof (cases "h_orch_gossip_live h")
  case True
  then show ?thesis using live
    by (intro exI [of _ "sl_add_explicit_peer lib p (h_swarm h)"] exI [of _ True])
      (simp add: ensure_orchestrator_gossip_subscription_def swarm_lawsD [OF laws])
next
  case False
  let ?s = "snd (sl_unsubscribe lib ANNOUNCEMENT_TOPIC (sl_add_explicit_peer lib p (h_swarm h)))"
  have "ANNOUNCEMENT_TOPIC \<notin> sl_topics lib ?s" by (simp add: swarm_lawsD [OF laws])
  with laws show ?thesis
  proof (cases rule: subscribe_cases)
    case (1 s)
    then show ?thesis using False
      by (intro exI [of _ s] exI [of _ True]) (simp add: ensure_orchestrator_gossip_subscription_def swarm_lawsD [OF laws])
  next
    case (2 e s)
    then show ?thesis using False
      by (intro exI [of _ s] exI [of _ False]) (simp add: ensure_orchestrator_gossip_subscription_def swarm_lawsD [OF laws])
  qed
qed

lemma same_metrics_submit:
  assumes "submit_bid ev w config an orch a = Some (r, a')" shows "app_metrics a' = app_metrics a"
proof -
  have adm: "app_metrics (snd (admit_work w config an a)) = app_metrics a"
    by (simp add: admit_work_def split: option.split prod.split sum.split)
  have att: "app_metrics (snd (attempts (on_network (write_outbound_stream_expect_ack ps lo pr t b)) n e x)) = app_metrics x" for ps lo pr t b n e and x :: "'a app"
    by (rule attempts_induct [where P = "\<lambda>y. app_metrics y = app_metrics x"]) (simp_all add: on_network_def split: prod.split)
  show ?thesis
    using assms adm
    by (auto simp: submit_bid_def Let_def on_storage_eq att split: if_splits prod.splits bool.splits option.splits sum.splits
        dest!: arg_cong [where f = snd])
qed

section \<open>The invariant\<close>

lemma ok_scheduled: "host_ok lib pe config orch h \<Longrightarrow> host_ok lib pe config orch (schedule_bootstrap_redial h)"
  by (auto simp: host_ok_def schedule_bootstrap_redial_def redial_delay_bounds)

lemmas metric_simps = count_metric_def set_connected_peers_def set_orchestrator_connected_def

lemma established_ok:
  assumes laws: "swarm_laws lib" and ok: "host_ok lib pe config orch h" and moves: "swarm_moves lib (h_swarm h) (Connection_established p) s'"
  shows "host_ok lib pe config orch (connection_established lib orch p (h\<lparr>h_swarm := s'\<rparr>))"
proof -
  have m: "sl_topics lib s' = sl_topics lib (h_swarm h)" "peers_of lib s' = insert p (peers_of lib (h_swarm h))"
    using moves by (simp_all add: swarm_moves_def)
  show ?thesis
  proof (cases "p = orch")
    case True
    let ?h = "count_peers lib (h\<lparr>h_swarm := s'\<rparr>)"
    let ?h = "?h\<lparr>h_redial_attempt := 0, h_redial_sleep := None, h_app := count_metric (set_orchestrator_connected True) (h_app ?h)\<rparr>"
    have "h_orch_gossip_live ?h \<longleftrightarrow> ANNOUNCEMENT_TOPIC \<in> sl_topics lib (h_swarm ?h)"
      using ok m by (simp add: host_ok_def count_peers_def)
    then obtain s live where "ensure_orchestrator_gossip_subscription lib orch ?h = ?h\<lparr>h_swarm := s, h_orch_gossip_live := live\<rparr>"
      "peers_of lib s = peers_of lib (h_swarm ?h)" "live \<longleftrightarrow> ANNOUNCEMENT_TOPIC \<in> sl_topics lib s"
      using ensure_subscription [OF laws] by blast
    then show ?thesis using ok m True
      by (simp add: connection_established_def Let_def host_ok_def count_peers_def metric_simps swarm_lawsD [OF laws])
  next
    case False
    then show ?thesis using ok m
      by (auto simp: connection_established_def Let_def host_ok_def count_peers_def metric_simps swarm_lawsD [OF laws])
  qed
qed

lemma closed_ok:
  assumes laws: "swarm_laws lib" and ok: "host_ok lib pe config orch h" and moves: "swarm_moves lib (h_swarm h) (Connection_closed p) s'"
  shows "host_ok lib pe config orch (connection_closed lib orch p (h\<lparr>h_swarm := s'\<rparr>))"
proof -
  have m: "sl_topics lib s' = sl_topics lib (h_swarm h)" "p \<noteq> orch \<Longrightarrow> orch \<in> peers_of lib s' \<longleftrightarrow> orch \<in> peers_of lib (h_swarm h)"
    "orch \<in> peers_of lib s' \<Longrightarrow> orch \<in> peers_of lib (h_swarm h)"
    using moves by (auto simp: swarm_moves_def)
  show ?thesis
  proof (cases "p = orch")
    case True
    then show ?thesis using ok m
      by (auto simp: connection_closed_def Let_def host_ok_def count_peers_def metric_simps schedule_bootstrap_redial_def
          redial_delay_bounds unsubscribe_orchestrator_announcements_def swarm_lawsD [OF laws])
  next
    case False
    then show ?thesis using ok m
      by (simp add: connection_closed_def Let_def host_ok_def count_peers_def metric_simps swarm_lawsD [OF laws])
  qed
qed

lemma event_ok:
  assumes laws: "swarm_laws lib" and ok: "host_ok lib pe config orch h" and moves: "swarm_moves lib (h_swarm h) event s'"
  shows "host_ok lib pe config orch (handle_swarm_event lib pe config orch event (h\<lparr>h_swarm := s'\<rparr>))"
proof -
  have quiet: "host_ok lib pe config orch (h\<lparr>h_swarm := s'\<rparr>)" if "sl_topics lib s' = sl_topics lib (h_swarm h)" "peers_of lib s' = peers_of lib (h_swarm h)"
    using ok that by (simp add: host_ok_def)
  have bid: "host_ok lib pe config orch (gossip_message pe config data g)" if "host_ok lib pe config orch g" for data and g :: "('a, 'd) host"
    using that by (auto simp: gossip_message_def host_ok_def parse_signed_announcement_def and_then_eq_Inr split: option.split sum.split)
  show ?thesis
    using moves established_ok [OF laws ok] closed_ok [OF laws ok] quiet bid ok_scheduled
    by (cases event) (auto simp: swarm_moves_def)
qed

lemma redial_ok:
  assumes laws: "swarm_laws lib" and ok: "host_ok lib pe config orch h"
  shows "host_ok lib pe config orch (redial_fired lib addrs orch h)"
proof -
  have in_peers: "orch \<in> set (sl_connected_peers lib s) \<longleftrightarrow> orch \<in> peers_of lib s" for s by (simp add: peers_of_def)
  show ?thesis using ok
    by (auto simp: redial_fired_def Let_def host_ok_def schedule_bootstrap_redial_def redial_delay_bounds in_peers dial_keeps [OF laws])
qed

inductive_cases host_stepE: "host_step lib pe ev config orch addrs h h'"

lemma host_step_ok:
  assumes "host_step lib pe ev config orch addrs h h'" "swarm_laws lib" "host_ok lib pe config orch h"
  shows "host_ok lib pe config orch h'"
  using assms(1)
proof (cases rule: host_step.cases)
  case (Event event s')
  then show ?thesis using event_ok [OF assms(2,3) Event(2)] by simp
next
  case Timer
  then show ?thesis using redial_ok [OF assms(2,3)] by simp
next
  case (Bid xs announcement ys w r a')
  then show ?thesis using assms(3) same_metrics_submit [OF Bid(3)] by (auto simp: host_ok_def)
next
  case (Other a')
  then show ?thesis using assms(3) by (simp add: host_ok_def same_connection_metrics_def)
qed

text \<open>A fresh swarm has no connections and no subscriptions.\<close>

lemma accept_keeps_both:
  assumes "swarm_laws lib"
  shows "peers_of lib (snd (accept_protocols lib ps s)) = peers_of lib s \<and> sl_topics lib (snd (accept_protocols lib ps s)) = sl_topics lib s"
proof (induction ps arbitrary: s)
  case (Cons p ps)
  obtain protocol name where p: "p = (protocol, name)" by fastforce
  obtain r s1 where s1: "sl_accept lib protocol s = (r, s1)" by fastforce
  show ?case using p s1 Cons swarm_lawsD(3,9) [OF assms, of protocol s] by (cases r) auto
qed simp

lemmas accept_keeps = accept_keeps_both [THEN conjunct1] accept_keeps_both [THEN conjunct2]

lemma listen_keeps:
  assumes "swarm_laws lib"
  shows "peers_of lib (snd (listen_on_both lib x s)) = peers_of lib s" "sl_topics lib (snd (listen_on_both lib x s)) = sl_topics lib s"
  using swarm_lawsD(4,10) [OF assms]
  by (auto simp: listen_on_both_def split: prod.split sum.split) (metis snd_conv)+

lemma start_ok:
  assumes laws: "swarm_laws lib" and fresh: "peers_of lib s = {}" "sl_topics lib s = {}"
    and metrics: "\<not> orchestrator_connected (app_metrics a)" "connected_peers (app_metrics a) = 0"
    and run: "start_host lib parse config s a = (Inr (orch, addrs), h)"
  shows "host_ok lib pe config orch h"
proof -
  obtain s1 x s2 where st: "accept_protocols lib host_protocols s = (Inr (), s1)" "listen_on_both lib x s1 = (Inr (), s2)"
    "orchestrator_peer_id config = Some orch" "listen_addrs parse config = Inr x"
    using run by (auto simp: start_host_def Let_def split: prod.splits sum.splits option.splits)
  have e: "peers_of lib s2 = {}" "sl_topics lib s2 = {}"
    using accept_keeps [OF laws, of host_protocols s] listen_keeps [OF laws, of x s1] st fresh by simp_all
  then have "orch \<notin> set (sl_connected_peers lib (dial_bootstrap_peers lib addrs s2))"
    using dial_keeps(1) [OF laws, of addrs s2] by (simp add: peers_of_def)
  then show ?thesis
    using run st e metrics dial_keeps [OF laws, of addrs s2]
    by (auto simp: start_host_def Let_def host_ok_def schedule_bootstrap_redial_def redial_delay_bounds)
qed

definition host_started ::
    "'s swarm_lib \<Rightarrow> 'k node_config \<Rightarrow> string \<Rightarrow> string list \<Rightarrow> ('s, 'k) host \<Rightarrow> bool" where
  "host_started lib config orchestrator addrs h \<longleftrightarrow>
     (\<exists>parse s a. peers_of lib s = {} \<and> sl_topics lib s = {} \<and>
        \<not> orchestrator_connected (app_metrics a) \<and> connected_peers (app_metrics a) = 0 \<and>
        start_host lib parse config s a = (Inr (orchestrator, addrs), h))"

interpretation host: step_system "\<lambda>h. swarm_laws lib \<and> host_started lib config orch addrs h"
  "\<lambda>h h'. swarm_laws lib \<and> host_step lib pe ev config orch addrs h h'" "host_ok lib pe config orch"
  for lib pe ev config orch addrs
  by unfold_locales (auto simp: host_started_def intro: start_ok host_step_ok)

section \<open>Properties\<close>

text \<open>
  Property C13. The host never gives up on the orchestrator: in every state it reaches after its start,
  whatever the network, the timer and the other tasks do, a node that is not connected to the
  orchestrator has a redial pending, at most 60 seconds away. The exported connection metrics are
  those of the swarm. The node believes itself subscribed to the announcements exactly when it is,
  and then it is connected. Bids wait only for announcements whose signature verified.
\<close>

theorem host_invariant:
  assumes "swarm_laws lib" and "host_started lib config orch addrs h"
    and "(host_step lib pe ev config orch addrs)\<^sup>*\<^sup>* h h'"
  shows "(sl_is_connected lib orch (h_swarm h') \<or> h_redial_sleep h' \<noteq> None) \<and>
    (case h_redial_sleep h' of None \<Rightarrow> True | Some d \<Rightarrow> from_secs 1 \<le> d \<and> d \<le> from_secs 60) \<and>
    orchestrator_connected (app_metrics (h_app h')) = sl_is_connected lib orch (h_swarm h') \<and>
    connected_peers (app_metrics (h_app h')) = of_nat (length (sl_connected_peers lib (h_swarm h'))) \<and>
    h_orch_gossip_live h' = (ANNOUNCEMENT_TOPIC \<in> sl_topics lib (h_swarm h')) \<and>
    (\<not> h_orch_gossip_live h' \<or> sl_is_connected lib orch (h_swarm h')) \<and>
    (\<forall>an \<in> set (h_spawned_bids h'). \<exists>m key. orchestrator_public_key config = Some key \<and>
       verify_announcement_message (pe_crypto pe) m key = Inr () \<and> am_announcement m = an)"
proof -
  have "host_ok lib pe config orch h'"
    using host.reachable_inv [of lib config orch addrs h pe ev h'] assms by simp
  then show ?thesis
    by (auto simp: host_ok_def swarm_lawsD [OF assms(1)] BOOTSTRAP_REDIAL_INITIAL_def BOOTSTRAP_REDIAL_MAX_def split: option.split)
qed

lemma redial_out_of_reach:
  assumes "orch \<notin> set (sl_connected_peers lib (dial_bootstrap_peers lib addrs (h_swarm h)))"
  shows "redial_fired lib addrs orch h = h\<lparr>h_redial_attempt := sat_add (h_redial_attempt h) 1,
    h_swarm := dial_bootstrap_peers lib addrs (h_swarm h), h_redial_sleep := Some (bootstrap_redial_delay (sat_add (h_redial_attempt h) 1))\<rparr>"
  using assms by (simp add: redial_fired_def Let_def schedule_bootstrap_redial_def)

text \<open>
  Property C29. Redialling backs off exponentially: while the orchestrator stays out of reach, the n-th timer
  dials every bootstrap address once more and sets the next timer to 2^n seconds, from
  the sixth on to 60; the count of attempts saturates instead of wrapping.
\<close>

theorem redial_backoff:
  assumes "swarm_laws lib" "\<not> sl_is_connected lib orch (h_swarm h)" "h_redial_attempt h = 0"
  shows "h_swarm ((redial_fired lib addrs orch ^^ n) h) = (dial_bootstrap_peers lib addrs ^^ n) (h_swarm h) \<and>
    unat (h_redial_attempt ((redial_fired lib addrs orch ^^ n) h)) = min n (2 ^ 32 - 1) \<and>
    (n = 0 \<or> h_redial_sleep ((redial_fired lib addrs orch ^^ n) h) = Some (from_secs (if n < 6 then 2 ^ n else 60)))"
proof -
  have apart: "orch \<notin> set (sl_connected_peers lib ((dial_bootstrap_peers lib addrs ^^ k) (h_swarm h)))" for k
    using assms(2) dial_keeps(1) [OF assms(1)] swarm_lawsD(1) [OF assms(1)]
    by (induction k) (simp_all add: peers_of_def)
  show ?thesis
  proof (induction n)
    case (Suc n)
    let ?h = "(redial_fired lib addrs orch ^^ n) h"
    have u: "unat (sat_add (h_redial_attempt ?h) 1) = min (Suc n) (2 ^ 32 - 1)"
      using Suc by (simp add: unat_sat_add)
    have "orch \<notin> set (sl_connected_peers lib (dial_bootstrap_peers lib addrs (h_swarm ?h)))"
      using apart [of "Suc n"] Suc by simp
    from redial_out_of_reach [OF this] show ?case using Suc u
      by (simp add: redial_delay_exact min_less_iff_disj)
  qed (simp add: assms(3))
qed

definition demo_swarm_lib :: "(string list \<times> string set) swarm_lib" where
  "demo_swarm_lib = \<lparr>sl_accept = (\<lambda>_ s. (Inr (), s)), sl_listen_on = (\<lambda>_ s. (Inr (), s)), sl_dial = (\<lambda>_ s. (Inr (), s)),
     sl_connected_peers = (\<lambda>s. remdups (fst s)), sl_is_connected = (\<lambda>p s. p \<in> set (fst s)),
     sl_add_explicit_peer = (\<lambda>_ s. s), sl_subscribe = (\<lambda>t s. (Inr (t \<notin> snd s), (fst s, insert t (snd s)))),
     sl_unsubscribe = (\<lambda>t s. (t \<in> snd s, (fst s, snd s - {t}))), sl_topics = snd\<rparr>"

lemma demo_swarm_laws: "swarm_laws demo_swarm_lib"
  by (simp add: swarm_laws_def demo_swarm_lib_def)

definition demo_host_config :: "nat node_config" where
  "demo_host_config = demo_config\<lparr>orchestrator_peer_id := Some ''orch'', bootstrap_peers := [''a''], p2p_listen_port := 4001\<rparr>"

definition demo_host :: "(string list \<times> string set, nat) host" where
  "demo_host = snd (start_host demo_swarm_lib Inr demo_host_config ([], {}) demo_app)"

lemma demo_host_run:
  "start_host demo_swarm_lib Inr demo_host_config ([], {}) demo_app = (Inr (''orch'', [''a'']), demo_host)"
  "h_swarm demo_host = ([], {})" "h_redial_sleep demo_host = Some (bootstrap_redial_delay 0)" "h_redial_attempt demo_host = 0"
  by (simp_all add: demo_host_def start_host_def Let_def demo_host_config_def host_protocols_def demo_swarm_lib_def listen_addrs_def
      listen_on_both_def parse_bootstrap_addrs_def List.map_filter_simps dial_bootstrap_peers_def schedule_bootstrap_redial_def)

lemma demo_host_started: "host_started demo_swarm_lib demo_host_config ''orch'' [''a''] demo_host"
  using demo_host_run(1)
  by (auto simp: host_started_def peers_of_def demo_swarm_lib_def demo_app_def init_metrics_def
      intro!: exI [of _ Inr] exI [of _ "[]"] exI [of _ "{}"] exI [of _ demo_app])

definition demo_connected_host :: "(string list \<times> string set, nat) host" where
  "demo_connected_host =
     handle_swarm_event demo_swarm_lib demo_peer_env demo_host_config ''orch'' (Connection_established ''orch'')
       (demo_host\<lparr>h_swarm := ([''orch''], {})\<rparr>)"

lemma demo_connects:
  "host_step demo_swarm_lib demo_peer_env demo_handler_env demo_host_config ''orch'' [''a''] demo_host demo_connected_host"
  unfolding demo_connected_host_def by (rule Event) (simp add: swarm_moves_def peers_of_def demo_swarm_lib_def demo_host_run)

theorem host_invariant_witness:
  "h_redial_sleep demo_host \<noteq> None \<and> orchestrator_connected (app_metrics (h_app demo_connected_host))"
proof -
  have "sl_is_connected demo_swarm_lib ''orch'' (h_swarm demo_connected_host)"
    by (simp add: demo_connected_host_def connection_established_def count_peers_def Let_def
        ensure_orchestrator_gossip_subscription_def demo_swarm_lib_def demo_host_run)
  then show ?thesis
    using host_invariant [OF demo_swarm_laws demo_host_started, where h' = demo_connected_host, OF r_into_rtranclp, OF demo_connects]
    by (simp add: demo_host_run)
qed

theorem redial_backoff_witness:
  "h_redial_sleep ((redial_fired demo_swarm_lib [''a''] ''orch'' ^^ 3) demo_host) = Some (from_secs 8) \<and>
   h_redial_sleep ((redial_fired demo_swarm_lib [''a''] ''orch'' ^^ 100) demo_host) = Some (from_secs 60)"
proof -
  have "\<not> sl_is_connected demo_swarm_lib ''orch'' (h_swarm demo_host)" by (simp add: demo_host_run demo_swarm_lib_def)
  from redial_backoff [OF demo_swarm_laws this demo_host_run(4), where n = 3]
    redial_backoff [OF demo_swarm_laws this demo_host_run(4), where n = 100]
  show ?thesis by simp
qed

end
