(* ===== verification/Spec2Isabelle.thy ===== *)
theory Spec2Isabelle
  imports Work Memory_Budget Token Validation P2P Operator Pcs Bid Geo Config Storage Task_Prune Metrics Core_Client Bootstrap Result App_State Accept_Task Pcs_Outbox Result_Outbox Worker Bid_Client Handlers Host
begin

text \<open>
  Verification of the compute node \<open>wqc-node\<close> (\<open>src/src\<close>).
\<close>

end
